(* ===== verification/Prelude.thy ===== *)
theory Prelude
  imports Main "HOL-Library.Word" "HOL-Library.Multiset"
begin

text \<open>
  Shared vocabulary of the development: the machine integers of the Go source as words, Go
  byte strings and slices, the collections of rewrite rules the component theories extend, and
  the generic list and sorting lemmas that several of them use.

  A Go slice that the source compares with \<^verbatim>\<open>nil\<close> is a \<open>'a slice\<close>: \<open>None\<close> is the nil
  slice and \<open>Some xs\<close> a slice with the elements \<open>xs\<close>. A slice that is never compared with
  \<^verbatim>\<open>nil\<close> is a plain list. A Go \<^verbatim>\<open>string\<close> is a \<open>string\<close> (a list of bytes as characters) where
  the source reads it as text, and a list of bytes where it is binary data.
\<close>

unbundle bit_operations_syntax

type_synonym u8 = "8 word"
type_synonym u16 = "16 word"
type_synonym u32 = "32 word"
type_synonym bytes = "u8 list"
type_synonym 'a slice = "'a list option"

named_theorems codec_simps \<open>encoders and decoders of options and sub-options\<close>
named_theorems net_simps \<open>address predicates\<close>
named_theorems handler_simps \<open>the packet handlers and the functions they call\<close>

subsection \<open>Slices\<close>

text \<open>\<^verbatim>\<open>len\<close> and \<^verbatim>\<open>range\<close> read the nil slice as the empty one.\<close>

definition elems :: "'a slice \<Rightarrow> 'a list" where
  "elems s = (case s of None \<Rightarrow> [] | Some xs \<Rightarrow> xs)"

text \<open>\<^verbatim>\<open>append\<close> to a nil slice allocates.\<close>

definition slice_append :: "'a slice \<Rightarrow> 'a list \<Rightarrow> 'a slice" where
  "slice_append s xs = (case s of None \<Rightarrow> (if xs = [] then None else Some xs) | Some ys \<Rightarrow> Some (ys @ xs))"

lemma elems_simps [simp]:
  "elems None = []"
  "elems (Some xs) = xs"
  by (simp_all add: elems_def)

lemma elems_slice_append [simp]: "elems (slice_append s xs) = elems s @ xs"
  by (cases s) (simp_all add: slice_append_def)

subsection \<open>Lists\<close>

lemma find_filter_other:
  "(\<And>x. P x \<Longrightarrow> Q x) \<Longrightarrow> find P (filter Q xs) = find P xs"
  by (induction xs) auto

lemma find_append:
  "find P (xs @ ys) = (case find P xs of None \<Rightarrow> find P ys | Some x \<Rightarrow> Some x)"
  by (induction xs) auto

lemma distinct_take_1: "distinct (map f (take 1 xs))"
  by (cases xs) auto

lemma count_list_distinct: "distinct xs \<Longrightarrow> x \<in> set xs \<Longrightarrow> count_list xs x = 1"
  by (induction xs) (auto simp: count_list_0_iff)

lemma sorted_le_last: "sorted xs \<Longrightarrow> x \<in> set xs \<Longrightarrow> x \<le> last xs"
  by (induction xs) auto

lemma find_unique:
  assumes "x \<in> set xs" and "P x" and "\<And>y. y \<in> set xs \<Longrightarrow> P y \<Longrightarrow> y = x"
  shows "find P xs = Some x"
proof -
  have "find P xs \<noteq> None" using assms(1,2) by (auto simp: find_None_iff)
  then obtain y where y: "find P xs = Some y" by auto
  then have "y \<in> set xs" "P y" by (auto simp: find_Some_iff)
  then have "y = x" by (rule assms(3))
  with y show ?thesis by simp
qed

lemma distinct_map_filter_same:
  "distinct (map f xs) \<Longrightarrow> x \<in> set xs \<Longrightarrow> y \<in> set xs \<Longrightarrow> f x = f y \<Longrightarrow> x = y"
  by (metis distinct_map inj_on_def)

lemma filter_eq_only:
  "distinct zs \<Longrightarrow> k \<in> set zs \<Longrightarrow> filter (\<lambda>x. x = k) zs = [k]"
  by (induction zs) (auto simp: filter_empty_conv)

text \<open>A sorted arrangement of elements with pairwise different keys is unique.\<close>

lemma sorted_arrangement_unique:
  assumes perm: "mset ys = mset xs" and srt: "sorted (map f ys)" and dist: "distinct (map f xs)"
  shows "ys = sort_key f xs"
proof -
  have same: "set ys = set xs" by (rule mset_eq_setD [OF perm])
  have d: "distinct xs" "distinct ys"
    using dist mset_eq_imp_distinct_iff [OF perm] by (simp_all add: distinct_map)
  have inj: "inj_on f (set xs)" using dist by (simp add: distinct_map)
  have only: "filter (\<lambda>x. f k = f x) zs = [k]"
    if "distinct zs" "set zs = set xs" "k \<in> set xs" for k zs
  proof -
    have "filter (\<lambda>x. f k = f x) zs = filter (\<lambda>x. x = k) zs"
      by (rule filter_cong [OF refl]) (use inj_on_eq_iff [OF inj] that(2,3) in metis)
    also have "\<dots> = [k]" using that by (intro filter_eq_only) auto
    finally show ?thesis .
  qed
  have "sort_key f xs = ys"
    by (rule properties_for_sort_key [OF perm _ srt]) (use d same only in simp)
  then show ?thesis by simp
qed

subsection \<open>Words\<close>

lemma unat_u8_less: "unat (b :: u8) < 256"
  using unsigned_less [of b] by simp

lemma unat_u32_less: "unat (v :: u32) < 4294967296"
  by (rule order.strict_trans2 [OF unsigned_less]) simp

lemma of_nat_unat_u8: "n < 256 \<Longrightarrow> unat (of_nat n :: u8) = n"
  by (simp add: unat_of_nat)

end
