(* ===== verification/Specs.thy ===== *)
theory Specs
  imports Prelude
begin

text \<open>
  The protocol constants of \<^verbatim>\<open>pkg/specs\<close> (Ethernet, IPv4, UDP and DHCPv4 field sizes and limits),
  computed from one another the way the Go constant expressions compute them.
\<close>

subsection \<open>\<^verbatim>\<open>pkg/specs/dhcpv4.go\<close>\<close>

definition DHCPv4ServerPort :: nat where "DHCPv4ServerPort = 67"
definition DHCPv4ClientPort :: nat where "DHCPv4ClientPort = 68"
definition DHCPv4MinMessageSize :: nat where "DHCPv4MinMessageSize = 244"
definition DHCPv4MaxMessageSize :: nat where "DHCPv4MaxMessageSize = 548"
definition DHCPv4MaxHops :: nat where "DHCPv4MaxHops = 16"
definition DHCPv4BroadcastFlag :: u16 where "DHCPv4BroadcastFlag = 0x8000"
definition DHCPv4MaxOptionSize :: nat where "DHCPv4MaxOptionSize = 255"
definition DHCPv4OptionTypeSize :: nat where "DHCPv4OptionTypeSize = 1"
definition DHCPv4OptionLengthSize :: nat where "DHCPv4OptionLengthSize = 1"
definition DHCPv4MaxSubOptionSize :: nat where
  "DHCPv4MaxSubOptionSize = DHCPv4MaxOptionSize - DHCPv4OptionTypeSize - DHCPv4OptionLengthSize"

subsection \<open>\<^verbatim>\<open>pkg/specs/ethernet.go\<close>\<close>

definition EthernetFieldSizeDestinationMACAddress :: nat where "EthernetFieldSizeDestinationMACAddress = 48"
definition EthernetFieldSizeSourceMACAddress :: nat where "EthernetFieldSizeSourceMACAddress = 48"
definition EthernetFieldSizeEtherType :: nat where "EthernetFieldSizeEtherType = 16"
definition EthernetHeaderSizeBits :: nat where
  "EthernetHeaderSizeBits =
     EthernetFieldSizeDestinationMACAddress + EthernetFieldSizeSourceMACAddress + EthernetFieldSizeEtherType"
definition EthernetCommonMTU :: nat where "EthernetCommonMTU = 1500"
definition EthernetMACLengthBytes :: nat where "EthernetMACLengthBytes = 6"

subsection \<open>\<^verbatim>\<open>pkg/specs/ipv4.go\<close>\<close>

definition IPv4FieldSizeVersion :: nat where "IPv4FieldSizeVersion = 4"
definition IPv4FieldSizeIHL :: nat where "IPv4FieldSizeIHL = 4"
definition IPv4FieldSizeDSC :: nat where "IPv4FieldSizeDSC = 6"
definition IPv4FieldSizeECN :: nat where "IPv4FieldSizeECN = 2"
definition IPv4FieldSizeTotalLength :: nat where "IPv4FieldSizeTotalLength = 16"
definition IPv4FieldSizeIdentification :: nat where "IPv4FieldSizeIdentification = 16"
definition IPv4FieldSizeFlags :: nat where "IPv4FieldSizeFlags = 3"
definition IPv4FieldSizeFragmentOffset :: nat where "IPv4FieldSizeFragmentOffset = 13"
definition IPv4FieldSizeTTL :: nat where "IPv4FieldSizeTTL = 8"
definition IPv4FieldSizeProtocol :: nat where "IPv4FieldSizeProtocol = 8"
definition IPv4FieldSizeChecksum :: nat where "IPv4FieldSizeChecksum = 16"
definition IPv4FieldSizeSourceIP :: nat where "IPv4FieldSizeSourceIP = 32"
definition IPv4FieldSizeDestinationIP :: nat where "IPv4FieldSizeDestinationIP = 32"
definition IPv4HeaderSizeBits :: nat where
  "IPv4HeaderSizeBits =
     IPv4FieldSizeVersion + IPv4FieldSizeIHL + IPv4FieldSizeDSC + IPv4FieldSizeECN +
     IPv4FieldSizeTotalLength + IPv4FieldSizeIdentification + IPv4FieldSizeFlags +
     IPv4FieldSizeFragmentOffset + IPv4FieldSizeTTL + IPv4FieldSizeProtocol + IPv4FieldSizeChecksum +
     IPv4FieldSizeSourceIP + IPv4FieldSizeDestinationIP"
definition IPv4FieldIHLValueMinHeaderNoOptions :: nat where "IPv4FieldIHLValueMinHeaderNoOptions = 5"
definition IPv4Version :: u8 where "IPv4Version = 4"
definition DefaultTTL :: u8 where "DefaultTTL = 64"

subsection \<open>\<^verbatim>\<open>pkg/specs/udp.go\<close>\<close>

definition UDPFieldSizeSourcePort :: nat where "UDPFieldSizeSourcePort = 16"
definition UDPFieldSizeDestinationPort :: nat where "UDPFieldSizeDestinationPort = 16"
definition UDPFieldSizeLength :: nat where "UDPFieldSizeLength = 16"
definition UDPFieldSizeChecksum :: nat where "UDPFieldSizeChecksum = 16"
definition UDPHeaderSizeBits :: nat where
  "UDPHeaderSizeBits =
     UDPFieldSizeSourcePort + UDPFieldSizeDestinationPort + UDPFieldSizeLength + UDPFieldSizeChecksum"

lemmas specs_defs =
  DHCPv4ServerPort_def DHCPv4ClientPort_def DHCPv4MinMessageSize_def DHCPv4MaxMessageSize_def
  DHCPv4MaxHops_def DHCPv4BroadcastFlag_def DHCPv4MaxOptionSize_def DHCPv4OptionTypeSize_def
  DHCPv4OptionLengthSize_def DHCPv4MaxSubOptionSize_def
  EthernetFieldSizeDestinationMACAddress_def EthernetFieldSizeSourceMACAddress_def
  EthernetFieldSizeEtherType_def EthernetHeaderSizeBits_def EthernetCommonMTU_def
  EthernetMACLengthBytes_def
  IPv4FieldSizeVersion_def IPv4FieldSizeIHL_def IPv4FieldSizeDSC_def IPv4FieldSizeECN_def
  IPv4FieldSizeTotalLength_def IPv4FieldSizeIdentification_def IPv4FieldSizeFlags_def
  IPv4FieldSizeFragmentOffset_def IPv4FieldSizeTTL_def IPv4FieldSizeProtocol_def
  IPv4FieldSizeChecksum_def IPv4FieldSizeSourceIP_def IPv4FieldSizeDestinationIP_def
  IPv4HeaderSizeBits_def IPv4FieldIHLValueMinHeaderNoOptions_def IPv4Version_def DefaultTTL_def
  UDPFieldSizeSourcePort_def UDPFieldSizeDestinationPort_def UDPFieldSizeLength_def
  UDPFieldSizeChecksum_def UDPHeaderSizeBits_def

end
