(* ===== verification/Layers.thy ===== *)
theory Layers
  imports Specs
begin

text \<open>
  The packet data that the relay's functions pass around. The struct types are those of the
  \<^verbatim>\<open>gopacket/layers\<close> package, with the fields the relay reads or writes (\<^verbatim>\<open>Secs\<close>, \<^verbatim>\<open>NextServerIP\<close>,
  \<^verbatim>\<open>ServerName\<close> and the derived length and checksum fields are carried by the package and touched by no function of
  the relay). The package's functions are not part of this repository: they are the fields of the
  record \<open>gopacket\<close>, an argument of every definition that calls one of them, and the predicate
  \<open>gopacket_ok\<close> states what the relay relies on.
\<close>

subsection \<open>Addresses\<close>

text \<open>\<^verbatim>\<open>net.IP\<close> and \<^verbatim>\<open>net.HardwareAddr\<close> are byte slices that the source compares with \<^verbatim>\<open>nil\<close>.\<close>

type_synonym ip = "u8 slice"
type_synonym hwaddr = "u8 slice"

record ipnet =
  IP :: ip
  Mask :: bytes

subsection \<open>Layers\<close>

record dhcp_option =
  opt_Type :: u8
  opt_Length :: u8
  opt_Data :: bytes

abbreviation zero_option :: dhcp_option where
  "zero_option \<equiv> \<lparr>opt_Type = 0, opt_Length = 0, opt_Data = []\<rparr>"

record dhcpv4 =
  Operation :: u8
  HardwareType :: u8
  HardwareLen :: u8
  RelayHops :: u8
  Xid :: u32
  Flags :: u16
  ClientIP :: ip
  YourClientIP :: ip
  RelayAgentIP :: ip
  ClientHWAddr :: hwaddr
  File :: bytes
  Options :: "dhcp_option list"
  Contents :: bytes

record ethernet =
  SrcMAC :: hwaddr
  DstMAC :: hwaddr
  EthernetType :: u16

record ipv4 =
  Version :: u8
  IHL :: u8
  Id :: u16
  IPFlags :: u8
  FragOffset :: u16
  TTL :: u8
  Protocol :: u8
  SrcIP :: ip
  DstIP :: ip

record udp =
  SrcPort :: u16
  DstPort :: u16

datatype layer = LEthernet ethernet | LIPv4 ipv4 | LUDP udp | LDHCPv4 dhcpv4

subsection \<open>Constants of the protocols (the names of the \<^verbatim>\<open>layers\<close> package)\<close>

definition DHCPOptPad :: u8 where "DHCPOptPad = 0"
definition DHCPOptMessageType :: u8 where "DHCPOptMessageType = 53"
definition DHCPOptClientID :: u8 where "DHCPOptClientID = 61"
definition DHCPOptEnd :: u8 where "DHCPOptEnd = 255"
definition DHCPOpRequest :: u8 where "DHCPOpRequest = 1"
definition DHCPOpReply :: u8 where "DHCPOpReply = 2"
definition DHCPMsgTypeDiscover :: u8 where "DHCPMsgTypeDiscover = 1"
definition DHCPMsgTypeOffer :: u8 where "DHCPMsgTypeOffer = 2"
definition DHCPMsgTypeRequest :: u8 where "DHCPMsgTypeRequest = 3"
definition DHCPMsgTypeDecline :: u8 where "DHCPMsgTypeDecline = 4"
definition DHCPMsgTypeAck :: u8 where "DHCPMsgTypeAck = 5"
definition DHCPMsgTypeNak :: u8 where "DHCPMsgTypeNak = 6"
definition DHCPMsgTypeRelease :: u8 where "DHCPMsgTypeRelease = 7"
definition DHCPMsgTypeInform :: u8 where "DHCPMsgTypeInform = 8"
definition LinkTypeEthernet :: u8 where "LinkTypeEthernet = 1"
definition IPv4MoreFragments :: u8 where "IPv4MoreFragments = 1"
definition IPv4DontFragment :: u8 where "IPv4DontFragment = 2"
definition IPProtocolUDP :: u8 where "IPProtocolUDP = 17"
definition EthernetTypeIPv4 :: u16 where "EthernetTypeIPv4 = 0x0800"
definition EthernetBroadcast :: hwaddr where "EthernetBroadcast = Some [255, 255, 255, 255, 255, 255]"

lemmas layers_defs =
  DHCPOptPad_def DHCPOptMessageType_def DHCPOptClientID_def DHCPOptEnd_def DHCPOpRequest_def
  DHCPOpReply_def DHCPMsgTypeDiscover_def DHCPMsgTypeOffer_def DHCPMsgTypeRequest_def
  DHCPMsgTypeDecline_def DHCPMsgTypeAck_def DHCPMsgTypeNak_def DHCPMsgTypeRelease_def
  DHCPMsgTypeInform_def LinkTypeEthernet_def IPv4MoreFragments_def IPv4DontFragment_def
  IPProtocolUDP_def EthernetTypeIPv4_def EthernetBroadcast_def

definition known_message_types :: "u8 list" where
  "known_message_types =
     [DHCPMsgTypeDiscover, DHCPMsgTypeOffer, DHCPMsgTypeRequest, DHCPMsgTypeDecline,
      DHCPMsgTypeAck, DHCPMsgTypeNak, DHCPMsgTypeRelease, DHCPMsgTypeInform]"

subsection \<open>The functions of the packet library\<close>

text \<open>
  \<open>SerializeLayers\<close> stands for \<^verbatim>\<open>gopacket.SerializeLayers\<close> with \<^verbatim>\<open>FixLengths\<close> and \<^verbatim>\<open>ComputeChecksums\<close> set, as
  every call of the relay has it; \<open>None\<close> is its error return. \<open>decode_dhcpv4\<close> stands for
  \<^verbatim>\<open>DHCPv4.DecodeFromBytes\<close>. The two \<^verbatim>\<open>VerifyChecksum\<close> methods return the \<^verbatim>\<open>Valid\<close> flag, and
  \<open>bind_udp_checksum\<close> is \<^verbatim>\<open>UDP.SetNetworkLayerForChecksum\<close>, false on its error return.
\<close>

record gopacket =
  NewDHCPOption :: "u8 \<Rightarrow> bytes \<Rightarrow> dhcp_option"
  DHCPMsgType_String :: "u8 \<Rightarrow> string"
  DHCPv4_Len :: "dhcpv4 \<Rightarrow> u16"
  SerializeLayers :: "layer list \<Rightarrow> bytes option"
  decode_dhcpv4 :: "bytes \<Rightarrow> dhcpv4 option"
  IPv4_VerifyChecksum :: "ipv4 \<Rightarrow> bool"
  UDP_VerifyChecksum :: "udp \<Rightarrow> bool"
  bind_udp_checksum :: "udp \<Rightarrow> ipv4 \<Rightarrow> bool"

text \<open>
  What the relay relies on: an option built from a type and data has them and the length of the data,
  and every message type the relay accepts has a non-empty name.
\<close>

definition gopacket_ok :: "gopacket \<Rightarrow> bool" where
  "gopacket_ok gp \<longleftrightarrow>
     (\<forall>t data. NewDHCPOption gp t data =
        \<lparr>opt_Type = t, opt_Length = of_nat (length data), opt_Data = data\<rparr>) \<and>
     list_all (\<lambda>t. DHCPMsgType_String gp t \<noteq> []) known_message_types"

lemma NewDHCPOption_ok:
  "gopacket_ok gp \<Longrightarrow>
   NewDHCPOption gp t data = \<lparr>opt_Type = t, opt_Length = of_nat (length data), opt_Data = data\<rparr>"
  by (simp add: gopacket_ok_def)

lemma DHCPMsgType_String_ne:
  "gopacket_ok gp \<Longrightarrow> t \<in> set known_message_types \<Longrightarrow> DHCPMsgType_String gp t \<noteq> []"
  by (simp add: gopacket_ok_def list_all_iff)

end
