(* ===== verification/Go_Strings.thy ===== *)
theory Go_Strings
  imports Prelude "HOL-Library.Char_ord"
begin

text \<open>
  The parts of Go's standard library that the configuration parsers and the option codecs use on
  text: \<^verbatim>\<open>strings\<close> (\<^verbatim>\<open>HasPrefix\<close>, \<^verbatim>\<open>Split\<close>, \<^verbatim>\<open>Fields\<close>, \<^verbatim>\<open>ToLower\<close>, \<^verbatim>\<open>ToUpper\<close>), \<^verbatim>\<open>strconv\<close> (\<^verbatim>\<open>FormatUint\<close>,
  \<^verbatim>\<open>Atoi\<close>), \<^verbatim>\<open>encoding/hex\<close> and \<^verbatim>\<open>bufio.Scanner\<close> in line mode. A Go string is its list of bytes.
  \<^verbatim>\<open>ToLower\<close>, \<^verbatim>\<open>ToUpper\<close> and the white space test are those of the ASCII range; bytes from 128 up are left
  unchanged and are no white space, which is exact for the ASCII files and MAC strings the relay reads.
\<close>

subsection \<open>\<^verbatim>\<open>strings\<close>\<close>

definition HasPrefix :: "string \<Rightarrow> string \<Rightarrow> bool" where
  "HasPrefix s p \<longleftrightarrow> take (length p) s = p"

definition lower_char :: "char \<Rightarrow> char" where
  "lower_char c = (let n = (of_char c :: nat) in if 65 \<le> n \<and> n \<le> 90 then char_of (n + 32) else c)"

definition upper_char :: "char \<Rightarrow> char" where
  "upper_char c = (let n = (of_char c :: nat) in if 97 \<le> n \<and> n \<le> 122 then char_of (n - 32) else c)"

definition ToLower :: "string \<Rightarrow> string" where
  "ToLower s = map lower_char s"

definition ToUpper :: "string \<Rightarrow> string" where
  "ToUpper s = map upper_char s"

text \<open>\<^verbatim>\<open>strings.Split\<close> with a one byte separator: always at least one piece.\<close>

fun Split :: "string \<Rightarrow> char \<Rightarrow> string list" where
  "Split [] sep = [[]]"
| "Split (c # s) sep =
     (if c = sep then [] # Split s sep
      else (case Split s sep of [] \<Rightarrow> [[c]] | p # ps \<Rightarrow> (c # p) # ps))"

definition is_space :: "char \<Rightarrow> bool" where
  "is_space c \<longleftrightarrow> (let n = (of_char c :: nat) in n = 32 \<or> (9 \<le> n \<and> n \<le> 13))"

text \<open>\<^verbatim>\<open>strings.Fields\<close>: the maximal runs of non-space bytes; \<open>acc\<close> is the run being read, reversed.\<close>

fun fields_from :: "string \<Rightarrow> string \<Rightarrow> string list" where
  "fields_from acc [] = (if acc = [] then [] else [rev acc])"
| "fields_from acc (c # s) =
     (if is_space c then (if acc = [] then fields_from [] s else rev acc # fields_from [] s)
      else fields_from (c # acc) s)"

definition strings_Fields :: "string \<Rightarrow> string list" where
  "strings_Fields s = fields_from [] s"

definition TrimSpace :: "string \<Rightarrow> string" where
  "TrimSpace s = rev (dropWhile is_space (rev (dropWhile is_space s)))"

subsection \<open>\<^verbatim>\<open>strconv\<close>\<close>

definition digit_char :: "nat \<Rightarrow> char" where
  "digit_char d = char_of (48 + d)"

definition digit_val :: "char \<Rightarrow> nat option" where
  "digit_val c = (let n = (of_char c :: nat) in if 48 \<le> n \<and> n \<le> 57 then Some (n - 48) else None)"

fun FormatUint :: "nat \<Rightarrow> string" where
  "FormatUint n = (if n < 10 then [digit_char n] else FormatUint (n div 10) @ [digit_char (n mod 10)])"

declare FormatUint.simps [simp del]

fun dec_value :: "nat \<Rightarrow> string \<Rightarrow> nat option" where
  "dec_value acc [] = Some acc"
| "dec_value acc (c # s) =
     (case digit_val c of None \<Rightarrow> None | Some d \<Rightarrow> dec_value (acc * 10 + d) s)"

text \<open>
  \<^verbatim>\<open>strconv.Atoi\<close> on a 64 bit platform: an optional sign, at least one digit, digits only, and a
  value in the range of \<^verbatim>\<open>int64\<close>. \<open>None\<close> is the error return.
\<close>

definition Atoi :: "string \<Rightarrow> int option" where
  "Atoi s =
     (let neg = (s \<noteq> [] \<and> hd s = CHR ''-'');
          ds = (if s \<noteq> [] \<and> (hd s = CHR ''-'' \<or> hd s = CHR ''+'') then tl s else s)
      in if ds = [] then None
         else case dec_value 0 ds of
                None \<Rightarrow> None
              | Some n \<Rightarrow>
                  (if neg then (if n \<le> 2 ^ 63 then Some (- int n) else None)
                   else (if n < 2 ^ 63 then Some (int n) else None)))"

subsection \<open>\<^verbatim>\<open>encoding/hex\<close>\<close>

definition hex_val :: "char \<Rightarrow> nat option" where
  "hex_val c =
     (let n = (of_char c :: nat) in
      if 48 \<le> n \<and> n \<le> 57 then Some (n - 48)
      else if 97 \<le> n \<and> n \<le> 102 then Some (n - 87)
      else if 65 \<le> n \<and> n \<le> 70 then Some (n - 55)
      else None)"

definition hex_digit :: "nat \<Rightarrow> char" where
  "hex_digit n = char_of (if n < 10 then 48 + n else 87 + n)"

fun hex_DecodeString :: "string \<Rightarrow> bytes option" where
  "hex_DecodeString [] = Some []"
| "hex_DecodeString [c] = None"
| "hex_DecodeString (a # b # s) =
     (case (hex_val a, hex_val b) of
        (Some x, Some y) \<Rightarrow>
          (case hex_DecodeString s of None \<Rightarrow> None | Some bs \<Rightarrow> Some (of_nat (16 * x + y) # bs))
      | _ \<Rightarrow> None)"

definition hex_byte :: "u8 \<Rightarrow> string" where
  "hex_byte b = [hex_digit (unat b div 16), hex_digit (unat b mod 16)]"

subsection \<open>\<^verbatim>\<open>bufio.Scanner\<close>\<close>

text \<open>
  The lines a \<^verbatim>\<open>bufio.Scanner\<close> delivers: split at newlines, a trailing carriage return dropped, no
  line after a final newline. A line that fills the 65536 byte buffer without a newline stops the scan
  with \<^verbatim>\<open>ErrTooLong\<close>, which is the flag of the result.
\<close>

definition MaxScanTokenSize :: nat where
  "MaxScanTokenSize = 65536"

definition drop_cr :: "string \<Rightarrow> string" where
  "drop_cr s = (if s \<noteq> [] \<and> last s = CHR 0x0D then butlast s else s)"

fun scan_lines :: "string list \<Rightarrow> string list \<times> bool" where
  "scan_lines [] = ([], False)"
| "scan_lines (l # ls) =
     (if MaxScanTokenSize \<le> length l then ([], True)
      else if ls = [] then ((if l = [] then [] else [drop_cr l]), False)
      else (let (rest, long) = scan_lines ls in (drop_cr l # rest, long)))"

definition Scan :: "string \<Rightarrow> string list \<times> bool" where
  "Scan contents = scan_lines (Split contents (CHR 0x0A))"

subsection \<open>Lemmas\<close>

lemma Split_ne [simp]: "Split s sep \<noteq> []"
  by (induction s) (auto split: list.splits)

lemma digit_val_digit_char [simp]: "d < 10 \<Longrightarrow> digit_val (digit_char d) = Some d"
  by (simp add: digit_val_def digit_char_def Let_def)

lemma dec_value_append:
  "dec_value acc (s @ t) = (case dec_value acc s of None \<Rightarrow> None | Some n \<Rightarrow> dec_value n t)"
  by (induction s arbitrary: acc) (auto split: option.splits)

lemma dec_value_FormatUint: "dec_value 0 (FormatUint n) = Some n"
proof (induction n rule: FormatUint.induct)
  case (1 n)
  show ?case
  proof (cases "n < 10")
    case True
    then show ?thesis by (simp add: FormatUint.simps [of n])
  next
    case False
    with "1.IH" show ?thesis
      by (simp add: FormatUint.simps [of n] dec_value_append)
  qed
qed

lemma FormatUint_digits: "c \<in> set (FormatUint n) \<Longrightarrow> \<exists>d < 10. c = digit_char d"
proof (induction n rule: FormatUint.induct)
  case (1 n)
  show ?case
  proof (cases "n < 10")
    case True
    with "1.prems" show ?thesis by (auto simp: FormatUint.simps [of n])
  next
    case False
    then have "c \<in> set (FormatUint (n div 10)) \<or> c = digit_char (n mod 10)"
      using "1.prems" by (auto simp: FormatUint.simps [of n])
    then show ?thesis
    proof
      assume "c \<in> set (FormatUint (n div 10))"
      with False "1.IH" show ?thesis by blast
    next
      assume "c = digit_char (n mod 10)"
      then show ?thesis by (intro exI [of _ "n mod 10"]) simp
    qed
  qed
qed

lemma FormatUint_ne [simp]: "FormatUint n \<noteq> []"
  by (subst FormatUint.simps) simp

lemma digit_char_sign: "d < 10 \<Longrightarrow> digit_char d \<noteq> CHR ''-'' \<and> digit_char d \<noteq> CHR ''+''"
proof -
  assume d: "d < 10"
  have "(of_char (digit_char d) :: nat) = 48 + d"
    using d by (simp add: digit_char_def)
  then show ?thesis by auto
qed

lemma Atoi_FormatUint:
  assumes "n < 2 ^ 63"
  shows "Atoi (FormatUint n) = Some (int n)"
proof -
  have "hd (FormatUint n) \<in> set (FormatUint n)" by simp
  then have "hd (FormatUint n) \<noteq> CHR ''-'' \<and> hd (FormatUint n) \<noteq> CHR ''+''"
    using FormatUint_digits digit_char_sign by metis
  then show ?thesis
    using assms by (simp add: Atoi_def dec_value_FormatUint Let_def)
qed

lemma length_FormatUint: "n < 10 ^ k \<Longrightarrow> 0 < k \<Longrightarrow> length (FormatUint n) \<le> k"
proof (induction k arbitrary: n)
  case 0
  then show ?case by simp
next
  case (Suc k)
  show ?case
  proof (cases "n < 10")
    case True
    then show ?thesis by (simp add: FormatUint.simps [of n])
  next
    case False
    with Suc.prems(1) have "0 < k" by (cases k) simp_all
    moreover have "n div 10 < 10 ^ k"
      using Suc.prems(1) by (simp add: less_mult_imp_div_less mult.commute)
    ultimately have "length (FormatUint (n div 10)) \<le> k" using Suc.IH by blast
    with False show ?thesis by (simp add: FormatUint.simps [of n])
  qed
qed

lemma hex_val_hex_digit [simp]: "n < 16 \<Longrightarrow> hex_val (hex_digit n) = Some n"
  by (auto simp: hex_val_def hex_digit_def Let_def)

lemma hex_DecodeString_hex_bytes: "hex_DecodeString (concat (map hex_byte bs)) = Some bs"
proof (induction bs)
  case Nil
  then show ?case by simp
next
  case (Cons b bs)
  have "unat b < 256" by (rule unat_u8_less)
  then have "unat b div 16 < 16" "unat b mod 16 < 16" by auto
  with Cons.IH show ?case by (simp add: hex_byte_def)
qed

lemma length_hex_DecodeString: "hex_DecodeString s = Some bs \<Longrightarrow> length s = 2 * length bs"
  by (induction s arbitrary: bs rule: hex_DecodeString.induct) (auto split: option.splits)

lemma lower_char_idem [simp]: "lower_char (lower_char c) = lower_char c"
  by (auto simp: lower_char_def Let_def)

lemma ToLower_idem [simp]: "ToLower (ToLower s) = ToLower s"
  by (simp add: ToLower_def)

end
