(* ===== verification/Go_Net.thy ===== *)
theory Go_Net
  imports Layers Go_Strings
begin

text \<open>
  The parts of Go's \<^verbatim>\<open>net\<close> and \<^verbatim>\<open>net/netip\<close> packages that the relay uses: the \<^verbatim>\<open>net.IP\<close> predicates, \<^verbatim>\<open>IPNet.Contains\<close>,
  \<^verbatim>\<open>ParseMAC\<close>, \<^verbatim>\<open>ParseIP\<close> and \<^verbatim>\<open>ParseCIDR\<close> with the address parsers below them, and the printers of
  hardware and IPv4 addresses.
\<close>

subsection \<open>\<^verbatim>\<open>net.IP\<close>\<close>

definition v4InV6Prefix :: bytes where
  "v4InV6Prefix = [0, 0, 0, 0, 0, 0, 0, 0, 0, 0, 0xff, 0xff]"

definition To4 :: "ip \<Rightarrow> ip" where
  "To4 a =
     (let b = elems a in
      if length b = 4 then Some b
      else if length b = 16 \<and> take 12 b = v4InV6Prefix then Some (drop 12 b)
      else None)"

definition IP_Equal :: "ip \<Rightarrow> ip \<Rightarrow> bool" where
  "IP_Equal a x =
     (let p = elems a; q = elems x in
      if length p = length q then p = q
      else if length p = 4 \<and> length q = 16 then take 12 q = v4InV6Prefix \<and> p = drop 12 q
      else if length p = 16 \<and> length q = 4 then take 12 p = v4InV6Prefix \<and> drop 12 p = q
      else False)"

definition IPv4 :: "u8 \<Rightarrow> u8 \<Rightarrow> u8 \<Rightarrow> u8 \<Rightarrow> ip" where
  "IPv4 a b c d = Some (v4InV6Prefix @ [a, b, c, d])"

definition IPv4zero :: ip where "IPv4zero = IPv4 0 0 0 0"
definition IPv4bcast :: ip where "IPv4bcast = IPv4 255 255 255 255"
definition IPv6unspecified :: ip where "IPv6unspecified = Some [0, 0, 0, 0, 0, 0, 0, 0, 0, 0, 0, 0, 0, 0, 0, 0]"
definition IPv6loopback :: ip where "IPv6loopback = Some [0, 0, 0, 0, 0, 0, 0, 0, 0, 0, 0, 0, 0, 0, 0, 1]"

definition IsUnspecified :: "ip \<Rightarrow> bool" where
  "IsUnspecified a \<longleftrightarrow> IP_Equal a IPv4zero \<or> IP_Equal a IPv6unspecified"

definition IsLoopback :: "ip \<Rightarrow> bool" where
  "IsLoopback a = (case To4 a of Some b \<Rightarrow> b ! 0 = 127 | None \<Rightarrow> IP_Equal a IPv6loopback)"

definition IsMulticast :: "ip \<Rightarrow> bool" where
  "IsMulticast a =
     (case To4 a of Some b \<Rightarrow> b ! 0 AND 0xf0 = 0xe0
      | None \<Rightarrow> length (elems a) = 16 \<and> elems a ! 0 = 0xff)"

definition IsLinkLocalMulticast :: "ip \<Rightarrow> bool" where
  "IsLinkLocalMulticast a =
     (case To4 a of Some b \<Rightarrow> b ! 0 = 224 \<and> b ! 1 = 0 \<and> b ! 2 = 0
      | None \<Rightarrow> length (elems a) = 16 \<and> elems a ! 0 = 0xff \<and> elems a ! 1 AND 0x0f = 0x02)"

definition IsLinkLocalUnicast :: "ip \<Rightarrow> bool" where
  "IsLinkLocalUnicast a =
     (case To4 a of Some b \<Rightarrow> b ! 0 = 169 \<and> b ! 1 = 254
      | None \<Rightarrow> length (elems a) = 16 \<and> elems a ! 0 = 0xfe \<and> elems a ! 1 AND 0xc0 = 0x80)"

definition IsGlobalUnicast :: "ip \<Rightarrow> bool" where
  "IsGlobalUnicast a \<longleftrightarrow>
     (length (elems a) = 4 \<or> length (elems a) = 16) \<and>
     \<not> IP_Equal a IPv4bcast \<and> \<not> IsUnspecified a \<and> \<not> IsLoopback a \<and>
     \<not> IsMulticast a \<and> \<not> IsLinkLocalUnicast a"

lemmas ip_defs = v4InV6Prefix_def To4_def IP_Equal_def IPv4_def IPv4zero_def IPv4bcast_def
  IPv6unspecified_def IPv6loopback_def IsUnspecified_def IsLoopback_def IsMulticast_def
  IsLinkLocalMulticast_def IsLinkLocalUnicast_def IsGlobalUnicast_def

subsection \<open>\<^verbatim>\<open>net.IPNet\<close>\<close>

text \<open>\<^verbatim>\<open>networkNumberAndMask\<close>: the address and the mask in the same width, empty when they do not fit.\<close>

definition networkNumberAndMask :: "ipnet \<Rightarrow> bytes \<times> bytes" where
  "networkNumberAndMask n =
     (let i = (case To4 (IP n) of Some b \<Rightarrow> b | None \<Rightarrow> (if length (elems (IP n)) = 16 then elems (IP n) else [])) in
      if i = [] then ([], [])
      else if length (Mask n) = 4 then (if length i \<noteq> 4 then ([], []) else (i, Mask n))
      else if length (Mask n) = 16 then (i, if length i = 4 then drop 12 (Mask n) else Mask n)
      else ([], []))"

definition Contains :: "ipnet \<Rightarrow> ip \<Rightarrow> bool" where
  "Contains n a =
     (let (nn, m) = networkNumberAndMask n;
          b = (case To4 a of Some b4 \<Rightarrow> b4 | None \<Rightarrow> elems a)
      in length b = length nn \<and> map2 (AND) nn m = map2 (AND) b m)"

definition CIDRMask :: "nat \<Rightarrow> nat \<Rightarrow> bytes" where
  "CIDRMask ones bits =
     map (\<lambda>i. if 8 * i + 8 \<le> ones then 0xff
              else if ones \<le> 8 * i then 0
              else NOT (mask (8 - (ones - 8 * i)))) [0..<bits div 8]"

definition IP_Mask :: "bytes \<Rightarrow> bytes \<Rightarrow> ip" where
  "IP_Mask a m =
     (let m' = (if length m = 16 \<and> length a = 4 \<and> list_all (\<lambda>b. b = 0xff) (take 12 m) then drop 12 m else m);
          a' = (if length m' = 4 \<and> length a = 16 \<and> take 12 a = v4InV6Prefix then drop 12 a else a)
      in if length a' \<noteq> length m' then None else Some (map2 (AND) a' m'))"

subsection \<open>Parsing hardware addresses\<close>

text \<open>\<^verbatim>\<open>xtoi2\<close>: two hex digits, and when more text follows, the separator \<open>e\<close>.\<close>

definition xtoi2 :: "string \<Rightarrow> char \<Rightarrow> u8 option" where
  "xtoi2 s e =
     (if length s > 2 \<and> s ! 2 \<noteq> e then None
      else if length s < 2 then None
      else case (hex_val (s ! 0), hex_val (s ! 1)) of
             (Some x, Some y) \<Rightarrow> Some (of_nat (16 * x + y))
           | _ \<Rightarrow> None)"

fun mac_groups :: "nat \<Rightarrow> string \<Rightarrow> char \<Rightarrow> bytes option" where
  "mac_groups 0 s e = Some []"
| "mac_groups (Suc n) s e =
     (case xtoi2 s e of None \<Rightarrow> None
      | Some b \<Rightarrow> (case mac_groups n (drop 3 s) e of None \<Rightarrow> None | Some bs \<Rightarrow> Some (b # bs)))"

fun mac_dotted :: "nat \<Rightarrow> string \<Rightarrow> bytes option" where
  "mac_dotted 0 s = Some []"
| "mac_dotted (Suc n) s =
     (case (xtoi2 (take 2 s) (char_of (0::nat)), xtoi2 (drop 2 s) (CHR ''.'')) of
        (Some a, Some b) \<Rightarrow> (case mac_dotted n (drop 5 s) of None \<Rightarrow> None | Some bs \<Rightarrow> Some (a # b # bs))
      | _ \<Rightarrow> None)"

definition ParseMAC :: "string \<Rightarrow> bytes option" where
  "ParseMAC s =
     (if length s < 14 then None
      else if s ! 2 = CHR '':'' \<or> s ! 2 = CHR ''-'' then
        (if (length s + 1) mod 3 \<noteq> 0 then None
         else (let n = (length s + 1) div 3 in
               if n \<noteq> 6 \<and> n \<noteq> 8 \<and> n \<noteq> 20 then None else mac_groups n s (s ! 2)))
      else if s ! 4 = CHR ''.'' then
        (if (length s + 1) mod 5 \<noteq> 0 then None
         else (let n = 2 * (length s + 1) div 5 in
               if n \<noteq> 6 \<and> n \<noteq> 8 \<and> n \<noteq> 20 then None else mac_dotted (n div 2) s))
      else None)"

fun join_colon :: "string list \<Rightarrow> string" where
  "join_colon [] = []"
| "join_colon [x] = x"
| "join_colon (x # xs) = x @ CHR '':'' # join_colon xs"

definition HardwareAddr_String :: "hwaddr \<Rightarrow> string" where
  "HardwareAddr_String hw = join_colon (map hex_byte (elems hw))"

subsection \<open>Parsing IP addresses\<close>

text \<open>
  \<^verbatim>\<open>netip.parseIPv4Fields\<close>. \<open>prev\<close> is the byte before the current one and \<open>octets\<close> the octets already
  closed by a dot.
\<close>

fun ipv4_fields :: "char option \<Rightarrow> nat \<Rightarrow> nat \<Rightarrow> bytes \<Rightarrow> string \<Rightarrow> bytes option" where
  "ipv4_fields prev val digLen octets [] =
     (if length octets < 3 then None else Some (octets @ [of_nat val]))"
| "ipv4_fields prev val digLen octets (c # s) =
     (case digit_val c of
        Some d \<Rightarrow>
          (if digLen = 1 \<and> val = 0 then None
           else if val * 10 + d > 255 then None
           else ipv4_fields (Some c) (val * 10 + d) (digLen + 1) octets s)
      | None \<Rightarrow>
          (if c = CHR ''.'' then
             (if prev = None \<or> s = [] \<or> prev = Some (CHR ''.'') then None
              else if length octets = 3 then None
              else ipv4_fields (Some c) 0 0 (octets @ [of_nat val]) s)
           else None))"

definition parseIPv4 :: "string \<Rightarrow> bytes option" where
  "parseIPv4 s = ipv4_fields None 0 0 [] s"

fun hex_value :: "nat \<Rightarrow> string \<Rightarrow> nat" where
  "hex_value acc [] = acc"
| "hex_value acc (c # s) = (case hex_val c of Some x \<Rightarrow> hex_value (16 * acc + x) s | None \<Rightarrow> acc)"

text \<open>
  The loop of \<^verbatim>\<open>netip.parseIPv6\<close> on an address without zone: \<open>out\<close> holds the bytes parsed so far and
  \<open>ell\<close> the position of the ellipsis. The result is the bytes, the ellipsis, and what is left of the string.
\<close>

function ipv6_groups :: "bytes \<Rightarrow> nat option \<Rightarrow> string \<Rightarrow> (bytes \<times> nat option \<times> string) option" where
  "ipv6_groups out ell s =
     (if 16 \<le> length out then Some (out, ell, s)
      else
        (let digits = takeWhile (\<lambda>c. hex_val c \<noteq> None) s;
             acc = hex_value 0 digits;
             rest = drop (length digits) s
         in
         if length digits > 4 \<or> digits = [] then None
         else if rest \<noteq> [] \<and> hd rest = CHR ''.'' then
           (if ell = None \<and> length out \<noteq> 12 then None
            else if length out + 4 > 16 then None
            else (case parseIPv4 s of None \<Rightarrow> None | Some v4 \<Rightarrow> Some (out @ v4, ell, [])))
         else
           (let out' = out @ [of_nat (acc div 256), of_nat (acc mod 256)] in
            if rest = [] then Some (out', ell, [])
            else if hd rest \<noteq> CHR '':'' \<or> tl rest = [] then None
            else if hd (tl rest) = CHR '':'' then
              (if ell \<noteq> None then None
               else if tl (tl rest) = [] then Some (out', Some (length out'), [])
               else ipv6_groups out' (Some (length out')) (tl (tl rest)))
            else ipv6_groups out' ell (tl rest))))"
  by pat_completeness auto
termination
  by (relation "measure (\<lambda>(out, ell, s). 16 - length out)") auto

declare ipv6_groups.simps [simp del]

definition ipv6_finish :: "bytes \<times> nat option \<times> string \<Rightarrow> bytes option" where
  "ipv6_finish r =
     (case r of (out, ell, s) \<Rightarrow>
        (if s \<noteq> [] then None
         else if length out < 16 then
           (case ell of None \<Rightarrow> None
            | Some e \<Rightarrow> Some (take e out @ replicate (16 - length out) 0 @ drop e out))
         else if ell \<noteq> None then None
         else Some out))"

definition parseIPv6 :: "string \<Rightarrow> bytes option" where
  "parseIPv6 s =
     (if length s \<ge> 2 \<and> take 2 s = ''::'' then
        (if length s = 2 then Some (replicate 16 0)
         else (case ipv6_groups [] (Some 0) (drop 2 s) of None \<Rightarrow> None | Some r \<Rightarrow> ipv6_finish r))
      else (case ipv6_groups [] None s of None \<Rightarrow> None | Some r \<Rightarrow> ipv6_finish r))"

text \<open>
  \<^verbatim>\<open>netip.ParseAddr\<close> followed by the callers' rejection of a zone: the first of the bytes \<^verbatim>\<open>.\<close>, \<^verbatim>\<open>:\<close> and \<^verbatim>\<open>%\<close>
  decides the syntax, and an address with a \<^verbatim>\<open>%\<close> is refused by every caller.
\<close>

definition ParseAddr :: "string \<Rightarrow> bytes option" where
  "ParseAddr s =
     (case find (\<lambda>c. c = CHR ''.'' \<or> c = CHR '':'' \<or> c = CHR ''%'') s of
        None \<Rightarrow> None
      | Some c \<Rightarrow>
          (if c = CHR ''.'' then parseIPv4 s
           else if c = CHR '':'' then (if CHR ''%'' \<in> set s then None else parseIPv6 s)
           else None))"

definition As16 :: "bytes \<Rightarrow> bytes" where
  "As16 b = (if length b = 4 then v4InV6Prefix @ b else b)"

definition ParseIP :: "string \<Rightarrow> ip" where
  "ParseIP s = map_option As16 (ParseAddr s)"

text \<open>\<^verbatim>\<open>net.ParseCIDR\<close>; the network is the result the relay uses, \<open>None\<close> the parse error.\<close>

definition ParseCIDR :: "string \<Rightarrow> ipnet option" where
  "ParseCIDR s =
     (let addr = takeWhile (\<lambda>c. c \<noteq> CHR ''/'') s;
          rest = dropWhile (\<lambda>c. c \<noteq> CHR ''/'') s
      in if rest = [] then None
         else (case ParseAddr addr of None \<Rightarrow> None
               | Some b \<Rightarrow>
                   (if tl rest = [] then None
                    else (case dec_value 0 (tl rest) of None \<Rightarrow> None
                          | Some n \<Rightarrow>
                              (if n > 8 * length b then None
                               else (let m = CIDRMask n (8 * length b)
                                     in Some \<lparr>IP = IP_Mask (As16 b) m, Mask = m\<rparr>))))))"

subsection \<open>Printing addresses\<close>

fun join_dot :: "string list \<Rightarrow> string" where
  "join_dot [] = []"
| "join_dot [x] = x"
| "join_dot (x # xs) = x @ CHR ''.'' # join_dot xs"

definition IPv4_String :: "bytes \<Rightarrow> string" where
  "IPv4_String b = join_dot (map (\<lambda>x. FormatUint (unat x)) b)"

definition JoinHostPort :: "string \<Rightarrow> string \<Rightarrow> string" where
  "JoinHostPort host port =
     (if CHR '':'' \<in> set host \<or> CHR ''%'' \<in> set host then CHR ''['' # host @ '']:'' @ port
      else host @ CHR '':'' # port)"

subsection \<open>Lemmas\<close>

lemma To4_length: "To4 a = Some b \<Longrightarrow> length b = 4"
  by (auto simp: To4_def Let_def split: if_splits)

lemma To4_four [simp]: "length b = 4 \<Longrightarrow> To4 (Some b) = Some b"
  by (simp add: To4_def)

lemma To4_idem: "To4 (To4 a) = To4 a"
  using To4_length [of a] by (cases "To4 a") (simp_all add: To4_def [of None])

lemma To4_None [simp]: "To4 None = None"
  by (simp add: To4_def)

text \<open>On IPv4 addresses \<^verbatim>\<open>Equal\<close> is equality of the four byte forms.\<close>

lemma IP_Equal_To4:
  assumes "To4 a = Some p" and "To4 b = Some q"
  shows "IP_Equal a b \<longleftrightarrow> p = q"
proof -
  have eq: "take 12 xs = v4InV6Prefix \<Longrightarrow> take 12 ys = v4InV6Prefix \<Longrightarrow> drop 12 xs = drop 12 ys \<Longrightarrow> xs = ys"
    for xs ys :: bytes
    by (metis append_take_drop_id)
  show ?thesis
    using assms eq by (auto simp: To4_def IP_Equal_def Let_def split: if_splits)
qed

lemma IP_Equal_four:
  "length p = 4 \<Longrightarrow> length q = 4 \<Longrightarrow> IP_Equal (Some p) (Some q) \<longleftrightarrow> p = q"
  by (simp add: IP_Equal_def)

lemma list4_cases:
  assumes "length xs = 4"
  obtains a b c d where "xs = [a, b, c, d]"
  using assms by (auto simp: numeral_eq_Suc length_Suc_conv)

text \<open>The global unicast test on a four byte address, spelled out.\<close>

lemma IsGlobalUnicast_four [net_simps]:
  "IsGlobalUnicast (Some [a, b, c, d]) \<longleftrightarrow>
     [a, b, c, d] \<noteq> [255, 255, 255, 255] \<and> [a, b, c, d] \<noteq> [0, 0, 0, 0] \<and> a \<noteq> 127 \<and>
     a AND 0xf0 \<noteq> 0xe0 \<and> \<not> (a = 169 \<and> b = 254)"
  by (auto simp: ip_defs)

lemma length_CIDRMask [simp]: "length (CIDRMask n bits) = bits div 8"
  by (simp add: CIDRMask_def)

subsubsection \<open>A printed hardware address parses back\<close>

lemma xtoi2_hex_byte:
  assumes "rest = [] \<or> hd rest = e"
  shows "xtoi2 (hex_byte b @ rest) e = Some b"
proof -
  have "unat b div 16 < 16" "unat b mod 16 < 16" using unat_u8_less [of b] by auto
  then show ?thesis using assms by (cases rest) (auto simp: xtoi2_def hex_byte_def)
qed

lemma mac_groups_join:
  "bs \<noteq> [] \<Longrightarrow> mac_groups (length bs) (join_colon (map hex_byte bs)) (CHR '':'') = Some bs"
proof (induction bs)
  case Nil
  then show ?case by simp
next
  case (Cons b bs)
  show ?case
  proof (cases bs)
    case Nil
    then show ?thesis using xtoi2_hex_byte [of "[]" _ b] by simp
  next
    case (Cons c cs)
    let ?J = "join_colon (map hex_byte bs)"
    have join: "join_colon (map hex_byte (b # bs)) = hex_byte b @ CHR '':'' # ?J"
      using Cons by simp
    have x: "xtoi2 (hex_byte b @ CHR '':'' # ?J) (CHR '':'') = Some b"
      by (rule xtoi2_hex_byte) simp
    have d: "drop 3 (hex_byte b @ CHR '':'' # ?J) = ?J" by (simp add: hex_byte_def)
    have ih: "mac_groups (length bs) ?J (CHR '':'') = Some bs"
      using Cons.IH Cons by simp
    show ?thesis
      by (simp only: join length_Cons mac_groups.simps x d ih option.case)
  qed
qed

lemma length_join_colon: "bs \<noteq> [] \<Longrightarrow> length (join_colon (map hex_byte bs)) + 1 = 3 * length bs"
proof (induction bs)
  case (Cons b bs)
  then show ?case by (cases bs) (simp_all add: hex_byte_def)
qed simp

lemma ParseMAC_String:
  assumes "length bs = 6 \<or> length bs = 8 \<or> length bs = 20"
  shows "ParseMAC (HardwareAddr_String (Some bs)) = Some bs"
proof -
  let ?s = "join_colon (map hex_byte bs)"
  obtain a b cs where bs: "bs = a # b # cs"
    using assms by (cases bs; cases "tl bs") auto
  have len: "length ?s + 1 = 3 * length bs" by (rule length_join_colon) (simp add: bs)
  have sep: "?s ! 2 = CHR '':''" by (simp add: bs hex_byte_def)
  have n: "(length ?s + 1) mod 3 = 0" "(length ?s + 1) div 3 = length bs" unfolding len by simp_all
  have "\<not> length ?s < 14" using len assms by linarith
  moreover have "mac_groups (length bs) ?s (CHR '':'') = Some bs"
    by (rule mac_groups_join) (simp add: bs)
  ultimately show ?thesis
    unfolding ParseMAC_def HardwareAddr_String_def elems_simps Let_def sep n using assms by auto
qed

subsection \<open>Printed IPv4 addresses parse\<close>

lemma FormatUint_octet:
  assumes "n < 1000"
  shows "FormatUint n =
    (if n < 10 then [digit_char n]
     else if n < 100 then [digit_char (n div 10), digit_char (n mod 10)]
     else [digit_char (n div 100), digit_char (n div 10 mod 10), digit_char (n mod 10)])"
proof -
  have "n div 10 div 10 = n div 100" "n div 10 < 10 \<longleftrightarrow> n < 100" by (simp add: div_mult2_eq [symmetric], arith)
  with assms show ?thesis
    by (simp add: FormatUint.simps [of n] FormatUint.simps [of "n div 10"] FormatUint.simps [of "n div 100"] less_mult_imp_div_less)
qed

lemma FormatUint_digit_val: "c \<in> set (FormatUint n) \<Longrightarrow> digit_val c \<noteq> None"
  using FormatUint_digits by fastforce

lemma digit_val_punct [simp]:
  "digit_val (CHR ''.'') = None" "digit_val (CHR '':'') = None" "digit_val (CHR ''%'') = None"
  "digit_val (CHR ''/'') = None"
  by (simp_all add: digit_val_def)

lemma ipv4_fields_octet:
  assumes "n < 256"
  obtains c k where "digit_val c \<noteq> None"
    "\<And>s. ipv4_fields prev 0 0 octets (FormatUint n @ s) = ipv4_fields (Some c) n k octets s"
proof -
  consider "n < 10" | "10 \<le> n" "n < 100" | "100 \<le> n" by linarith
  then show ?thesis
  proof cases
    case 1
    with assms show ?thesis
      by (intro that [of "digit_char n" "Suc 0"]) (simp_all add: FormatUint_octet)
  next
    case 2
    then have "n div 10 < 10" "0 < n div 10" by auto
    with 2 assms show ?thesis
      by (intro that [of "digit_char (n mod 10)" "Suc (Suc 0)"]) (simp_all add: FormatUint_octet)
  next
    case 3
    define a b c where "a = n div 100" and "b = n div 10 mod 10" and "c = n mod 10"
    have "n div 100 = n div 10 div 10" by (simp add: div_mult2_eq [symmetric])
    then have "a * 10 + b = n div 10" by (simp add: a_def b_def)
    moreover have "a < 10" "b < 10" "c < 10" "0 < a" using 3 assms by (auto simp: a_def b_def c_def)
    ultimately have digits: "a < 10" "b < 10" "c < 10" "0 < a" "a * 10 + b = n div 10" by blast+
    have "(a * 10 + b) * 10 + c = n" "a * 10 + b \<le> 25" using digits(5) assms by (simp_all add: c_def)
    with digits 3 assms show ?thesis
      by (intro that [of "digit_char c" "Suc (Suc (Suc 0))"]) (simp_all add: FormatUint_octet a_def [symmetric] b_def [symmetric] c_def [symmetric])
  qed
qed

lemma parseIPv4_String:
  assumes "length b = 4"
  shows "parseIPv4 (IPv4_String b) = Some b"
proof -
  obtain b0 b1 b2 b3 where b: "b = [b0, b1, b2, b3]" using assms by (rule list4_cases)
  have lt: "unat x < 256" for x :: u8 by (rule unat_u8_less)
  have step: "ipv4_fields prev 0 0 os (FormatUint (unat x) @ CHR ''.'' # s) = ipv4_fields (Some (CHR ''.'')) 0 0 (os @ [x]) s"
    if "length os < 3" "s \<noteq> []" for prev os s and x :: u8
  proof (rule ipv4_fields_octet [OF lt [of x], of prev os])
    fix c k
    assume c: "digit_val c \<noteq> None"
      and eq: "\<And>s. ipv4_fields prev 0 0 os (FormatUint (unat x) @ s) = ipv4_fields (Some c) (unat x) k os s"
    from c have "c \<noteq> CHR ''.''" by auto
    with that show ?thesis by (simp add: eq)
  qed
  have fin: "ipv4_fields prev 0 0 os (FormatUint (unat x)) = Some (os @ [x])" if "length os = 3" for prev os and x :: u8
  proof (rule ipv4_fields_octet [OF lt [of x], of prev os])
    fix c k
    assume eq: "\<And>s. ipv4_fields prev 0 0 os (FormatUint (unat x) @ s) = ipv4_fields (Some c) (unat x) k os s"
    from eq [of "[]"] that show ?thesis by simp
  qed
  show ?thesis by (simp add: b parseIPv4_def IPv4_String_def step fin)
qed

lemma ParseAddr_String:
  assumes "length b = 4"
  shows "ParseAddr (IPv4_String b) = Some b"
proof -
  obtain b0 b1 b2 b3 where b: "b = [b0, b1, b2, b3]" using assms by (rule list4_cases)
  have "find (\<lambda>c. c = CHR ''.'' \<or> c = CHR '':'' \<or> c = CHR ''%'') (FormatUint n) = None" for n
    by (auto simp: find_None_iff dest: FormatUint_digit_val)
  then have "find (\<lambda>c. c = CHR ''.'' \<or> c = CHR '':'' \<or> c = CHR ''%'') (IPv4_String b) = Some (CHR ''.'')"
    by (simp add: b IPv4_String_def find_append)
  then show ?thesis using parseIPv4_String [OF assms] by (simp add: ParseAddr_def)
qed

lemma IPv4_String_chars: "length b = 4 \<Longrightarrow> CHR ''/'' \<notin> set (IPv4_String b)"
  by (erule list4_cases) (auto simp: IPv4_String_def dest: FormatUint_digit_val)

lemma ParseCIDR_String:
  assumes "length b = 4" "n \<le> 32"
  shows "ParseCIDR (IPv4_String b @ CHR ''/'' # FormatUint n) =
         Some \<lparr>IP = Some (map2 (AND) b (CIDRMask n 32)), Mask = CIDRMask n 32\<rparr>"
proof -
  have "takeWhile (\<lambda>c. c \<noteq> CHR ''/'') (IPv4_String b @ CHR ''/'' # FormatUint n) = IPv4_String b"
    "dropWhile (\<lambda>c. c \<noteq> CHR ''/'') (IPv4_String b @ CHR ''/'' # FormatUint n) = CHR ''/'' # FormatUint n"
    using IPv4_String_chars [OF assms(1)] by (subst takeWhile_append2 dropWhile_append2; auto)+
  then show ?thesis
    using assms
    by (simp add: ParseCIDR_def ParseAddr_String dec_value_FormatUint IP_Mask_def As16_def v4InV6Prefix_def Let_def)
qed

end
