(* ===== verification/Unix_Types.thy ===== *)
theory Unix_Types
  imports Go_Net
begin

text \<open>
  The types and constants of \<^verbatim>\<open>golang.org/x/sys/unix\<close> (Linux) that the relay names, and the kernel as the socket wrapper
  sees it: the answer of every system call is a field of \<open>kernel\<close>, where an \<open>errno\<close> is an error return. The calls that
  the wrapper repeats take the number of the attempt.
\<close>

datatype errno = EAGAIN | ENOPROTOOPT | Errno nat

definition AF_PACKET :: nat where "AF_PACKET = 17"
definition SOCK_RAW :: nat where "SOCK_RAW = 3"
definition SOCK_NONBLOCK :: nat where "SOCK_NONBLOCK = 0x800"
definition SOCK_CLOEXEC :: nat where "SOCK_CLOEXEC = 0x80000"
definition SOL_SOCKET :: nat where "SOL_SOCKET = 1"
definition SO_REUSEADDR :: nat where "SO_REUSEADDR = 2"
definition SO_REUSEPORT :: nat where "SO_REUSEPORT = 15"
definition SO_ATTACH_FILTER :: nat where "SO_ATTACH_FILTER = 26"
definition SOL_PACKET :: nat where "SOL_PACKET = 263"
definition PACKET_IGNORE_OUTGOING :: nat where "PACKET_IGNORE_OUTGOING = 23"
definition ETH_P_ALL :: u16 where "ETH_P_ALL = 3"
definition ETH_P_IP :: u16 where "ETH_P_IP = 0x0800"
definition IPPROTO_UDP :: u8 where "IPPROTO_UDP = 17"

text \<open>\<^verbatim>\<open>SockaddrLinklayer\<close>; its \<^verbatim>\<open>Addr\<close> is an array of eight bytes.\<close>

record SockaddrLinklayer =
  ll_Protocol :: u16
  ll_Ifindex :: int
  ll_Halen :: u8
  ll_Addr :: bytes

text \<open>\<^verbatim>\<open>unix.Sockaddr\<close> by dynamic type.\<close>

datatype Sockaddr = Linklayer SockaddrLinklayer | OtherSockaddr

text \<open>\<^verbatim>\<open>SockFilter\<close>, an instruction of classic BPF, and \<^verbatim>\<open>SockFprog\<close> with the list its pointer starts.\<close>

record SockFilter =
  bpf_Code :: u16
  bpf_Jt :: u8
  bpf_Jf :: u8
  bpf_K :: u32

record SockFprog =
  fprog_Len :: u16
  fprog_Filter :: "SockFilter list"

definition BPF_LD :: u16 where "BPF_LD = 0"
definition BPF_LDX :: u16 where "BPF_LDX = 1"
definition BPF_ALU :: u16 where "BPF_ALU = 4"
definition BPF_JMP :: u16 where "BPF_JMP = 5"
definition BPF_RET :: u16 where "BPF_RET = 6"
definition BPF_W :: u16 where "BPF_W = 0"
definition BPF_H :: u16 where "BPF_H = 8"
definition BPF_B :: u16 where "BPF_B = 0x10"
definition BPF_ABS :: u16 where "BPF_ABS = 0x20"
definition BPF_IND :: u16 where "BPF_IND = 0x40"
definition BPF_LEN :: u16 where "BPF_LEN = 0x80"
definition BPF_MSH :: u16 where "BPF_MSH = 0xa0"
definition BPF_AND :: u16 where "BPF_AND = 0x50"
definition BPF_JEQ :: u16 where "BPF_JEQ = 0x10"
definition BPF_JGT :: u16 where "BPF_JGT = 0x20"
definition BPF_JGE :: u16 where "BPF_JGE = 0x30"
definition BPF_JSET :: u16 where "BPF_JSET = 0x40"
definition BPF_K :: u16 where "BPF_K = 0"

lemmas bpf_consts =
  BPF_LD_def BPF_LDX_def BPF_ALU_def BPF_JMP_def BPF_RET_def BPF_W_def BPF_H_def BPF_B_def BPF_ABS_def BPF_IND_def
  BPF_LEN_def BPF_MSH_def BPF_AND_def BPF_JEQ_def BPF_JGT_def BPF_JGE_def BPF_JSET_def BPF_K_def

text \<open>
  \<open>poll_prepare\<close> and \<open>poll_wait\<close> are the two ways in which the poller of the Go runtime ends a read or write: before the first attempt
  and while it waits for the next one (an expired deadline or a closed file).
\<close>

record kernel =
  little_endian :: bool
  unix_Socket :: "nat \<Rightarrow> nat \<Rightarrow> nat \<Rightarrow> errno + int"
  unix_SetsockoptInt :: "int \<Rightarrow> nat \<Rightarrow> nat \<Rightarrow> nat \<Rightarrow> errno option"
  unix_SetsockoptSockFprog :: "int \<Rightarrow> nat \<Rightarrow> nat \<Rightarrow> SockFprog \<Rightarrow> errno option"
  unix_Bind :: "int \<Rightarrow> SockaddrLinklayer \<Rightarrow> errno option"
  unix_Close :: "int \<Rightarrow> errno option"
  unix_Sendto :: "nat \<Rightarrow> int \<Rightarrow> bytes \<Rightarrow> SockaddrLinklayer \<Rightarrow> errno option"
  unix_Recvfrom :: "nat \<Rightarrow> int \<Rightarrow> nat \<Rightarrow> errno + (bytes \<times> Sockaddr)"
  poll_prepare :: "int \<Rightarrow> errno option"
  poll_wait :: "nat \<Rightarrow> int \<Rightarrow> errno option"

definition sample_kernel :: kernel where
  "sample_kernel =
     \<lparr>little_endian = True, unix_Socket = (\<lambda>_ _ _. Inr 3), unix_SetsockoptInt = (\<lambda>_ _ _ _. None),
      unix_SetsockoptSockFprog = (\<lambda>_ _ _ _. None), unix_Bind = (\<lambda>_ _. None), unix_Close = (\<lambda>_. None),
      unix_Sendto = (\<lambda>i _ _ _. if i = 0 then Some EAGAIN else None),
      unix_Recvfrom = (\<lambda>_ _ _. Inl EAGAIN), poll_prepare = (\<lambda>_. None), poll_wait = (\<lambda>_ _. None)\<rparr>"

end
