(* ===== verification/Net_Host.thy ===== *)
theory Net_Host
  imports Unix_Types
begin

text \<open>
  The host as the packet handlers see it. Interfaces and addresses are the types of Go's \<^verbatim>\<open>net\<close> package; the answers
  of the operating system while one packet is handled are the fields of \<open>host\<close>, where \<open>None\<close> is an error return.
  What a handler does to the outside is a list of effects in order; a log line is its level and format string.
\<close>

record Interface =
  Index :: int
  IfName :: string
  HardwareAddr :: hwaddr
  IfFlags :: u32

definition FlagUp :: u32 where "FlagUp = 1"

text \<open>
  \<^verbatim>\<open>net.Addr\<close> by dynamic type. The pointers the \<^verbatim>\<open>net\<close> package returns in it are never nil, so \<open>IPNet\<close> holds the
  structure itself.
\<close>

datatype net_addr = IPAddr ip | IPNet ipnet | UDPAddr ip nat | OtherAddr

type_synonym udp_addr = "ip \<times> nat"

record host =
  InterfaceByIndex :: "int \<Rightarrow> Interface option"
  Interface_Addrs :: "Interface \<Rightarrow> net_addr list option"
  InterfaceAddrs :: "net_addr list option"
  net_Interfaces :: "Interface list option"
  ResolveUDPAddr :: "string \<Rightarrow> udp_addr option"
  WriteTo :: "bytes \<Rightarrow> udp_addr \<Rightarrow> nat option"
  DialContext :: "string \<Rightarrow> net_addr option"
  kern :: kernel
  rand_Read :: "nat \<Rightarrow> (u8 \<times> u8) option"
  clock :: "nat \<Rightarrow> int"

datatype level = Debug | Info | Warn | Error

datatype effect =
    Logf level string
  | SentUDP udp_addr bytes
  | FdOpen int
  | FdFilter int "SockFilter list"
  | SentRaw int SockaddrLinklayer bytes
  | FdClose int

text \<open>The datagrams and the frames among the effects; a frame comes with its outgoing interface.\<close>

definition datagrams :: "effect list \<Rightarrow> (udp_addr \<times> bytes) list" where
  "datagrams es = List.map_filter (\<lambda>e. case e of SentUDP a b \<Rightarrow> Some (a, b) | _ \<Rightarrow> None) es"

definition frames :: "effect list \<Rightarrow> (int \<times> bytes) list" where
  "frames es = List.map_filter (\<lambda>e. case e of SentRaw fd sa b \<Rightarrow> Some (ll_Ifindex sa, b) | _ \<Rightarrow> None) es"

text \<open>The descriptors that are open after the effects, when \<open>fds\<close> were open before.\<close>

fun fds_after :: "int list \<Rightarrow> effect list \<Rightarrow> int list" where
  "fds_after fds [] = fds"
| "fds_after fds (e # es) =
     fds_after (case e of FdOpen fd \<Rightarrow> fd # fds | FdClose fd \<Rightarrow> remove1 fd fds | _ \<Rightarrow> fds) es"

lemma datagrams_simps [simp]:
  "datagrams [] = []"
  "datagrams (SentUDP a b # es) = (a, b) # datagrams es"
  "datagrams (Logf l s # es) = datagrams es"
  "datagrams (FdOpen fd # es) = datagrams es"
  "datagrams (FdFilter fd p # es) = datagrams es"
  "datagrams (SentRaw fd sa b # es) = datagrams es"
  "datagrams (FdClose fd # es) = datagrams es"
  "datagrams (es @ fs) = datagrams es @ datagrams fs"
  by (simp_all add: datagrams_def List.map_filter_def)

lemma frames_simps [simp]:
  "frames [] = []"
  "frames (SentRaw fd sa b # es) = (ll_Ifindex sa, b) # frames es"
  "frames (SentUDP a b # es) = frames es"
  "frames (Logf l s # es) = frames es"
  "frames (FdOpen fd # es) = frames es"
  "frames (FdFilter fd p # es) = frames es"
  "frames (FdClose fd # es) = frames es"
  "frames (es @ fs) = frames es @ frames fs"
  by (simp_all add: frames_def List.map_filter_def)

lemma fds_after_append [simp]: "fds_after fds (es @ fs) = fds_after (fds_after fds es) fs"
  by (induction es arbitrary: fds) simp_all

end
