(* ===== verification/Ifcache.thy ===== *)
theory Ifcache
  imports Net_Host
begin

text \<open>
  The NIC enumeration cache: \<^verbatim>\<open>pkg/dhcp4/ifcache.go\<close>. \<open>Interfaces\<close> is one call on its own; the step relation after it
  interleaves any number of callers with the mutex, the clock and the kernel.
\<close>

subsection \<open>One call\<close>

definition DefaultInterfaceCacheTTL :: int where
  "DefaultInterfaceCacheTTL = 1000000000"

record interfaceSnapshot =
  fetched :: int
  ifaces :: "Interface list"

record InterfaceCache =
  cache_snap :: "interfaceSnapshot option"
  ttl :: int

definition NewInterfaceCache :: "int \<Rightarrow> InterfaceCache" where
  "NewInterfaceCache t = \<lparr>cache_snap = None, ttl = t\<rparr>"

text \<open>A snapshot that is served without a refetch at time \<open>now\<close>.\<close>

definition fresh_snap :: "InterfaceCache \<Rightarrow> int \<Rightarrow> interfaceSnapshot option" where
  "fresh_snap c now =
     (case cache_snap c of
        Some s \<Rightarrow> (if now - fetched s < ttl c then Some s else None)
      | None \<Rightarrow> None)"

text \<open>
  The result is the list, whether an error is returned beside it, and the cache. The clock is read at the first check,
  at the check under the lock and when the result is stored.
\<close>

definition Interfaces :: "host \<Rightarrow> InterfaceCache \<Rightarrow> Interface list \<times> bool \<times> InterfaceCache" where
  "Interfaces h c =
     (if ttl c \<le> 0 then
        (case net_Interfaces h of Some l \<Rightarrow> (l, False, c) | None \<Rightarrow> ([], True, c))
      else case fresh_snap c (clock h 0) of
        Some s \<Rightarrow> (ifaces s, False, c)
      | None \<Rightarrow>
          (case fresh_snap c (clock h 1) of
             Some s \<Rightarrow> (ifaces s, False, c)
           | None \<Rightarrow>
               (case net_Interfaces h of
                  None \<Rightarrow> (case cache_snap c of Some s \<Rightarrow> (ifaces s, True, c) | None \<Rightarrow> ([], True, c))
                | Some l \<Rightarrow> (l, False, c\<lparr>cache_snap := Some \<lparr>fetched = clock h 2, ifaces = l\<rparr>\<rparr>))))"

subsection \<open>Concurrent callers\<close>

text \<open>
  A caller is outside, waits for the lock after a failed first check, holds it before the second check, or holds it
  while it enumerates. \<open>history\<close> records the time and the list of every enumeration that was stored, latest first.
\<close>

datatype caller = Outside | WantsLock | Holds | Fetching

record cache_state =
  shared :: InterfaceCache
  holder :: "nat option"
  callers :: "nat \<Rightarrow> caller"
  now :: int
  history :: "(int \<times> Interface list) list"

datatype cache_event =
    FastHit nat "Interface list" | FastMiss nat | Acquire nat | SlowHit nat "Interface list" | SlowMiss nat
  | FetchOk nat "Interface list" | FetchError nat | Advance int

inductive cache_step :: "cache_state \<Rightarrow> cache_event \<Rightarrow> cache_state \<Rightarrow> bool" where
  fast_hit: "callers s i = Outside \<Longrightarrow> fresh_snap (shared s) (now s) = Some sn \<Longrightarrow>
    cache_step s (FastHit i (ifaces sn)) s"
| fast_miss: "callers s i = Outside \<Longrightarrow> fresh_snap (shared s) (now s) = None \<Longrightarrow>
    cache_step s (FastMiss i) (s\<lparr>callers := (callers s)(i := WantsLock)\<rparr>)"
| acquire: "callers s i = WantsLock \<Longrightarrow> holder s = None \<Longrightarrow>
    cache_step s (Acquire i) (s\<lparr>callers := (callers s)(i := Holds), holder := Some i\<rparr>)"
| slow_hit: "callers s i = Holds \<Longrightarrow> fresh_snap (shared s) (now s) = Some sn \<Longrightarrow>
    cache_step s (SlowHit i (ifaces sn)) (s\<lparr>callers := (callers s)(i := Outside), holder := None\<rparr>)"
| slow_miss: "callers s i = Holds \<Longrightarrow> fresh_snap (shared s) (now s) = None \<Longrightarrow>
    cache_step s (SlowMiss i) (s\<lparr>callers := (callers s)(i := Fetching)\<rparr>)"
| fetch_ok: "callers s i = Fetching \<Longrightarrow>
    cache_step s (FetchOk i l)
      (s\<lparr>callers := (callers s)(i := Outside), holder := None,
         shared := (shared s)\<lparr>cache_snap := Some \<lparr>fetched = now s, ifaces = l\<rparr>\<rparr>,
         history := (now s, l) # history s\<rparr>)"
| fetch_error: "callers s i = Fetching \<Longrightarrow>
    cache_step s (FetchError i) (s\<lparr>callers := (callers s)(i := Outside), holder := None\<rparr>)"
| advance: "0 \<le> d \<Longrightarrow> cache_step s (Advance d) (s\<lparr>now := now s + d\<rparr>)"

inductive_simps cache_step_simps:
  "cache_step s (FastHit i l) s'" "cache_step s (FastMiss i) s'" "cache_step s (Acquire i) s'"
  "cache_step s (SlowHit i l) s'" "cache_step s (SlowMiss i) s'" "cache_step s (FetchOk i l) s'"
  "cache_step s (FetchError i) s'" "cache_step s (Advance d) s'"

inductive cache_run :: "cache_state \<Rightarrow> cache_event list \<Rightarrow> cache_state \<Rightarrow> bool" where
  run_nil: "cache_run s [] s"
| run_step: "cache_step s ev s' \<Longrightarrow> cache_run s' evs s'' \<Longrightarrow> cache_run s (ev # evs) s''"

inductive_simps cache_run_simps: "cache_run s [] s'" "cache_run s (ev # evs) s'"

definition cache_init :: "int \<Rightarrow> int \<Rightarrow> cache_state" where
  "cache_init t start =
     \<lparr>shared = NewInterfaceCache t, holder = None, callers = (\<lambda>_. Outside), now = start, history = []\<rparr>"

text \<open>
  The invariant: only the holder is past the lock, the snapshot is the latest stored enumeration, a caller that
  fetches has seen it expired, and stored enumerations are at least one time-to-live apart.
\<close>

fun spaced :: "int \<Rightarrow> (int \<times> Interface list) list \<Rightarrow> bool" where
  "spaced t ((b, l) # (a, k) # hs) = (a + t \<le> b \<and> spaced t ((a, k) # hs))"
| "spaced t hs = True"

definition cache_inv :: "int \<Rightarrow> cache_state \<Rightarrow> bool" where
  "cache_inv t s \<longleftrightarrow>
     ttl (shared s) = t \<and>
     (\<forall>i. callers s i \<in> {Holds, Fetching} \<longleftrightarrow> holder s = Some i) \<and>
     map_option (\<lambda>sn. (fetched sn, ifaces sn)) (cache_snap (shared s)) =
       (case history s of [] \<Rightarrow> None | x # _ \<Rightarrow> Some x) \<and>
     (\<forall>i. callers s i = Fetching \<longrightarrow> fresh_snap (shared s) (now s) = None) \<and>
     spaced t (history s)"

lemma fresh_snap_later: "fresh_snap c t = None \<Longrightarrow> 0 \<le> d \<Longrightarrow> fresh_snap c (t + d) = None"
  by (auto simp: fresh_snap_def split: option.splits if_splits)

lemma spaced_Cons:
  assumes "spaced t hs" "case hs of [] \<Rightarrow> True | (a, k) # _ \<Rightarrow> a + t \<le> b"
  shows "spaced t ((b, l) # hs)"
  using assms by (cases hs) auto

lemma cache_inv_excl:
  assumes "cache_inv t s" "callers s i = Holds \<or> callers s i = Fetching"
  shows "holder s = Some i" "j \<noteq> i \<Longrightarrow> callers s j \<noteq> Holds \<and> callers s j \<noteq> Fetching"
proof -
  have iff: "callers s k \<in> {Holds, Fetching} \<longleftrightarrow> holder s = Some k" for k
    using assms(1) by (simp add: cache_inv_def)
  then show "holder s = Some i" using assms(2) by auto
  then show "j \<noteq> i \<Longrightarrow> callers s j \<noteq> Holds \<and> callers s j \<noteq> Fetching" using iff [of j] by auto
qed

lemma cache_step_inv: "cache_step s ev s' \<Longrightarrow> cache_inv t s \<Longrightarrow> cache_inv t s'"
proof (induction rule: cache_step.induct)
  case (fetch_ok s i l)
  then have inv: "ttl (shared s) = t" "fresh_snap (shared s) (now s) = None" "spaced t (history s)"
    "map_option (\<lambda>sn. (fetched sn, ifaces sn)) (cache_snap (shared s)) =
       (case history s of [] \<Rightarrow> None | x # _ \<Rightarrow> Some x)"
    by (auto simp: cache_inv_def)
  have "case history s of [] \<Rightarrow> True | (a, k) # _ \<Rightarrow> a + t \<le> now s"
    using inv by (auto simp: fresh_snap_def split: list.splits option.splits if_splits)
  with spaced_Cons [OF inv(3)] inv(1) cache_inv_excl [OF fetch_ok.prems, of i] fetch_ok.hyps show ?case
    by (auto simp: cache_inv_def)
next
  case (advance d s)
  then show ?case by (auto simp: cache_inv_def fresh_snap_later)
next
  case (slow_hit s i sn)
  with cache_inv_excl [OF slow_hit.prems, of i] show ?case by (auto simp: cache_inv_def)
next
  case (slow_miss s i)
  with cache_inv_excl [OF slow_miss.prems, of i] show ?case by (auto simp: cache_inv_def)
next
  case (fetch_error s i)
  with cache_inv_excl [OF fetch_error.prems, of i] show ?case by (auto simp: cache_inv_def)
next
  case (fast_miss s i)
  then have "holder s \<noteq> Some i" by (force simp: cache_inv_def)
  with fast_miss show ?case by (auto simp: cache_inv_def)
next
  case (acquire s i)
  then have "callers s j \<noteq> Holds \<and> callers s j \<noteq> Fetching" for j by (auto simp: cache_inv_def)
  with acquire show ?case by (auto simp: cache_inv_def)
qed auto

lemma cache_init_inv: "cache_inv t (cache_init t start)"
  by (simp add: cache_inv_def cache_init_def NewInterfaceCache_def)

lemma cache_run_inv: "cache_run s evs s' \<Longrightarrow> cache_inv t s \<Longrightarrow> cache_inv t s'"
  by (induction rule: cache_run.induct) (auto intro: cache_step_inv)

lemma spaced_nth:
  assumes "spaced t hs" "i < j" "j < length hs" "0 \<le> t"
  shows "fst (hs ! j) + t \<le> fst (hs ! i)"
  using assms
proof (induction t hs arbitrary: i j rule: spaced.induct)
  case (1 t b l a k hs)
  show ?case
  proof (cases i)
    case 0
    show ?thesis
    proof (cases "j = 1")
      case True
      with 0 1 show ?thesis by simp
    next
      case False
      then have "fst (((a, k) # hs) ! (j - 1)) + t \<le> fst (((a, k) # hs) ! 0)"
        using 1 by (intro "1.IH") auto
      with 0 False 1 show ?thesis by (cases j) auto
    qed
  next
    case (Suc i')
    then have "fst (((a, k) # hs) ! (j - 1)) + t \<le> fst (((a, k) # hs) ! i')"
      using 1 by (intro "1.IH") auto
    with Suc 1 show ?thesis by (cases j) auto
  qed
qed auto

subsection \<open>Properties\<close>



definition sample_nic :: Interface where
  "sample_nic = \<lparr>Index = 7, IfName = ''eth0'', HardwareAddr = Some [2, 0, 0, 0, 0, 7], IfFlags = 1\<rparr>"


end
