(* ===== verification/Dhcp_Options.thy ===== *)
theory Dhcp_Options
  imports Layers Go_Strings
begin

text \<open>
  The option list of a DHCPv4 message: \<^verbatim>\<open>pkg/gpckt/dhcp/options.go\<close>, \<^verbatim>\<open>flags.go\<close> and \<^verbatim>\<open>utils.go\<close>, and the
  accessors of \<^verbatim>\<open>pkg/gpckt/layer.go\<close>. \<^verbatim>\<open>slices.SortFunc\<close> promises a sorted arrangement and not a stable one, so the sort
  of \<open>SetOption\<close> is a parameter and \<open>option_sort_ok\<close> is that promise.
\<close>

subsection \<open>\<^verbatim>\<open>options.go\<close>\<close>

text \<open>The first loop of \<open>DeleteSplitOptions\<close>: how often each type occurs, padding and end markers apart.\<close>

fun option_count :: "(u8 \<Rightarrow> nat) \<Rightarrow> dhcp_option list \<Rightarrow> (u8 \<Rightarrow> nat)" where
  "option_count m [] = m"
| "option_count m (opt # opts) =
     (if opt_Type opt = DHCPOptPad \<or> opt_Type opt = DHCPOptEnd then option_count m opts
      else option_count (m(opt_Type opt := m (opt_Type opt) + 1)) opts)"

text \<open>The second loop: it keeps an end marker and stops there, and skips padding and repeated types.\<close>

fun keep_unsplit :: "(u8 \<Rightarrow> nat) \<Rightarrow> dhcp_option list \<Rightarrow> dhcp_option list" where
  "keep_unsplit m [] = []"
| "keep_unsplit m (opt # opts) =
     (if opt_Type opt = DHCPOptEnd then [opt]
      else if opt_Type opt = DHCPOptPad \<or> m (opt_Type opt) \<noteq> 1 then keep_unsplit m opts
      else opt # keep_unsplit m opts)"

definition DeleteSplitOptions :: "dhcp_option list \<Rightarrow> dhcp_option list" where
  "DeleteSplitOptions options = keep_unsplit (option_count (\<lambda>_. 0) options) options"

definition IsOption :: "dhcp_option \<Rightarrow> bool" where
  "IsOption opt \<longleftrightarrow> opt_Length opt > 0"

definition GetOption :: "dhcpv4 \<Rightarrow> u8 \<Rightarrow> dhcp_option" where
  "GetOption d t = (case find (\<lambda>opt. opt_Type opt = t) (Options d) of Some opt \<Rightarrow> opt | None \<Rightarrow> zero_option)"

definition DeleteOption :: "dhcpv4 \<Rightarrow> u8 \<Rightarrow> dhcpv4" where
  "DeleteOption d t = d\<lparr>Options := filter (\<lambda>opt. opt_Type opt \<noteq> t) (Options d)\<rparr>"

type_synonym option_sort = "dhcp_option list \<Rightarrow> dhcp_option list"

definition SetOption :: "option_sort \<Rightarrow> dhcpv4 \<Rightarrow> dhcp_option \<Rightarrow> dhcpv4" where
  "SetOption SortFunc d newOption =
     d\<lparr>Options := SortFunc (filter (\<lambda>opt. opt_Type opt \<noteq> opt_Type newOption) (Options d) @ [newOption])\<rparr>"

definition GetMessageType :: "gopacket \<Rightarrow> dhcpv4 \<Rightarrow> string" where
  "GetMessageType gp d =
     (let opt53 = GetOption d DHCPOptMessageType in
      if \<not> IsOption opt53 \<or> opt_Data opt53 = [] \<or> opt_Length opt53 \<noteq> 1 then []
      else (let val = hd (opt_Data opt53) in
            if val \<in> set known_message_types then ToUpper (DHCPMsgType_String gp val) else []))"

subsection \<open>\<^verbatim>\<open>flags.go\<close>\<close>

text \<open>The argument is a pointer; \<open>None\<close> is the nil pointer.\<close>

definition IsUnicast :: "dhcpv4 option \<Rightarrow> bool" where
  "IsUnicast l = (case l of None \<Rightarrow> False | Some d \<Rightarrow> Flags d AND DHCPv4BroadcastFlag = 0)"

definition SetUnicast :: "dhcpv4 option \<Rightarrow> dhcpv4 option" where
  "SetUnicast l =
     (case l of None \<Rightarrow> None | Some d \<Rightarrow> Some (d\<lparr>Flags := Flags d AND NOT DHCPv4BroadcastFlag\<rparr>))"

definition IsBroadcast :: "dhcpv4 option \<Rightarrow> bool" where
  "IsBroadcast l =
     (case l of None \<Rightarrow> False | Some d \<Rightarrow> Flags d AND DHCPv4BroadcastFlag = DHCPv4BroadcastFlag)"

definition SetBroadcast :: "dhcpv4 option \<Rightarrow> dhcpv4 option" where
  "SetBroadcast l =
     (case l of None \<Rightarrow> None | Some d \<Rightarrow> Some (d\<lparr>Flags := Flags d OR DHCPv4BroadcastFlag\<rparr>))"

subsection \<open>\<^verbatim>\<open>utils.go\<close>\<close>

definition string_of_bytes :: "bytes \<Rightarrow> string" where
  "string_of_bytes bs = map (\<lambda>b. char_of (unat b)) bs"

definition bytes_of_string :: "string \<Rightarrow> bytes" where
  "bytes_of_string s = map (\<lambda>c. of_nat (of_char c)) s"

definition GetBootFileName :: "dhcpv4 option \<Rightarrow> string" where
  "GetBootFileName l =
     (case l of None \<Rightarrow> []
      | Some d \<Rightarrow> (if File d = [] then [] else TrimSpace (string_of_bytes (File d))))"

subsection \<open>\<^verbatim>\<open>layer.go\<close>\<close>

text \<open>
  A decoded packet is the list of its layers, and \<^verbatim>\<open>packet.Layer\<close> finds the first one of a type.
\<close>

definition GetEthernet :: "layer list \<Rightarrow> ethernet option" where
  "GetEthernet packet =
     (case find (\<lambda>l. case l of LEthernet _ \<Rightarrow> True | _ \<Rightarrow> False) packet of
        Some (LEthernet e) \<Rightarrow> Some e | _ \<Rightarrow> None)"

definition GetIPv4 :: "layer list \<Rightarrow> ipv4 option" where
  "GetIPv4 packet =
     (case find (\<lambda>l. case l of LIPv4 _ \<Rightarrow> True | _ \<Rightarrow> False) packet of
        Some (LIPv4 i) \<Rightarrow> Some i | _ \<Rightarrow> None)"

definition GetUDP :: "layer list \<Rightarrow> udp option" where
  "GetUDP packet =
     (case find (\<lambda>l. case l of LUDP _ \<Rightarrow> True | _ \<Rightarrow> False) packet of
        Some (LUDP u) \<Rightarrow> Some u | _ \<Rightarrow> None)"

definition GetDHCPv4 :: "layer list \<Rightarrow> dhcpv4 option" where
  "GetDHCPv4 packet =
     (case find (\<lambda>l. case l of LDHCPv4 _ \<Rightarrow> True | _ \<Rightarrow> False) packet of
        Some (LDHCPv4 d) \<Rightarrow> Some d | _ \<Rightarrow> None)"

datatype copy_error = SourceNil | DecodeError

definition CopyDHCPv4 :: "gopacket \<Rightarrow> dhcpv4 option \<Rightarrow> copy_error + dhcpv4" where
  "CopyDHCPv4 gp l =
     (case l of None \<Rightarrow> Inl SourceNil
      | Some d \<Rightarrow> (case decode_dhcpv4 gp (Contents d) of None \<Rightarrow> Inl DecodeError | Some out \<Rightarrow> Inr out))"

subsection \<open>The promise of the sort\<close>

definition option_sort_ok :: "option_sort \<Rightarrow> bool" where
  "option_sort_ok SortFunc \<longleftrightarrow>
     (\<forall>opts. mset (SortFunc opts) = mset opts \<and> sorted (map opt_Type (SortFunc opts)))"

lemma option_sort_ok_sort_key: "option_sort_ok (sort_key opt_Type)"
  by (simp add: option_sort_ok_def)

lemma mset_SortFunc: "option_sort_ok SortFunc \<Longrightarrow> mset (SortFunc opts) = mset opts"
  by (simp add: option_sort_ok_def)

lemma sorted_SortFunc: "option_sort_ok SortFunc \<Longrightarrow> sorted (map opt_Type (SortFunc opts))"
  by (simp add: option_sort_ok_def)

lemma set_SortFunc: "option_sort_ok SortFunc \<Longrightarrow> set (SortFunc opts) = set opts"
  by (metis mset_SortFunc mset_eq_setD)

lemma distinct_types_SortFunc:
  "option_sort_ok SortFunc \<Longrightarrow>
   distinct (map opt_Type (SortFunc opts)) \<longleftrightarrow> distinct (map opt_Type opts)"
  by (metis mset_SortFunc mset_map mset_eq_imp_distinct_iff)

lemma SortFunc_distinct:
  assumes "option_sort_ok SortFunc" and "distinct (map opt_Type opts)"
  shows "SortFunc opts = sort_key opt_Type opts"
  using mset_SortFunc [OF assms(1)] sorted_SortFunc [OF assms(1)] assms(2)
  by (rule sorted_arrangement_unique)

subsection \<open>Removing split options\<close>

lemma option_count_eq:
  "option_count m opts t =
     m t + (if t = DHCPOptPad \<or> t = DHCPOptEnd then 0 else count_list (map opt_Type opts) t)"
  by (induction opts arbitrary: m) auto

text \<open>The loop as a specification: what is kept before the end marker, then the marker itself.\<close>

definition unsplit_spec :: "dhcp_option list \<Rightarrow> dhcp_option list" where
  "unsplit_spec opts =
     filter (\<lambda>opt. opt_Type opt \<noteq> DHCPOptPad \<and> count_list (map opt_Type opts) (opt_Type opt) = 1)
       (takeWhile (\<lambda>opt. opt_Type opt \<noteq> DHCPOptEnd) opts)
     @ take 1 (dropWhile (\<lambda>opt. opt_Type opt \<noteq> DHCPOptEnd) opts)"

lemma keep_unsplit_eq:
  "keep_unsplit m opts =
     filter (\<lambda>opt. opt_Type opt \<noteq> DHCPOptPad \<and> m (opt_Type opt) = 1)
       (takeWhile (\<lambda>opt. opt_Type opt \<noteq> DHCPOptEnd) opts)
     @ take 1 (dropWhile (\<lambda>opt. opt_Type opt \<noteq> DHCPOptEnd) opts)"
  by (induction opts) auto

lemma DeleteSplitOptions_unsplit_spec: "DeleteSplitOptions opts = unsplit_spec opts"
proof -
  have "filter (\<lambda>opt. opt_Type opt \<noteq> DHCPOptPad \<and> option_count (\<lambda>_. 0) opts (opt_Type opt) = 1)
          (takeWhile (\<lambda>opt. opt_Type opt \<noteq> DHCPOptEnd) opts) =
        filter (\<lambda>opt. opt_Type opt \<noteq> DHCPOptPad \<and> count_list (map opt_Type opts) (opt_Type opt) = 1)
          (takeWhile (\<lambda>opt. opt_Type opt \<noteq> DHCPOptEnd) opts)"
    by (rule filter_cong [OF refl]) (auto simp: option_count_eq dest: set_takeWhileD)
  then show ?thesis
    by (simp add: DeleteSplitOptions_def keep_unsplit_eq unsplit_spec_def)
qed

lemma count_list_le_1_distinct:
  "(\<And>x. x \<in> set xs \<Longrightarrow> count_list xs x \<le> 1) \<Longrightarrow> distinct xs"
proof (induction xs)
  case Nil
  then show ?case by simp
next
  case (Cons a xs)
  have "count_list xs a = 0" using Cons.prems [of a] by simp
  then have "a \<notin> set xs" by (simp add: count_list_0_iff)
  moreover have "count_list xs x \<le> 1" if "x \<in> set xs" for x
    using Cons.prems [of x] that by (simp split: if_splits)
  ultimately show ?case using Cons.IH by simp
qed

lemma count_list_filter_le: "count_list (map f (filter P xs)) t \<le> count_list (map f xs) t"
  by (induction xs) auto

lemma count_list_takeWhile_le: "count_list (map f (takeWhile P xs)) t \<le> count_list (map f xs) t"
  by (induction xs) auto

lemma take_1_dropWhile: "set (map f (take 1 (dropWhile (\<lambda>x. f x \<noteq> c) xs))) \<subseteq> {c}"
  by (induction xs) auto

lemma DeleteSplitOptions_distinct: "distinct (map opt_Type (DeleteSplitOptions opts))"
proof -
  let ?before = "takeWhile (\<lambda>opt. opt_Type opt \<noteq> DHCPOptEnd) opts"
  let ?from = "dropWhile (\<lambda>opt. opt_Type opt \<noteq> DHCPOptEnd) opts"
  let ?P = "\<lambda>opt. opt_Type opt \<noteq> DHCPOptPad \<and> count_list (map opt_Type opts) (opt_Type opt) = 1"
  have "distinct (map opt_Type (filter ?P ?before))"
  proof (rule count_list_le_1_distinct)
    fix t assume "t \<in> set (map opt_Type (filter ?P ?before))"
    then have one: "count_list (map opt_Type opts) t = 1" by auto
    have "count_list (map opt_Type (filter ?P ?before)) t \<le> count_list (map opt_Type ?before) t"
      by (rule count_list_filter_le)
    also have "\<dots> \<le> count_list (map opt_Type opts) t" by (rule count_list_takeWhile_le)
    finally show "count_list (map opt_Type (filter ?P ?before)) t \<le> 1" using one by simp
  qed
  moreover have "DHCPOptEnd \<notin> set (map opt_Type (filter ?P ?before))"
    by (auto dest: set_takeWhileD)
  moreover have "set (map opt_Type (take 1 ?from)) \<subseteq> {DHCPOptEnd}"
    by (rule take_1_dropWhile)
  moreover have "distinct (map opt_Type (take 1 ?from))" by (rule distinct_take_1)
  ultimately have "distinct (map opt_Type (filter ?P ?before) @ map opt_Type (take 1 ?from))"
    unfolding distinct_append by blast
  then show ?thesis
    by (simp add: DeleteSplitOptions_unsplit_spec unsplit_spec_def)
qed

lemma DeleteSplitOptions_subset: "set (DeleteSplitOptions opts) \<subseteq> set opts"
  by (auto simp: DeleteSplitOptions_unsplit_spec unsplit_spec_def
      dest: set_takeWhileD in_set_takeD set_dropWhileD)

lemma unsplit_spec_fixpoint:
  assumes "distinct (map opt_Type opts)" and "DHCPOptPad \<notin> set (map opt_Type opts)"
    and "\<And>xs x y ys. opts = xs @ x # y # ys \<Longrightarrow> opt_Type x \<noteq> DHCPOptEnd"
  shows "unsplit_spec opts = opts"
proof -
  let ?P = "\<lambda>opt. opt_Type opt \<noteq> DHCPOptEnd"
  have "count_list (map opt_Type opts) (opt_Type opt) = 1" if "opt \<in> set opts" for opt
    using assms(1) that by (simp add: count_list_distinct)
  moreover have "opt_Type opt \<noteq> DHCPOptPad" if "opt \<in> set opts" for opt
    using assms(2) that by (metis image_eqI set_map)
  ultimately have keep: "filter (\<lambda>opt. opt_Type opt \<noteq> DHCPOptPad \<and>
      count_list (map opt_Type opts) (opt_Type opt) = 1) (takeWhile ?P opts) = takeWhile ?P opts"
    by (auto simp: filter_id_conv dest!: set_takeWhileD)
  have "take 1 (dropWhile ?P opts) = dropWhile ?P opts"
  proof (cases "dropWhile ?P opts")
    case (Cons x zs)
    then have x: "opt_Type x = DHCPOptEnd"
      using hd_dropWhile [of ?P opts] by simp
    have split: "opts = takeWhile ?P opts @ x # zs"
      using takeWhile_dropWhile_id [of ?P opts] Cons by simp
    have "zs = []"
    proof (cases zs)
      case (Cons y ys)
      with split x show ?thesis using assms(3) [of "takeWhile ?P opts" x y ys] by blast
    qed
    with Cons show ?thesis by simp
  next
    case Nil
    then show ?thesis by (simp only: take_Nil)
  qed
  then show ?thesis
    unfolding unsplit_spec_def keep by simp
qed

text \<open>What \<open>DeleteSplitOptions\<close> returns has no padding, and an end marker only in the last place.\<close>

lemma DeleteSplitOptions_no_pad: "opt \<in> set (DeleteSplitOptions opts) \<Longrightarrow> opt_Type opt \<noteq> DHCPOptPad"
proof -
  have "set (map opt_Type (take 1 (dropWhile (\<lambda>opt. opt_Type opt \<noteq> DHCPOptEnd) opts))) \<subseteq> {DHCPOptEnd}"
    by (rule take_1_dropWhile)
  then show "opt \<in> set (DeleteSplitOptions opts) \<Longrightarrow> opt_Type opt \<noteq> DHCPOptPad"
    by (auto simp: DeleteSplitOptions_unsplit_spec unsplit_spec_def DHCPOptEnd_def DHCPOptPad_def)
qed

lemma DeleteSplitOptions_End_last:
  assumes "DeleteSplitOptions opts = xs @ x # y # ys"
  shows "opt_Type x \<noteq> DHCPOptEnd"
proof -
  let ?P = "\<lambda>opt. opt_Type opt \<noteq> DHCPOptEnd"
  obtain as bs where ab: "as @ bs = xs @ x # y # ys" "\<forall>a \<in> set as. ?P a" "length bs \<le> 1"
  proof
    let ?Q = "\<lambda>opt. opt_Type opt \<noteq> DHCPOptPad \<and> count_list (map opt_Type opts) (opt_Type opt) = 1"
    show "filter ?Q (takeWhile ?P opts) @ take 1 (dropWhile ?P opts) = xs @ x # y # ys"
      using assms by (simp add: DeleteSplitOptions_unsplit_spec unsplit_spec_def)
    show "\<forall>a \<in> set (filter ?Q (takeWhile ?P opts)). ?P a" by (auto dest: set_takeWhileD)
    show "length (take 1 (dropWhile ?P opts)) \<le> 1" by simp
  qed
  have "length xs < length as" using arg_cong [OF ab(1), of length] ab(3) by simp
  moreover have "(as @ bs) ! length xs = x" using ab(1) by simp
  ultimately have "x \<in> set as" by (metis nth_append nth_mem)
  with ab(2) show ?thesis by blast
qed

subsection \<open>Setting and reading options\<close>

lemma GetOption_member: "opt \<in> set (Options d) \<Longrightarrow> opt_Type (GetOption d (opt_Type opt)) = opt_Type opt"
  by (auto simp: GetOption_def find_None_iff find_Some_iff split: option.splits)

lemma GetOption_unique:
  assumes "opt \<in> set (Options d)" and "\<And>o'. o' \<in> set (Options d) \<Longrightarrow> opt_Type o' = opt_Type opt \<Longrightarrow> o' = opt"
  shows "GetOption d (opt_Type opt) = opt"
proof -
  have "find (\<lambda>o'. opt_Type o' = opt_Type opt) (Options d) = Some opt"
    by (rule find_unique) (use assms in auto)
  then show ?thesis by (simp add: GetOption_def)
qed

lemma GetOption_absent: "t \<notin> opt_Type ` set (Options d) \<Longrightarrow> GetOption d t = zero_option"
proof -
  assume "t \<notin> opt_Type ` set (Options d)"
  then have "find (\<lambda>opt. opt_Type opt = t) (Options d) = None" by (auto simp: find_None_iff)
  then show ?thesis by (simp add: GetOption_def)
qed

lemma GetOption_cong: "Options d = Options d' \<Longrightarrow> GetOption d t = GetOption d' t"
  by (simp add: GetOption_def)

text \<open>Only the set of options matters to a lookup when no type occurs twice.\<close>

lemma GetOption_same_set:
  assumes "set (Options d) = set (Options d')" and "distinct (map opt_Type (Options d))"
  shows "GetOption d t = GetOption d' t"
proof (cases "t \<in> opt_Type ` set (Options d)")
  case False
  with assms(1) show ?thesis by (simp add: GetOption_absent)
next
  case True
  then obtain opt where opt: "opt \<in> set (Options d)" "t = opt_Type opt" by auto
  have only: "o' = opt" if "o' \<in> set (Options d)" "opt_Type o' = opt_Type opt" for o'
    using distinct_map_filter_same [OF assms(2) that(1) opt(1) that(2)] .
  show ?thesis
    using GetOption_unique [of opt d] GetOption_unique [of opt d'] opt only assms(1) by auto
qed

lemma Options_SetOption:
  "option_sort_ok SortFunc \<Longrightarrow>
   set (Options (SetOption SortFunc d opt)) =
     insert opt {o' \<in> set (Options d). opt_Type o' \<noteq> opt_Type opt}"
  by (auto simp: SetOption_def set_SortFunc)

lemma SetOption_distinct:
  "option_sort_ok SortFunc \<Longrightarrow> distinct (map opt_Type (Options d)) \<Longrightarrow>
   distinct (map opt_Type (Options (SetOption SortFunc d opt)))"
  by (auto simp: SetOption_def distinct_types_SortFunc distinct_map_filter)

lemma GetOption_SetOption_same:
  assumes "option_sort_ok SortFunc"
  shows "GetOption (SetOption SortFunc d opt) (opt_Type opt) = opt"
  by (rule GetOption_unique) (auto simp: Options_SetOption [OF assms])

lemma GetOption_SetOption_other:
  assumes "option_sort_ok SortFunc" and "distinct (map opt_Type (Options d))" and "t \<noteq> opt_Type opt"
  shows "GetOption (SetOption SortFunc d opt) t = GetOption d t"
proof -
  let ?kept = "d\<lparr>Options := filter (\<lambda>o'. opt_Type o' \<noteq> opt_Type opt) (Options d) @ [opt]\<rparr>"
  have "GetOption (SetOption SortFunc d opt) t = GetOption ?kept t"
    by (rule GetOption_same_set) (auto simp: Options_SetOption [OF assms(1)] SetOption_distinct assms)
  also have "\<dots> = GetOption d t"
  proof -
    have "find (\<lambda>o'. opt_Type o' = t) (filter (\<lambda>o'. opt_Type o' \<noteq> opt_Type opt) (Options d) @ [opt]) =
          find (\<lambda>o'. opt_Type o' = t) (Options d)"
      using assms(3) by (subst find_append, subst find_filter_other) (auto split: option.splits)
    then show ?thesis by (simp add: GetOption_def)
  qed
  finally show ?thesis .
qed

lemma GetOption_DeleteOption_same: "GetOption (DeleteOption d t) t = zero_option"
  by (rule GetOption_absent) (auto simp: DeleteOption_def)

lemma GetOption_DeleteOption_other: "t' \<noteq> t \<Longrightarrow> GetOption (DeleteOption d t) t' = GetOption d t'"
  by (simp add: GetOption_def DeleteOption_def find_filter_other)

lemma SetOption_End_last:
  assumes "option_sort_ok SortFunc" and "DHCPOptEnd \<in> opt_Type ` set (Options d)"
    and "opt_Type opt \<noteq> DHCPOptEnd"
  shows "opt_Type (last (Options (SetOption SortFunc d opt))) = DHCPOptEnd"
proof -
  let ?opts = "Options (SetOption SortFunc d opt)"
  have srt: "sorted (map opt_Type ?opts)"
    by (simp add: SetOption_def sorted_SortFunc [OF assms(1)])
  obtain e where e: "e \<in> set ?opts" "opt_Type e = DHCPOptEnd"
    using assms by (force simp: Options_SetOption)
  then have "?opts \<noteq> []" by auto
  then have "opt_Type e \<le> opt_Type (last ?opts)"
    using sorted_le_last [OF srt, of "opt_Type e"] e(1) by (simp add: last_map)
  with e(2) have "255 \<le> unat (opt_Type (last ?opts))"
    by (simp add: DHCPOptEnd_def word_le_nat_alt)
  with unat_u8_less [of "opt_Type (last ?opts)"] have "unat (opt_Type (last ?opts)) = 255" by simp
  then show ?thesis by (simp add: DHCPOptEnd_def word_unat_eq_iff)
qed

subsection \<open>The broadcast flag\<close>

lemma bit_DHCPv4BroadcastFlag: "bit DHCPv4BroadcastFlag i \<longleftrightarrow> i = 15"
proof -
  have "bit (push_bit 15 1 :: u16) i \<longleftrightarrow> i = 15"
    by (simp only: bit_push_bit_iff bit_1_iff) auto
  then show ?thesis by (simp add: DHCPv4BroadcastFlag_def)
qed

lemma and_DHCPv4BroadcastFlag:
  "w AND DHCPv4BroadcastFlag = (if bit w 15 then DHCPv4BroadcastFlag else 0)"
  by (rule bit_eqI) (auto simp: bit_and_iff bit_DHCPv4BroadcastFlag)

lemma DHCPv4BroadcastFlag_ne: "DHCPv4BroadcastFlag \<noteq> 0"
  by (simp add: DHCPv4BroadcastFlag_def)

lemma IsUnicast_bit: "IsUnicast (Some d) \<longleftrightarrow> \<not> bit (Flags d) 15"
  by (simp add: IsUnicast_def and_DHCPv4BroadcastFlag DHCPv4BroadcastFlag_ne)

lemma IsBroadcast_bit: "IsBroadcast (Some d) \<longleftrightarrow> bit (Flags d) 15"
  by (simp add: IsBroadcast_def and_DHCPv4BroadcastFlag DHCPv4BroadcastFlag_ne [symmetric])

lemma bit_SetUnicast:
  "bit (Flags (the (SetUnicast (Some d)))) i \<longleftrightarrow> bit (Flags d) i \<and> i \<noteq> 15"
  using bit_imp_le_length [of "Flags d" i]
  by (simp add: SetUnicast_def bit_and_iff bit_not_iff bit_DHCPv4BroadcastFlag possible_bit_word) blast

lemma bit_SetBroadcast:
  "bit (Flags (the (SetBroadcast (Some d)))) i \<longleftrightarrow> bit (Flags d) i \<or> i = 15"
  by (simp add: SetBroadcast_def bit_or_iff bit_DHCPv4BroadcastFlag)

text \<open>
  C22: \<open>DeleteSplitOptions\<close> returns the options before the first end marker whose type occurs exactly once
  in the message, padding removed and order kept, followed by the end marker; no type occurs twice in the result, and
  applying it again changes nothing.
\<close>

theorem DeleteSplitOptions_correct:
  "DeleteSplitOptions opts = unsplit_spec opts \<and>
   distinct (map opt_Type (DeleteSplitOptions opts)) \<and>
   DeleteSplitOptions (DeleteSplitOptions opts) = DeleteSplitOptions opts"
proof (intro conjI)
  show "DeleteSplitOptions opts = unsplit_spec opts" by (rule DeleteSplitOptions_unsplit_spec)
  show "distinct (map opt_Type (DeleteSplitOptions opts))" by (rule DeleteSplitOptions_distinct)
  show "DeleteSplitOptions (DeleteSplitOptions opts) = DeleteSplitOptions opts"
    unfolding DeleteSplitOptions_unsplit_spec [of "DeleteSplitOptions opts"]
  proof (rule unsplit_spec_fixpoint)
    show "DHCPOptPad \<notin> set (map opt_Type (DeleteSplitOptions opts))"
      using DeleteSplitOptions_no_pad by (metis image_iff set_map)
  qed (rule DeleteSplitOptions_distinct, rule DeleteSplitOptions_End_last)
qed

text \<open>
  C38: \<open>SetOption\<close> on a message in which no option type occurs twice replaces the option of the new type, leaves the
  answer of \<open>GetOption\<close> for every other type as it was, keeps the types distinct, sorts them, and keeps the end marker last.
\<close>

theorem SetOption_correct:
  assumes "option_sort_ok SortFunc" and "distinct (map opt_Type (Options d))"
  shows "(\<forall>t. GetOption (SetOption SortFunc d opt) t = (if t = opt_Type opt then opt else GetOption d t)) \<and>
    distinct (map opt_Type (Options (SetOption SortFunc d opt))) \<and>
    sorted (map opt_Type (Options (SetOption SortFunc d opt))) \<and>
    (DHCPOptEnd \<in> opt_Type ` set (Options d) \<and> opt_Type opt \<noteq> DHCPOptEnd \<longrightarrow>
       opt_Type (last (Options (SetOption SortFunc d opt))) = DHCPOptEnd)"
proof (intro conjI allI impI)
  show "GetOption (SetOption SortFunc d opt) t = (if t = opt_Type opt then opt else GetOption d t)" for t
    using assms by (simp add: GetOption_SetOption_same GetOption_SetOption_other)
  show "distinct (map opt_Type (Options (SetOption SortFunc d opt)))"
    using assms by (rule SetOption_distinct)
  show "sorted (map opt_Type (Options (SetOption SortFunc d opt)))"
    by (simp add: SetOption_def sorted_SortFunc [OF assms(1)])
  show "opt_Type (last (Options (SetOption SortFunc d opt))) = DHCPOptEnd"
    if "DHCPOptEnd \<in> opt_Type ` set (Options d) \<and> opt_Type opt \<noteq> DHCPOptEnd"
    using SetOption_End_last assms(1) that by blast
qed

definition sample_dhcpv4 :: dhcpv4 where
  "sample_dhcpv4 =
     \<lparr>Operation = 1, HardwareType = 1, HardwareLen = 6, RelayHops = 0, Xid = 0x1234, Flags = 0,
      ClientIP = Some [0, 0, 0, 0], YourClientIP = Some [0, 0, 0, 0], RelayAgentIP = Some [0, 0, 0, 0],
      ClientHWAddr = Some [0x02, 0, 0, 0, 0, 0x09], File = [],
      Options = [\<lparr>opt_Type = 53, opt_Length = 1, opt_Data = [1]\<rparr>, \<lparr>opt_Type = 255, opt_Length = 0, opt_Data = []\<rparr>],
      Contents = []\<rparr>"

theorem SetOption_correct_witness:
  "let d = SetOption (sort_key opt_Type) sample_dhcpv4 \<lparr>opt_Type = 82, opt_Length = 1, opt_Data = [7]\<rparr>
   in GetOption d 82 = \<lparr>opt_Type = 82, opt_Length = 1, opt_Data = [7]\<rparr> \<and>
      GetOption d 53 = \<lparr>opt_Type = 53, opt_Length = 1, opt_Data = [1]\<rparr> \<and>
      opt_Type (last (Options d)) = 255"
proof -
  have d: "distinct (map opt_Type (Options sample_dhcpv4))" by (simp add: sample_dhcpv4_def)
  show ?thesis
    using SetOption_correct [OF option_sort_ok_sort_key d, of "\<lparr>opt_Type = 82, opt_Length = 1, opt_Data = [7]\<rparr>"]
    by (simp add: Let_def sample_dhcpv4_def GetOption_def DHCPOptEnd_def)
qed

text \<open>
  The two readings of the flags word are complementary, so a reply is always handled as exactly one
  of unicast and broadcast; the setters establish the reading they are named after and touch no other flag bit, and no
  setter does anything on a nil message.
\<close>

lemma broadcast_flag_correct:
  "IsUnicast (Some d) = (\<not> IsBroadcast (Some d)) \<and>
   IsUnicast (SetUnicast (Some d)) \<and> IsBroadcast (SetBroadcast (Some d)) \<and>
   (\<forall>i. i \<noteq> 15 \<longrightarrow> bit (Flags (the (SetUnicast (Some d)))) i = bit (Flags d) i \<and>
                 bit (Flags (the (SetBroadcast (Some d)))) i = bit (Flags d) i) \<and>
   SetUnicast None = None \<and> SetBroadcast None = None \<and> \<not> IsUnicast None \<and> \<not> IsBroadcast None"
proof -
  obtain u b where ub: "SetUnicast (Some d) = Some u" "SetBroadcast (Some d) = Some b"
    by (simp add: SetUnicast_def SetBroadcast_def)
  have "\<not> bit (Flags u) 15" "bit (Flags b) 15"
    using bit_SetUnicast [of d 15] bit_SetBroadcast [of d 15] ub by simp_all
  then show ?thesis
    using bit_SetUnicast [of d] bit_SetBroadcast [of d] ub
    by (simp add: IsUnicast_bit IsBroadcast_bit)
      (simp add: SetUnicast_def SetBroadcast_def IsUnicast_def IsBroadcast_def)
qed

end
