(* ===== verification/Opt82.thy ===== *)
theory Opt82
  imports Dhcp_Options Go_Net
begin

text \<open>
  The Relay Agent Information option (Option 82) and its sub-options: \<^verbatim>\<open>pkg/gpckt/dhcp/sub-options.go\<close> and
  \<^verbatim>\<open>opt82.go\<close>. The encoder and the decoder are inverse to each other on the sub-options the relay
  creates, an ingress interface index survives the trip through the Agent Circuit ID, and the size limits are exact.
\<close>

subsection \<open>\<^verbatim>\<open>sub-options.go\<close>\<close>

definition AgentCircuitIDSubOption :: u8 where "AgentCircuitIDSubOption = 1"
definition LinkSelectionSubOption :: u8 where "LinkSelectionSubOption = 5"
definition PolicyTagSubOption :: u8 where "PolicyTagSubOption = 224"
definition MaxAgentCircuitIDSize :: nat where "MaxAgentCircuitIDSize = 10"
definition MaxPolicyTagSize :: nat where
  "MaxPolicyTagSize =
     DHCPv4MaxOptionSize - 2 * (DHCPv4OptionTypeSize + DHCPv4OptionLengthSize) - MaxAgentCircuitIDSize"

definition CreateAgentCircuitIDSubOption :: "u32 \<Rightarrow> dhcp_option" where
  "CreateAgentCircuitIDSubOption value =
     (let data = bytes_of_string (FormatUint (unat value))
      in \<lparr>opt_Type = AgentCircuitIDSubOption, opt_Length = of_nat (length data), opt_Data = data\<rparr>)"

fun ExtractAgentCircuitIDSubOptionData :: "dhcp_option list \<Rightarrow> int" where
  "ExtractAgentCircuitIDSubOptionData [] = 0"
| "ExtractAgentCircuitIDSubOptionData (opt # opts) =
     (if opt_Type opt \<noteq> AgentCircuitIDSubOption then ExtractAgentCircuitIDSubOptionData opts
      else (case Atoi (string_of_bytes (opt_Data opt)) of None \<Rightarrow> 0 | Some val \<Rightarrow> val))"

definition CreateLinkSelectionSubOption :: "ip \<Rightarrow> dhcp_option" where
  "CreateLinkSelectionSubOption subnet =
     (case To4 subnet of
        None \<Rightarrow> zero_option
      | Some v4 \<Rightarrow> \<lparr>opt_Type = LinkSelectionSubOption, opt_Length = 4, opt_Data = v4\<rparr>)"

fun ExtractLinkSelectionSubOptionData :: "dhcp_option list \<Rightarrow> ip" where
  "ExtractLinkSelectionSubOptionData [] = None"
| "ExtractLinkSelectionSubOptionData (opt # opts) =
     (if opt_Type opt = LinkSelectionSubOption \<and> length (opt_Data opt) = 4 then Some (opt_Data opt)
      else ExtractLinkSelectionSubOptionData opts)"

definition CreatePolicyTagSubOption :: "bytes \<Rightarrow> dhcp_option" where
  "CreatePolicyTagSubOption tag =
     (if length tag = 0 \<or> length tag > DHCPv4MaxSubOptionSize then zero_option
      else \<lparr>opt_Type = PolicyTagSubOption, opt_Length = of_nat (length tag), opt_Data = tag\<rparr>)"

text \<open>A copy of an empty tag is the nil slice again.\<close>

fun ExtractPolicyTagSubOptionData :: "dhcp_option list \<Rightarrow> u8 slice" where
  "ExtractPolicyTagSubOptionData [] = None"
| "ExtractPolicyTagSubOptionData (opt # opts) =
     (if opt_Type opt = PolicyTagSubOption then slice_append None (opt_Data opt)
      else ExtractPolicyTagSubOptionData opts)"

subsection \<open>\<^verbatim>\<open>opt82.go\<close>\<close>

definition RelayAgentInformation :: u8 where "RelayAgentInformation = 82"

definition GetRelayAgentInformationOption :: "dhcpv4 \<Rightarrow> dhcp_option" where
  "GetRelayAgentInformationOption d =
     (let opt82 = GetOption d RelayAgentInformation in
      if \<not> IsOption opt82 then zero_option
      else if length (opt_Data opt82) = 0 \<or> opt_Length opt82 < 1 then zero_option
      else opt82)"

definition DeleteRelayAgentInformationOption :: "dhcpv4 \<Rightarrow> dhcpv4" where
  "DeleteRelayAgentInformationOption d = DeleteOption d RelayAgentInformation"

text \<open>The packing loop; \<open>None\<close> is the early return on a zero sub-option.\<close>

fun encode_subopts :: "bytes \<Rightarrow> dhcp_option list \<Rightarrow> bytes option" where
  "encode_subopts data [] = Some data"
| "encode_subopts data (sub # subs) =
     (if opt_Length sub = 0 then None
      else encode_subopts (data @ [opt_Type sub, opt_Length sub] @ opt_Data sub) subs)"

definition EncodeRelayAgentInformationOption :: "gopacket \<Rightarrow> dhcp_option list \<Rightarrow> dhcp_option" where
  "EncodeRelayAgentInformationOption gp subs =
     (case encode_subopts [] subs of
        None \<Rightarrow> zero_option
      | Some data \<Rightarrow>
          (if length data > DHCPv4MaxOptionSize then zero_option
           else NewDHCPOption gp RelayAgentInformation data))"

definition SetRelayAgentInformationOption ::
  "gopacket \<Rightarrow> option_sort \<Rightarrow> dhcpv4 \<Rightarrow> dhcp_option list \<Rightarrow> dhcpv4" where
  "SetRelayAgentInformationOption gp SortFunc d subs =
     (let opt82 = EncodeRelayAgentInformationOption gp subs in
      if \<not> IsOption opt82 then d else SetOption SortFunc d opt82)"

definition headerSize :: nat where
  "headerSize = DHCPv4OptionTypeSize + DHCPv4OptionLengthSize"

lemma headerSize_2 [simp]: "headerSize = 2"
  by (simp add: headerSize_def specs_defs)

function decode_subopts :: "dhcp_option slice \<Rightarrow> bytes \<Rightarrow> dhcp_option slice" where
  "decode_subopts subs data =
     (if data = [] then subs
      else if length data < headerSize then None
      else (let len = unat (data ! DHCPv4OptionTypeSize) in
            if length data < headerSize + len then None
            else decode_subopts
                   (slice_append subs
                      [\<lparr>opt_Type = data ! 0, opt_Length = data ! DHCPv4OptionTypeSize,
                        opt_Data = take len (drop headerSize data)\<rparr>])
                   (drop (headerSize + len) data)))"
  by pat_completeness auto
termination
  by (relation "measure (\<lambda>(subs, data). length data)") auto

declare decode_subopts.simps [simp del]

definition DecodeRelayAgentInformationOption :: "dhcp_option \<Rightarrow> dhcp_option slice" where
  "DecodeRelayAgentInformationOption opt = decode_subopts None (opt_Data opt)"

lemmas subopt_defs = AgentCircuitIDSubOption_def LinkSelectionSubOption_def PolicyTagSubOption_def
  RelayAgentInformation_def MaxAgentCircuitIDSize_def MaxPolicyTagSize_def

subsection \<open>Well-formed sub-options and their bytes\<close>

text \<open>
  A sub-option is exact when its length byte is the length of its data, and well-formed when moreover it
  has data, as every sub-option the relay creates does.
\<close>

definition exact_subopt :: "dhcp_option \<Rightarrow> bool" where
  "exact_subopt sub \<longleftrightarrow> length (opt_Data sub) = unat (opt_Length sub)"

definition wf_subopt :: "dhcp_option \<Rightarrow> bool" where
  "wf_subopt sub \<longleftrightarrow> opt_Data sub \<noteq> [] \<and> exact_subopt sub"

definition subopt_bytes :: "dhcp_option \<Rightarrow> bytes" where
  "subopt_bytes sub = opt_Type sub # opt_Length sub # opt_Data sub"

definition subopts_size :: "dhcp_option list \<Rightarrow> nat" where
  "subopts_size subs = length (concat (map subopt_bytes subs))"

lemma encode_subopts_eq:
  "encode_subopts data subs =
     (if \<exists>sub \<in> set subs. opt_Length sub = 0 then None
      else Some (data @ concat (map subopt_bytes subs)))"
  by (induction subs arbitrary: data) (auto simp: subopt_bytes_def)

lemma wf_subopt_Length: "wf_subopt sub \<Longrightarrow> opt_Length sub \<noteq> 0"
  by (auto simp: wf_subopt_def exact_subopt_def)

lemma decode_subopts_append:
  assumes "exact_subopt sub"
  shows "decode_subopts acc (subopt_bytes sub @ rest) = decode_subopts (slice_append acc [sub]) rest"
  using assms
  by (cases sub, subst decode_subopts.simps)
    (simp add: subopt_bytes_def exact_subopt_def specs_defs Let_def)

lemma decode_subopts_concat:
  "list_all exact_subopt subs \<Longrightarrow>
   decode_subopts acc (concat (map subopt_bytes subs)) = slice_append acc subs"
proof (induction subs arbitrary: acc)
  case Nil
  then show ?case by (cases acc) (simp_all add: decode_subopts.simps slice_append_def)
next
  case (Cons sub subs)
  then have "decode_subopts acc (concat (map subopt_bytes (sub # subs))) =
             slice_append (slice_append acc [sub]) subs"
    by (simp add: decode_subopts_append)
  also have "\<dots> = slice_append acc (sub # subs)"
    by (cases acc) (simp_all add: slice_append_def)
  finally show ?case .
qed

text \<open>Whatever the decoder accepts is a list of sub-options with exact length bytes that spells the input.\<close>

lemma decode_subopts_sound:
  assumes "decode_subopts acc data = Some subs" and "data \<noteq> [] \<or> acc \<noteq> None"
  shows "\<exists>new. subs = elems acc @ new \<and> concat (map subopt_bytes new) = data \<and>
     list_all exact_subopt new"
  using assms
proof (induction acc data rule: decode_subopts.induct)
  case (1 acc data)
  show ?case
  proof (cases "data = []")
    case True
    with "1.prems" show ?thesis by (auto simp: decode_subopts.simps)
  next
    case False
    define len where "len = unat (data ! 1)"
    define sub where "sub = \<lparr>opt_Type = data ! 0, opt_Length = data ! 1, opt_Data = take len (drop 2 data)\<rparr>"
    have fits: "2 \<le> length data" "2 + len \<le> length data"
      using "1.prems"(1) False
      by (auto simp: decode_subopts.simps [of acc data] len_def specs_defs Let_def split: if_splits)
    have step: "decode_subopts acc data = decode_subopts (slice_append acc [sub]) (drop (2 + len) data)"
      using False fits by (subst decode_subopts.simps) (simp add: len_def sub_def specs_defs Let_def)
    have ne: "slice_append acc [sub] \<noteq> None" by (cases acc) (simp_all add: slice_append_def)
    have "\<exists>new. subs = elems (slice_append acc [sub]) @ new \<and>
        concat (map subopt_bytes new) = drop (2 + len) data \<and>
        list_all exact_subopt new"
    proof -
      have type_size: "DHCPv4OptionTypeSize = 1" by (simp add: specs_defs)
      have guards: "\<not> length data < headerSize" "len = unat (data ! DHCPv4OptionTypeSize)"
          "\<not> length data < headerSize + len"
        using fits by (simp_all add: len_def type_size)
      show ?thesis
        using "1.IH" [OF False guards] ne step "1.prems"(1)
        unfolding type_size headerSize_2 sub_def [symmetric] by simp
    qed
    then obtain new where new: "subs = elems (slice_append acc [sub]) @ new"
        "concat (map subopt_bytes new) = drop (2 + len) data"
        "list_all exact_subopt new"
      by blast
    have "subopt_bytes sub @ drop (2 + len) data = data"
    proof -
      obtain a b tl2 where d: "data = a # b # tl2"
        using fits(1) by (metis Suc_le_length_iff numeral_2_eq_2)
      show ?thesis by (simp add: d subopt_bytes_def sub_def)
    qed
    with new fits have "subs = elems acc @ sub # new \<and> concat (map subopt_bytes (sub # new)) = data \<and>
        list_all exact_subopt (sub # new)"
      by (auto simp: sub_def len_def exact_subopt_def)
    then show ?thesis by blast
  qed
qed

lemma wf_exact: "wf_subopt sub \<Longrightarrow> exact_subopt sub"
  by (simp add: wf_subopt_def)

lemma list_all_wf_exact: "list_all wf_subopt subs \<Longrightarrow> list_all exact_subopt subs"
  by (auto simp: list_all_iff wf_exact)

lemma DecodeRelayAgentInformationOption_iff:
  "DecodeRelayAgentInformationOption opt = Some subs \<longleftrightarrow>
     subs \<noteq> [] \<and> list_all exact_subopt subs \<and> concat (map subopt_bytes subs) = opt_Data opt"
proof
  assume dec: "DecodeRelayAgentInformationOption opt = Some subs"
  then have "opt_Data opt \<noteq> []"
    by (auto simp: DecodeRelayAgentInformationOption_def decode_subopts.simps)
  with decode_subopts_sound [of None "opt_Data opt" subs] dec
  show "subs \<noteq> [] \<and> list_all exact_subopt subs \<and> concat (map subopt_bytes subs) = opt_Data opt"
    by (auto simp: DecodeRelayAgentInformationOption_def)
next
  assume "subs \<noteq> [] \<and> list_all exact_subopt subs \<and> concat (map subopt_bytes subs) = opt_Data opt"
  then show "DecodeRelayAgentInformationOption opt = Some subs"
    using decode_subopts_concat [of subs None]
    by (simp add: DecodeRelayAgentInformationOption_def slice_append_def)
qed

lemma EncodeRelayAgentInformationOption_eq:
  assumes "gopacket_ok gp"
  shows "EncodeRelayAgentInformationOption gp subs =
     (if (\<exists>sub \<in> set subs. opt_Length sub = 0) \<or> subopts_size subs > 255 then zero_option
      else \<lparr>opt_Type = 82, opt_Length = of_nat (subopts_size subs), opt_Data = concat (map subopt_bytes subs)\<rparr>)"
  by (simp add: EncodeRelayAgentInformationOption_def encode_subopts_eq NewDHCPOption_ok [OF assms]
      subopts_size_def specs_defs subopt_defs)

lemma subopts_size_simps [simp]:
  "subopts_size [] = 0"
  "subopts_size (sub # subs) = 2 + length (opt_Data sub) + subopts_size subs"
  by (simp_all add: subopts_size_def subopt_bytes_def)

lemma subopts_size_pos: "subs \<noteq> [] \<Longrightarrow> 0 < subopts_size subs"
  by (cases subs) simp_all

lemma of_nat_u8_pos: "0 < n \<Longrightarrow> n \<le> 255 \<Longrightarrow> (0 :: u8) < of_nat n"
  by (simp add: word_less_nat_alt unat_of_nat)

lemma IsOption_Encode_iff:
  assumes "gopacket_ok gp"
  shows "IsOption (EncodeRelayAgentInformationOption gp subs) \<longleftrightarrow>
     subs \<noteq> [] \<and> (\<forall>sub \<in> set subs. opt_Length sub \<noteq> 0) \<and> subopts_size subs \<le> 255"
proof (cases "subs = []")
  case True
  then show ?thesis by (simp add: EncodeRelayAgentInformationOption_eq [OF assms] IsOption_def)
next
  case False
  then show ?thesis
    using subopts_size_pos [OF False] of_nat_u8_pos [of "subopts_size subs"]
    by (auto simp: EncodeRelayAgentInformationOption_eq [OF assms] IsOption_def)
qed

lemma Decode_Encode:
  assumes "gopacket_ok gp" and "IsOption (EncodeRelayAgentInformationOption gp subs)"
    and "list_all exact_subopt subs"
  shows "DecodeRelayAgentInformationOption (EncodeRelayAgentInformationOption gp subs) = Some subs"
  using assms(2,3)
  unfolding IsOption_Encode_iff [OF assms(1)]
  by (auto simp: DecodeRelayAgentInformationOption_iff EncodeRelayAgentInformationOption_eq [OF assms(1)])

lemma Encode_type: "gopacket_ok gp \<Longrightarrow> IsOption (EncodeRelayAgentInformationOption gp subs) \<Longrightarrow>
   opt_Type (EncodeRelayAgentInformationOption gp subs) = RelayAgentInformation"
  by (simp only: IsOption_Encode_iff) (auto simp: EncodeRelayAgentInformationOption_eq subopt_defs)

lemma Encode_data_ne: "gopacket_ok gp \<Longrightarrow> IsOption (EncodeRelayAgentInformationOption gp subs) \<Longrightarrow>
   opt_Data (EncodeRelayAgentInformationOption gp subs) \<noteq> []"
  by (simp only: IsOption_Encode_iff, cases subs)
    (auto simp: EncodeRelayAgentInformationOption_eq subopt_bytes_def)

subsection \<open>The sub-options the relay creates\<close>

lemma string_bytes_inverse [simp]: "string_of_bytes (bytes_of_string s) = s"
  by (simp add: string_of_bytes_def bytes_of_string_def comp_def unat_of_nat)

lemma length_bytes_of_string [simp]: "length (bytes_of_string s) = length s"
  by (simp add: bytes_of_string_def)

lemma length_circuit_digits: "length (FormatUint (unat (v :: u32))) \<le> 10"
proof (rule length_FormatUint)
  show "unat v < 10 ^ 10" using unat_u32_less [of v] by simp
qed simp

lemma wf_circuit_id [simp, intro]: "wf_subopt (CreateAgentCircuitIDSubOption v)"
  using length_circuit_digits [of v]
  by (auto simp: wf_subopt_def exact_subopt_def CreateAgentCircuitIDSubOption_def Let_def unat_of_nat
      bytes_of_string_def)

lemma opt_Type_circuit_id [simp]: "opt_Type (CreateAgentCircuitIDSubOption v) = AgentCircuitIDSubOption"
  by (simp add: CreateAgentCircuitIDSubOption_def Let_def)

lemma length_circuit_id: "length (opt_Data (CreateAgentCircuitIDSubOption v)) \<le> MaxAgentCircuitIDSize"
  using length_circuit_digits [of v]
  by (simp add: CreateAgentCircuitIDSubOption_def Let_def MaxAgentCircuitIDSize_def)

lemma Extract_circuit_id [simp]:
  "ExtractAgentCircuitIDSubOptionData (CreateAgentCircuitIDSubOption v # subs) = int (unat v)"
proof -
  have "unat v < 2 ^ 63" using unat_u32_less [of v] by simp
  then show ?thesis
    by (simp add: CreateAgentCircuitIDSubOption_def Let_def Atoi_FormatUint)
qed

declare ExtractAgentCircuitIDSubOptionData.simps [simp del]

lemma wf_policy_tag:
  "0 < length tag \<Longrightarrow> length tag \<le> 253 \<Longrightarrow> wf_subopt (CreatePolicyTagSubOption tag)"
  by (auto simp: wf_subopt_def exact_subopt_def CreatePolicyTagSubOption_def specs_defs unat_of_nat)

lemma wf_link_selection:
  "To4 subnet \<noteq> None \<Longrightarrow> wf_subopt (CreateLinkSelectionSubOption subnet)"
  by (auto simp: wf_subopt_def exact_subopt_def CreateLinkSelectionSubOption_def To4_def Let_def
      split: if_splits)

lemma length_policy_tag: "length (opt_Data (CreatePolicyTagSubOption tag)) \<le> length tag"
  by (simp add: CreatePolicyTagSubOption_def)

lemma Extract_policy_tag:
  "0 < length tag \<Longrightarrow> length tag \<le> 253 \<Longrightarrow>
   ExtractPolicyTagSubOptionData (CreatePolicyTagSubOption tag # subs) = Some tag"
  by (auto simp: CreatePolicyTagSubOption_def specs_defs slice_append_def)

lemma Extract_policy_tag_skip:
  "opt_Type sub \<noteq> PolicyTagSubOption \<Longrightarrow>
   ExtractPolicyTagSubOptionData (sub # subs) = ExtractPolicyTagSubOptionData subs"
  by simp

lemma circuit_id_not_tag [simp]: "AgentCircuitIDSubOption \<noteq> PolicyTagSubOption"
  by (simp add: subopt_defs)

subsection \<open>Properties\<close>

definition sample_gopacket :: gopacket where
  "sample_gopacket =
     \<lparr>NewDHCPOption = (\<lambda>t data. \<lparr>opt_Type = t, opt_Length = of_nat (length data), opt_Data = data\<rparr>),
      DHCPMsgType_String = (\<lambda>_. ''Discover''), DHCPv4_Len = (\<lambda>_. 300),
      SerializeLayers = (\<lambda>ls. Some (concat (map (\<lambda>l. case l of
        LDHCPv4 d \<Rightarrow> RelayHops d # elems (RelayAgentIP d) | _ \<Rightarrow> [0]) ls))), decode_dhcpv4 = (\<lambda>_. None),
      IPv4_VerifyChecksum = (\<lambda>_. True), UDP_VerifyChecksum = (\<lambda>_. True),
      bind_udp_checksum = (\<lambda>_ _. True)\<rparr>"

lemma sample_gopacket_ok: "gopacket_ok sample_gopacket"
  by (simp add: gopacket_ok_def sample_gopacket_def list_all_iff)

text \<open>
  C20: the encoder is total and exact. It yields an option precisely for a non-empty list of sub-options none of which is the zero
  sub-option and whose bytes fit in 255, and decoding that option gives the sub-options back.
\<close>

theorem Encode_Decode_roundtrip:
  assumes "gopacket_ok gp" and "list_all exact_subopt subs"
  shows "IsOption (EncodeRelayAgentInformationOption gp subs) =
      (subs \<noteq> [] \<and> (\<forall>sub \<in> set subs. opt_Length sub \<noteq> 0) \<and> subopts_size subs \<le> 255) \<and>
    (IsOption (EncodeRelayAgentInformationOption gp subs) \<longrightarrow>
      opt_Type (EncodeRelayAgentInformationOption gp subs) = RelayAgentInformation \<and>
      DecodeRelayAgentInformationOption (EncodeRelayAgentInformationOption gp subs) = Some subs)"
  using IsOption_Encode_iff [OF assms(1)] Encode_type [OF assms(1)] Decode_Encode [OF assms(1) _ assms(2)]
  by blast

theorem Encode_Decode_roundtrip_witness:
  "DecodeRelayAgentInformationOption
     (EncodeRelayAgentInformationOption sample_gopacket
        [\<lparr>opt_Type = 1, opt_Length = 1, opt_Data = [55]\<rparr>, \<lparr>opt_Type = 224, opt_Length = 2, opt_Data = [1, 2]\<rparr>]) =
   Some [\<lparr>opt_Type = 1, opt_Length = 1, opt_Data = [55]\<rparr>, \<lparr>opt_Type = 224, opt_Length = 2, opt_Data = [1, 2]\<rparr>]"
proof -
  let ?subs = "[\<lparr>opt_Type = 1, opt_Length = 1, opt_Data = [55]\<rparr>, \<lparr>opt_Type = 224, opt_Length = 2, opt_Data = [1, 2]\<rparr>]"
  have "list_all exact_subopt ?subs" by (simp add: exact_subopt_def)
  from Encode_Decode_roundtrip [OF sample_gopacket_ok this] show ?thesis by simp
qed

text \<open>
  C21: the decoder accepts exactly the byte strings that are a non-empty sequence of complete sub-options and
  returns that sequence; a truncated header or a length byte that runs past the end rejects the whole option, so no partial parse
  is ever returned.
\<close>

theorem Decode_complete:
  "(DecodeRelayAgentInformationOption opt = Some subs) =
     (subs \<noteq> [] \<and> list_all exact_subopt subs \<and> concat (map subopt_bytes subs) = opt_Data opt)"
  by (rule DecodeRelayAgentInformationOption_iff)

text \<open>
  Re-encoding what the decoder returned reproduces the option byte for byte, provided it holds no empty
  sub-option and is no longer than an option may be.
\<close>

lemma Decode_Encode_roundtrip:
  assumes "gopacket_ok gp" and "DecodeRelayAgentInformationOption opt = Some subs"
    and "\<forall>sub \<in> set subs. opt_Length sub \<noteq> 0" and "length (opt_Data opt) \<le> 255"
  shows "EncodeRelayAgentInformationOption gp subs =
    \<lparr>opt_Type = RelayAgentInformation, opt_Length = of_nat (length (opt_Data opt)), opt_Data = opt_Data opt\<rparr>"
proof -
  have "concat (map subopt_bytes subs) = opt_Data opt"
    using assms(2) by (simp add: DecodeRelayAgentInformationOption_iff)
  then show ?thesis
    using assms(3,4)
    by (auto simp: EncodeRelayAgentInformationOption_eq [OF assms(1)] subopts_size_def subopt_defs)
qed

text \<open>
  C33: a policy tag of at most \<open>MaxPolicyTagSize\<close> (241) bytes always fits beside the Agent Circuit ID and comes back unchanged
  from the decoded option, and the bound is the largest with that property: a tag of one byte more does not fit beside a ten digit circuit ID.
\<close>

theorem policy_tag_fits:
  assumes "gopacket_ok gp" and "0 < length tag" and "length tag \<le> MaxPolicyTagSize"
  shows "IsOption (EncodeRelayAgentInformationOption gp
      [CreateAgentCircuitIDSubOption v, CreatePolicyTagSubOption tag]) \<and>
    ExtractPolicyTagSubOptionData (elems (DecodeRelayAgentInformationOption
      (EncodeRelayAgentInformationOption gp
        [CreateAgentCircuitIDSubOption v, CreatePolicyTagSubOption tag]))) = Some tag \<and>
    (\<forall>big. length big = Suc MaxPolicyTagSize \<longrightarrow>
       \<not> IsOption (EncodeRelayAgentInformationOption gp
           [CreateAgentCircuitIDSubOption 4294967295, CreatePolicyTagSubOption big]))"
proof (intro conjI allI impI)
  let ?subs = "[CreateAgentCircuitIDSubOption v, CreatePolicyTagSubOption tag]"
  have len: "length tag \<le> 253" using assms(3) by (simp add: subopt_defs specs_defs)
  have wf: "wf_subopt (CreatePolicyTagSubOption tag)" using assms(2) len by (rule wf_policy_tag)
  have "subopts_size ?subs \<le> 255"
    using length_circuit_id [of v] length_policy_tag [of tag] assms(3)
    by (simp add: subopt_defs specs_defs)
  then show fits: "IsOption (EncodeRelayAgentInformationOption gp ?subs)"
    using wf_subopt_Length [OF wf] wf_subopt_Length [OF wf_circuit_id]
    by (simp add: IsOption_Encode_iff [OF assms(1)])
  have "DecodeRelayAgentInformationOption (EncodeRelayAgentInformationOption gp ?subs) = Some ?subs"
    by (rule Decode_Encode [OF assms(1) fits]) (simp add: wf_exact wf)
  then show "ExtractPolicyTagSubOptionData (elems (DecodeRelayAgentInformationOption
      (EncodeRelayAgentInformationOption gp ?subs))) = Some tag"
    using Extract_policy_tag [OF assms(2) len] by (simp add: Extract_policy_tag_skip)
  fix big :: bytes
  assume big: "length big = Suc MaxPolicyTagSize"
  have "length (FormatUint 4294967295) = 10"
    by (simp add: FormatUint.simps)
  then have "subopts_size [CreateAgentCircuitIDSubOption 4294967295, CreatePolicyTagSubOption big] = 256"
    using big by (simp add: CreateAgentCircuitIDSubOption_def CreatePolicyTagSubOption_def subopt_defs specs_defs Let_def)
  then show "\<not> IsOption (EncodeRelayAgentInformationOption gp
           [CreateAgentCircuitIDSubOption 4294967295, CreatePolicyTagSubOption big])"
    unfolding IsOption_Encode_iff [OF assms(1)] by linarith
qed

theorem policy_tag_fits_witness:
  "IsOption (EncodeRelayAgentInformationOption sample_gopacket
      [CreateAgentCircuitIDSubOption 7, CreatePolicyTagSubOption (replicate 241 1)])"
  using policy_tag_fits [OF sample_gopacket_ok, of "replicate 241 1" 7]
  by (simp add: subopt_defs specs_defs)

end
