(* ===== verification/Handle_Types.thy ===== *)
theory Handle_Types
  imports Ifcache Dhcp_Options Opt82
begin

text \<open>
  The types that thread the packet handlers: \<^verbatim>\<open>HandleOptions\<close> and \<^verbatim>\<open>Decision\<close> of \<^verbatim>\<open>pkg/dhcp4/dhcp4.go\<close>, the reply types of
  \<^verbatim>\<open>pkg/dhcp4/const.go\<close>, the identification generator of \<^verbatim>\<open>pkg/dhcp4/random.go\<close>, and the contract of the
  \<^verbatim>\<open>LinkSubnetLookup\<close> interface. The logger and the packet connection of the options are the effects and the host.
\<close>

type_synonym link_lookup = "string \<Rightarrow> string \<Rightarrow> ip \<times> bool"

record HandleOptions =
  ReplyInterfaceCache :: "InterfaceCache option"
  LinkMap :: "link_lookup option"
  DHCPServerAddress :: string
  Giaddr :: ip
  MaxHops :: u8
  BroadcastReplyL2Unicast :: bool
  ReplyTTL :: u8

record Decision =
  ServerAddress :: string
  PolicyTag :: "u8 slice"
  ReplyNICMatch :: "(string \<Rightarrow> string \<Rightarrow> bool) option"
  ReplySubOpts :: "dhcp_option slice"
  DropReply :: bool

definition zero_decision :: Decision where
  "zero_decision =
     \<lparr>ServerAddress = [], PolicyTag = None, ReplyNICMatch = None, ReplySubOpts = None, DropReply = False\<rparr>"

definition logDataInPrefix :: string where "logDataInPrefix = ''-->''"
definition logDataOutPrefix :: string where "logDataOutPrefix = ''<--''"

text \<open>\<^verbatim>\<open>ReplyType\<close> is a byte with two named values.\<close>

type_synonym ReplyType = u8

definition UnicastReply :: ReplyType where "UnicastReply = 0"
definition BroadcastReply :: ReplyType where "BroadcastReply = 1"

text \<open>
  \<^verbatim>\<open>GenerateRandomIPv4ID\<close> reads two random bytes until a read succeeds; \<open>read i\<close> is the answer of the \<open>i\<close>-th read. It
  does not return, the value \<open>None\<close>, only when every read fails.
\<close>

partial_function (option) GenerateRandomIPv4ID :: "(nat \<Rightarrow> (u8 \<times> u8) option) \<Rightarrow> nat \<Rightarrow> u16 option" where
  "GenerateRandomIPv4ID read i =
     (case read i of
        None \<Rightarrow> GenerateRandomIPv4ID read (i + 1)
      | Some (b0, b1) \<Rightarrow> Some (push_bit 8 (ucast b0) OR ucast b1))"

lemma GenerateRandomIPv4ID_returns:
  assumes "read k \<noteq> None" "i \<le> k"
  shows "\<exists>x. GenerateRandomIPv4ID read i = Some x"
  using assms(2)
proof (induction "k - i" arbitrary: i)
  case 0
  then show ?case using assms(1) by (subst GenerateRandomIPv4ID.simps) auto
next
  case (Suc n)
  then have "n = k - (i + 1)" "i + 1 \<le> k" by simp_all
  from Suc.hyps(1) [OF this] show ?case
    by (subst GenerateRandomIPv4ID.simps) (auto split: option.split)
qed

subsection \<open>The link subnet interface\<close>

text \<open>
  What the request path relies on when it looks a NIC up: a subnet that is found is a four byte IPv4 address.
\<close>

definition four_byte_lookup :: "link_lookup \<Rightarrow> bool" where
  "four_byte_lookup look \<longleftrightarrow>
     (\<forall>name mac n. look name mac = (n, True) \<longrightarrow> (\<exists>b. n = Some b \<and> length b = 4))"

text \<open>
  The \<^verbatim>\<open>LinkSubnetLookup\<close> contract of a provider with state: in a live state it answers with four byte subnets only.
  From this the Link Selection sub-option can always be built, takes six bytes, and reads back.
\<close>

locale link_subnets =
  fixes lookup :: "'m \<Rightarrow> link_lookup"
    and live :: "'m \<Rightarrow> bool"
  assumes found_four: "live m \<Longrightarrow> lookup m name mac = (n, True) \<Longrightarrow> \<exists>b. n = Some b \<and> length b = 4"
begin

lemma live_four_byte: "live m \<Longrightarrow> four_byte_lookup (lookup m)"
  using found_four by (auto simp: four_byte_lookup_def)

lemma link_selection_ok:
  assumes "live m" "lookup m name mac = (n, True)"
  shows "wf_subopt (CreateLinkSelectionSubOption n) \<and>
         ExtractLinkSelectionSubOptionData [CreateLinkSelectionSubOption n] = n"
proof -
  obtain b where "n = Some b" "length b = 4" using found_four [OF assms] by blast
  then show ?thesis
    using wf_link_selection [of n] by (simp add: CreateLinkSelectionSubOption_def)
qed

end

end
