(* ===== verification/Addrs.thy ===== *)
theory Addrs
  imports Handle_Types
begin

text \<open>
  Address selection: \<^verbatim>\<open>pkg/dhcp4/addrs.go\<close>. An error of the operating system is \<open>None\<close>.
\<close>

definition IsGlobalUnicastIPv4 :: "ip \<Rightarrow> bool" where
  "IsGlobalUnicastIPv4 a \<longleftrightarrow> To4 a \<noteq> None \<and> IsGlobalUnicast a"

definition InterfaceGlobalUnicastAddrs4 :: "host \<Rightarrow> Interface \<Rightarrow> ipnet list option" where
  "InterfaceGlobalUnicastAddrs4 h ifi =
     (case Interface_Addrs h ifi of
        None \<Rightarrow> None
      | Some addrs \<Rightarrow>
          Some (List.map_filter
            (\<lambda>addr. case addr of
                 IPNet v \<Rightarrow> (if \<not> IsGlobalUnicastIPv4 (IP v) then None else Some v)
               | _ \<Rightarrow> None) addrs))"

definition GetInterfaceGlobalUnicastAddrs4 :: "host \<Rightarrow> int \<Rightarrow> ipnet list option" where
  "GetInterfaceGlobalUnicastAddrs4 h ifIndex =
     (if ifIndex = 0 then Some []
      else case InterfaceByIndex h ifIndex of
        None \<Rightarrow> None
      | Some ifi \<Rightarrow> InterfaceGlobalUnicastAddrs4 h ifi)"

fun local_addr_loop :: "ip \<Rightarrow> net_addr list \<Rightarrow> bool" where
  "local_addr_loop v4 [] = False"
| "local_addr_loop v4 (addr # addrs) =
     (case addr of
        IPNet ipnet \<Rightarrow>
          (if To4 (IP ipnet) = None \<or> \<not> IsGlobalUnicast (IP ipnet) then local_addr_loop v4 addrs
           else if IP_Equal (To4 (IP ipnet)) v4 then True
           else local_addr_loop v4 addrs)
      | _ \<Rightarrow> local_addr_loop v4 addrs)"

definition IsRelayLocalAddr :: "host \<Rightarrow> ip \<Rightarrow> bool" where
  "IsRelayLocalAddr h a =
     (let v4 = To4 a in
      if v4 = None \<or> IsUnspecified v4 then False
      else case InterfaceAddrs h of
        None \<Rightarrow> False
      | Some addrs \<Rightarrow> local_addr_loop v4 addrs)"

definition GiaddrIsLocal :: "host \<Rightarrow> HandleOptions \<Rightarrow> ip \<Rightarrow> bool" where
  "GiaddrIsLocal h cfg a \<longleftrightarrow> IsRelayLocalAddr h a \<or> (Giaddr cfg \<noteq> None \<and> IP_Equal (Giaddr cfg) a)"

definition BestUnicastSrc :: "ipnet list \<Rightarrow> ip \<Rightarrow> ip" where
  "BestUnicastSrc addrs yiaddr =
     (if addrs = [] then None
      else
        (let yi4 = To4 yiaddr in
         case (if length (elems yiaddr) \<noteq> 0 \<and> yi4 \<noteq> None
               then find (\<lambda>a. To4 (IP a) \<noteq> None \<and> Contains a yi4) addrs else None) of
           Some a \<Rightarrow> To4 (IP a)
         | None \<Rightarrow> To4 (IP (hd addrs))))"

subsection \<open>Lemmas\<close>

lemma InterfaceGlobalUnicastAddrs4_set:
  assumes "InterfaceGlobalUnicastAddrs4 h ifi = Some out"
  shows "\<exists>addrs. Interface_Addrs h ifi = Some addrs \<and>
           (\<forall>n. n \<in> set out \<longleftrightarrow> IPNet n \<in> set addrs \<and> IsGlobalUnicastIPv4 (IP n))"
proof -
  obtain addrs where addrs: "Interface_Addrs h ifi = Some addrs"
    and out: "out = List.map_filter
            (\<lambda>addr. case addr of
                 IPNet v \<Rightarrow> (if \<not> IsGlobalUnicastIPv4 (IP v) then None else Some v)
               | _ \<Rightarrow> None) addrs"
    using assms by (auto simp: InterfaceGlobalUnicastAddrs4_def split: option.splits)
  have "n \<in> set out \<longleftrightarrow> IPNet n \<in> set addrs \<and> IsGlobalUnicastIPv4 (IP n)" for n
    unfolding out by (force simp: List.map_filter_def split: net_addr.splits if_splits)
  with addrs show ?thesis by blast
qed

lemma local_addr_loop_iff:
  "local_addr_loop (Some v) addrs \<longleftrightarrow>
     (\<exists>n. IPNet n \<in> set addrs \<and> IsGlobalUnicastIPv4 (IP n) \<and> IP_Equal (To4 (IP n)) (Some v))"
proof (induction addrs)
  case Nil
  then show ?case by simp
next
  case (Cons a addrs)
  then show ?case by (cases a) (auto simp: IsGlobalUnicastIPv4_def)
qed

lemma BestUnicastSrc_member:
  assumes "addrs \<noteq> []"
  shows "BestUnicastSrc addrs yi \<in> (\<lambda>a. To4 (IP a)) ` set addrs"
proof -
  have hd: "hd addrs \<in> set addrs" using assms by simp
  then show ?thesis
    using assms by (auto simp: BestUnicastSrc_def Let_def find_Some_iff split: option.splits)
qed

end
