(* ===== verification/Request.thy ===== *)
theory Request
  imports Addrs
begin

text \<open>
  The request path: \<^verbatim>\<open>pkg/dhcp4/request.go\<close>. A handler returns its error, the DHCP message as it leaves it (the code
  works on a pointer) and its effects. \<open>gp\<close> is the packet library and \<open>SortFunc\<close> the sort of the option list.
\<close>

datatype send_error = ResolveFailed string | WriteFailed

datatype request_error =
    HopLimit u8 u8 | InterfaceLookup int | NoAddresses int | NoLinkEntry int string
  | GiaddrDerive int | InvalidCircuitID int | EncodeOption82 int | RequestEncoding | SendFailed send_error

definition EffectiveServerAddress :: "HandleOptions \<Rightarrow> Decision option \<Rightarrow> string" where
  "EffectiveServerAddress cfg dec =
     (case dec of
        Some d \<Rightarrow> (if ServerAddress d \<noteq> [] then ServerAddress d else DHCPServerAddress cfg)
      | None \<Rightarrow> DHCPServerAddress cfg)"

definition server_hostport :: "string \<Rightarrow> string" where
  "server_hostport serverAddr = JoinHostPort serverAddr (FormatUint DHCPv4ServerPort)"

definition SendToServer :: "host \<Rightarrow> string \<Rightarrow> bytes \<Rightarrow> send_error option \<times> effect list" where
  "SendToServer h serverAddr buf =
     (case ResolveUDPAddr h (server_hostport serverAddr) of
        None \<Rightarrow> (Some (ResolveFailed serverAddr), [])
      | Some to \<Rightarrow>
          (case WriteTo h buf to of
             None \<Rightarrow> (Some WriteFailed, [])
           | Some n \<Rightarrow> (None, [SentUDP to buf, Logf Debug ''Sent %d bytes of data to socket''])))"

text \<open>The deadline of the dial is part of what the host answers: an expired dial is an error.\<close>

definition ServerFacingAddr :: "host \<Rightarrow> string \<Rightarrow> ip option" where
  "ServerFacingAddr h serverAddr =
     (case DialContext h (server_hostport serverAddr) of
        None \<Rightarrow> None
      | Some (UDPAddr a port) \<Rightarrow> (if \<not> IsGlobalUnicastIPv4 a then None else Some (To4 a))
      | Some _ \<Rightarrow> None)"

text \<open>The addresses of a numbered ingress, or the override address and the link subnet of an unnumbered one.\<close>

definition ResolveGiaddr ::
  "host \<Rightarrow> HandleOptions \<Rightarrow> Decision option \<Rightarrow> int \<Rightarrow> request_error + (ipnet list \<times> ip \<times> ip)" where
  "ResolveGiaddr h cfg dec ifIndex =
     (case InterfaceByIndex h ifIndex of
        None \<Rightarrow> Inl (InterfaceLookup ifIndex)
      | Some ifi \<Rightarrow>
          (case InterfaceGlobalUnicastAddrs4 h ifi of
             None \<Rightarrow> Inl (InterfaceLookup ifIndex)
           | Some addrs \<Rightarrow>
               (if length addrs > 0 then Inr (addrs, None, None)
                else case LinkMap cfg of
                  None \<Rightarrow> Inl (NoAddresses ifIndex)
                | Some look \<Rightarrow>
                    (let (subnet, ok) = look (IfName ifi) (HardwareAddr_String (HardwareAddr ifi)) in
                     if \<not> ok then Inl (NoLinkEntry ifIndex (IfName ifi))
                     else if Giaddr cfg = None then
                       (case ServerFacingAddr h (EffectiveServerAddress cfg dec) of
                          None \<Rightarrow> Inl (GiaddrDerive ifIndex)
                        | Some a \<Rightarrow> Inr ([], a, subnet))
                     else Inr ([], Giaddr cfg, subnet)))))"

text \<open>The closure \<^verbatim>\<open>send\<close> of the request handler: one copy under one giaddr.\<close>

definition send_copy ::
  "gopacket \<Rightarrow> host \<Rightarrow> string \<Rightarrow> dhcpv4 \<Rightarrow> ip \<Rightarrow> request_error option \<times> dhcpv4 \<times> effect list" where
  "send_copy gp h serverAddr layer0 giaddr =
     (let layer = layer0\<lparr>RelayAgentIP := giaddr\<rparr>;
          logs = [Logf Debug ''Relaying under giaddr=%s'']
      in case SerializeLayers gp [LDHCPv4 layer] of
           None \<Rightarrow> (Some RequestEncoding, layer, logs)
         | Some buf \<Rightarrow>
             (case SendToServer h serverAddr buf of
                (Some err, es) \<Rightarrow> (None, layer, logs @ es @ [Logf Error ''Error sending DHCPv4 relayed message: %v''])
              | (None, es) \<Rightarrow> (None, layer, logs @ es @ [Logf Info logDataOutPrefix])))"

fun send_copies ::
  "gopacket \<Rightarrow> host \<Rightarrow> string \<Rightarrow> dhcpv4 \<Rightarrow> ipnet list \<Rightarrow> request_error option \<times> dhcpv4 \<times> effect list" where
  "send_copies gp h serverAddr layer [] = (None, layer, [])"
| "send_copies gp h serverAddr layer (addr # addrs) =
     (case send_copy gp h serverAddr layer (IP addr) of
        (Some err, l, es) \<Rightarrow> (Some err, l, es)
      | (None, l, es) \<Rightarrow>
          (case send_copies gp h serverAddr l addrs of (r, l', es') \<Rightarrow> (r, l', es @ es')))"

text \<open>The routing sub-options, and the full set with the optional policy tag.\<close>

definition routing_subopts :: "dhcp_option \<Rightarrow> ip \<Rightarrow> dhcp_option list" where
  "routing_subopts subOpt1 linkSubnet =
     [subOpt1] @ (if linkSubnet \<noteq> None then [CreateLinkSelectionSubOption linkSubnet] else [])"

definition full_subopts :: "Decision option \<Rightarrow> dhcp_option list \<Rightarrow> dhcp_option list" where
  "full_subopts dec routing =
     (case dec of
        Some d \<Rightarrow>
          (if length (elems (PolicyTag d)) > 0 then routing @ [CreatePolicyTagSubOption (elems (PolicyTag d))] else routing)
      | None \<Rightarrow> routing)"

definition HandleGenericRequest ::
  "gopacket \<Rightarrow> option_sort \<Rightarrow> host \<Rightarrow> HandleOptions \<Rightarrow> Decision option \<Rightarrow> int \<Rightarrow> dhcpv4 \<Rightarrow>
   request_error option \<times> dhcpv4 \<times> effect list" where
  "HandleGenericRequest gp SortFunc h cfg dec ifIndex layer =
     (if RelayHops layer \<ge> MaxHops cfg then (Some (HopLimit (RelayHops layer) (MaxHops cfg)), layer, [])
      else case ResolveGiaddr h cfg dec ifIndex of
        Inl err \<Rightarrow> (Some err, layer, [])
      | Inr (addrs, override, linkSubnet) \<Rightarrow>
          (let subOpt1 = CreateAgentCircuitIDSubOption (word_of_int ifIndex) in
           if \<not> IsOption subOpt1 then (Some (InvalidCircuitID ifIndex), layer, [])
           else
             (let logs1 = [Logf Debug ''Option 82 -> Sub-option: Type=%d, Len=%d, Data=[% x], ASCII=%s''];
                  routing = routing_subopts subOpt1 linkSubnet;
                  full = full_subopts dec routing;
                  opt82a = EncodeRelayAgentInformationOption gp full;
                  logs2 = (if \<not> IsOption opt82a
                           then [Logf Debug ''Policy tag too large for Option 82, relaying without it''] else []);
                  opt82 = (if \<not> IsOption opt82a then EncodeRelayAgentInformationOption gp routing else opt82a)
              in if \<not> IsOption opt82 then (Some (EncodeOption82 ifIndex), layer, logs1 @ logs2)
                 else
                   (let layer1 = SetOption SortFunc layer opt82;
                        layer2 = layer1\<lparr>RelayHops := RelayHops layer1 + 1\<rparr>;
                        serverAddr = EffectiveServerAddress cfg dec
                    in case (if override \<noteq> None then send_copy gp h serverAddr layer2 override
                             else send_copies gp h serverAddr layer2 addrs) of
                         (r, l, es) \<Rightarrow> (r, l, logs1 @ logs2 @ es)))))"

definition RelayToServer :: "gopacket \<Rightarrow> host \<Rightarrow> string \<Rightarrow> dhcpv4 \<Rightarrow> request_error option \<times> effect list" where
  "RelayToServer gp h dst layer =
     (case SerializeLayers gp [LDHCPv4 layer] of
        None \<Rightarrow> (Some RequestEncoding, [])
      | Some buf \<Rightarrow>
          (case SendToServer h dst buf of
             (Some err, es) \<Rightarrow> (Some (SendFailed err), es)
           | (None, es) \<Rightarrow> (None, es @ [Logf Info logDataOutPrefix])))"

definition ForwardRelayedRequest ::
  "gopacket \<Rightarrow> host \<Rightarrow> HandleOptions \<Rightarrow> Decision option \<Rightarrow> dhcpv4 \<Rightarrow> request_error option \<times> dhcpv4 \<times> effect list" where
  "ForwardRelayedRequest gp h cfg dec layer =
     (if RelayHops layer \<ge> MaxHops cfg then (Some (HopLimit (RelayHops layer) (MaxHops cfg)), layer, [])
      else
        (let layer1 = layer\<lparr>RelayHops := RelayHops layer + 1\<rparr> in
         case RelayToServer gp h (EffectiveServerAddress cfg dec) layer1 of
           (Some err, es) \<Rightarrow> (None, layer1, es @ [Logf Error ''Error sending DHCPv4 relayed message: %v''])
         | (None, es) \<Rightarrow> (None, layer1, es)))"

subsection \<open>Which sub-options are sent\<close>

text \<open>The policy tag goes along exactly when it has a sub-option and fits beside the routing sub-options.\<close>

definition decision_tag :: "Decision option \<Rightarrow> bytes" where
  "decision_tag dec = (case dec of Some d \<Rightarrow> elems (PolicyTag d) | None \<Rightarrow> [])"

definition chosen_subopts :: "Decision option \<Rightarrow> dhcp_option list \<Rightarrow> dhcp_option list" where
  "chosen_subopts dec routing =
     (let tag = decision_tag dec in
      if tag \<noteq> [] \<and> subopts_size routing + 2 + length tag \<le> 255
      then routing @ [CreatePolicyTagSubOption tag] else routing)"

lemma full_subopts_tag:
  "full_subopts dec routing =
     (if decision_tag dec \<noteq> [] then routing @ [CreatePolicyTagSubOption (decision_tag dec)] else routing)"
  by (simp add: full_subopts_def decision_tag_def split: option.splits)

lemma subopts_size_append [simp]: "subopts_size (as @ bs) = subopts_size as + subopts_size bs"
  by (induction as) simp_all

lemma CreatePolicyTag_small:
  assumes "0 < length tag" "length tag \<le> 253"
  shows "opt_Data (CreatePolicyTagSubOption tag) = tag" "opt_Length (CreatePolicyTagSubOption tag) \<noteq> 0"
  using assms wf_subopt_Length [OF wf_policy_tag [OF assms]] by (simp_all add: CreatePolicyTagSubOption_def specs_defs)

lemma CreatePolicyTag_big: "253 < length tag \<Longrightarrow> CreatePolicyTagSubOption tag = zero_option"
  by (simp add: CreatePolicyTagSubOption_def specs_defs)

lemma chosen_subopts_wf:
  assumes "list_all wf_subopt routing" "0 < subopts_size routing"
  shows "list_all wf_subopt (chosen_subopts dec routing)"
  using assms wf_policy_tag [of "decision_tag dec"] by (auto simp: chosen_subopts_def Let_def)

lemma IsOption_Encode_wf:
  assumes "gopacket_ok gp" "list_all wf_subopt subs" "subs \<noteq> []"
  shows "IsOption (EncodeRelayAgentInformationOption gp subs) \<longleftrightarrow> subopts_size subs \<le> 255"
  using assms wf_subopt_Length by (auto simp: IsOption_Encode_iff list_all_iff)

lemma Encode_full_choice:
  assumes gp: "gopacket_ok gp" and wf: "list_all wf_subopt routing" "routing \<noteq> []" "subopts_size routing \<le> 255"
  shows "(if \<not> IsOption (EncodeRelayAgentInformationOption gp (full_subopts dec routing))
          then EncodeRelayAgentInformationOption gp routing
          else EncodeRelayAgentInformationOption gp (full_subopts dec routing)) =
         EncodeRelayAgentInformationOption gp (chosen_subopts dec routing)" (is ?choice)
    and "IsOption (EncodeRelayAgentInformationOption gp (chosen_subopts dec routing))" (is ?ok)
proof -
  let ?tag = "decision_tag dec"
  have pos: "2 \<le> subopts_size routing" using wf(2) by (cases routing) simp_all
  have "?choice \<and> ?ok"
  proof (cases "?tag \<noteq> [] \<and> subopts_size routing + 2 + length ?tag \<le> 255")
    case True
    then have "length ?tag \<le> 253" "0 < length ?tag" using pos by simp_all
    then have "list_all wf_subopt (routing @ [CreatePolicyTagSubOption ?tag])"
      "subopts_size (routing @ [CreatePolicyTagSubOption ?tag]) \<le> 255"
      using wf True wf_policy_tag CreatePolicyTag_small by simp_all
    then show ?thesis
      using True IsOption_Encode_wf [OF gp] by (simp add: full_subopts_tag chosen_subopts_def Let_def)
  next
    case False
    have "\<not> IsOption (EncodeRelayAgentInformationOption gp (full_subopts dec routing))" if "?tag \<noteq> []"
      using False that pos CreatePolicyTag_small [of ?tag] CreatePolicyTag_big [of ?tag]
      by (cases "length ?tag \<le> 253") (simp_all add: full_subopts_tag IsOption_Encode_iff [OF gp])
    then show ?thesis
      using False wf IsOption_Encode_wf [OF gp wf(1,2)] by (auto simp: full_subopts_tag chosen_subopts_def Let_def)
  qed
  then show ?choice ?ok by blast+
qed

lemma routing_wf:
  assumes "linkSubnet = None \<or> To4 linkSubnet \<noteq> None"
  shows "list_all wf_subopt (routing_subopts (CreateAgentCircuitIDSubOption v) linkSubnet)"
    and "subopts_size (routing_subopts (CreateAgentCircuitIDSubOption v) linkSubnet) \<le> 18"
proof -
  have "length (opt_Data (CreateLinkSelectionSubOption n)) = 4" if "To4 n \<noteq> None" for n
    using that by (auto simp: CreateLinkSelectionSubOption_def dest: To4_length)
  then show "list_all wf_subopt (routing_subopts (CreateAgentCircuitIDSubOption v) linkSubnet)"
    "subopts_size (routing_subopts (CreateAgentCircuitIDSubOption v) linkSubnet) \<le> 18"
    using assms wf_link_selection length_circuit_id [of v]
    by (auto simp: routing_subopts_def MaxAgentCircuitIDSize_def)
qed

lemma IsOption_circuit_id [simp]: "IsOption (CreateAgentCircuitIDSubOption v)"
  using wf_subopt_Length [OF wf_circuit_id, of v] by (simp add: IsOption_def word_greater_zero_iff)

subsection \<open>What goes out\<close>

text \<open>The datagram that one message to one server turns into, none when the server or the socket refuses it.\<close>

definition serializes :: "gopacket \<Rightarrow> dhcpv4 \<Rightarrow> bool" where
  "serializes gp layer \<longleftrightarrow> SerializeLayers gp [LDHCPv4 layer] \<noteq> None"

definition deliver :: "gopacket \<Rightarrow> host \<Rightarrow> string \<Rightarrow> dhcpv4 \<Rightarrow> (udp_addr \<times> bytes) list" where
  "deliver gp h serverAddr layer =
     (case (SerializeLayers gp [LDHCPv4 layer], ResolveUDPAddr h (server_hostport serverAddr)) of
        (Some buf, Some to) \<Rightarrow> (if WriteTo h buf to = None then [] else [(to, buf)])
      | _ \<Rightarrow> [])"

text \<open>The relayed form of a request under one giaddr.\<close>

definition relayed ::
  "gopacket \<Rightarrow> option_sort \<Rightarrow> Decision option \<Rightarrow> dhcp_option list \<Rightarrow> dhcpv4 \<Rightarrow> ip \<Rightarrow> dhcpv4" where
  "relayed gp SortFunc dec routing layer giaddr =
     (SetOption SortFunc layer (EncodeRelayAgentInformationOption gp (chosen_subopts dec routing)))
       \<lparr>RelayHops := RelayHops layer + 1, RelayAgentIP := giaddr\<rparr>"

lemma relayed_giaddr [simp]:
  "(relayed gp SortFunc dec routing layer g)\<lparr>RelayAgentIP := a\<rparr> = relayed gp SortFunc dec routing layer a"
  by (simp add: relayed_def)

lemma SendToServer_datagrams:
  assumes "SendToServer h serverAddr buf = (err, es)"
  shows "datagrams es = (case ResolveUDPAddr h (server_hostport serverAddr) of
           Some to \<Rightarrow> (if WriteTo h buf to = None then [] else [(to, buf)]) | None \<Rightarrow> [])"
    and "frames es = []" and "fds_after fds es = fds"
  using assms by (auto simp: SendToServer_def split: option.splits)

lemma send_copy_eq:
  assumes "send_copy gp h serverAddr layer giaddr = (r, l, es)"
  shows "l = layer\<lparr>RelayAgentIP := giaddr\<rparr> \<and> (r = None) = serializes gp l \<and> (r = None \<or> r = Some RequestEncoding) \<and>
    datagrams es = deliver gp h serverAddr l \<and> frames es = []"
proof (cases "SerializeLayers gp [LDHCPv4 (layer\<lparr>RelayAgentIP := giaddr\<rparr>)]")
  case None
  with assms show ?thesis by (auto simp: send_copy_def Let_def serializes_def deliver_def)
next
  case (Some buf)
  obtain err es' where s: "SendToServer h serverAddr buf = (err, es')" by fastforce
  have "l = layer\<lparr>RelayAgentIP := giaddr\<rparr>" "r = None" "datagrams es = datagrams es'" "frames es = frames es'"
    using assms Some s by (auto simp: send_copy_def Let_def split: option.splits)
  with Some SendToServer_datagrams [OF s] show ?thesis
    by (simp add: serializes_def deliver_def split: option.splits)
qed

lemma send_copies_eq:
  assumes "send_copies gp h serverAddr layer addrs = (r, l, es)"
  shows "(r = None) = list_all (\<lambda>a. serializes gp (layer\<lparr>RelayAgentIP := IP a\<rparr>)) addrs \<and>
    (r = None \<or> r = Some RequestEncoding) \<and>
    datagrams es = concat (map (deliver gp h serverAddr)
      (takeWhile (serializes gp) (map (\<lambda>a. layer\<lparr>RelayAgentIP := IP a\<rparr>) addrs))) \<and> frames es = []"
  using assms
proof (induction addrs arbitrary: layer r l es)
  case Nil
  then show ?case by simp
next
  case (Cons a addrs)
  obtain r1 l1 es1 where c: "send_copy gp h serverAddr layer (IP a) = (r1, l1, es1)" by (metis prod_cases3)
  from send_copy_eq [OF c] have one: "l1 = layer\<lparr>RelayAgentIP := IP a\<rparr>" "(r1 = None) = serializes gp l1"
    "r1 = None \<or> r1 = Some RequestEncoding" "datagrams es1 = deliver gp h serverAddr l1" "frames es1 = []"
    by blast+
  show ?case
  proof (cases r1)
    case None
    obtain r2 l2 es2 where rest: "send_copies gp h serverAddr l1 addrs = (r2, l2, es2)" by (metis prod_cases3)
    from Cons.IH [OF rest] Cons.prems c rest None one show ?thesis by auto
  next
    case (Some e)
    then have "\<not> serializes gp (layer\<lparr>RelayAgentIP := IP a\<rparr>)" "deliver gp h serverAddr l1 = []"
      using one by (simp_all add: deliver_def serializes_def)
    with Some Cons.prems c one show ?thesis by auto
  qed
qed

lemma ResolveGiaddr_Inr:
  assumes "ResolveGiaddr h cfg dec ifIndex = Inr (addrs, override, linkSubnet)"
  obtains (numbered) ifi where "InterfaceByIndex h ifIndex = Some ifi" "addrs \<noteq> []"
      "InterfaceGlobalUnicastAddrs4 h ifi = Some addrs" "override = None" "linkSubnet = None"
  | (unnumbered) ifi look where "InterfaceByIndex h ifIndex = Some ifi" "addrs = []"
      "InterfaceGlobalUnicastAddrs4 h ifi = Some []" "LinkMap cfg = Some look"
      "look (IfName ifi) (HardwareAddr_String (HardwareAddr ifi)) = (linkSubnet, True)" "override \<noteq> None"
      "override = Giaddr cfg \<or>
       Giaddr cfg = None \<and> ServerFacingAddr h (EffectiveServerAddress cfg dec) = Some override"
proof -
  obtain ifi as where ifi: "InterfaceByIndex h ifIndex = Some ifi" "InterfaceGlobalUnicastAddrs4 h ifi = Some as"
    using assms by (auto simp: ResolveGiaddr_def split: option.splits)
  have sf: "\<exists>b. a = Some b" if "ServerFacingAddr h srv = Some a" for srv a
    using that by (auto simp: ServerFacingAddr_def IsGlobalUnicastIPv4_def split: option.splits net_addr.splits if_splits)
  show ?thesis
  proof (cases "as = []")
    case False
    with ifi assms show ?thesis by (intro numbered [of ifi]) (auto simp: ResolveGiaddr_def)
  next
    case True
    with ifi assms show ?thesis
      by (intro unnumbered [of ifi "the (LinkMap cfg)"])
        (auto simp: ResolveGiaddr_def intro: sf split: option.splits if_splits prod.splits)
  qed
qed

subsection \<open>Properties\<close>

definition link_map_ok :: "HandleOptions \<Rightarrow> bool" where
  "link_map_ok cfg \<longleftrightarrow> pred_option four_byte_lookup (LinkMap cfg)"

lemma ResolveGiaddr_subnet:
  assumes "link_map_ok cfg" "ResolveGiaddr h cfg dec ifIndex = Inr (addrs, override, linkSubnet)"
  shows "linkSubnet = None \<or> To4 linkSubnet \<noteq> None"
  using assms(2)
proof (cases rule: ResolveGiaddr_Inr)
  case (unnumbered ifi look)
  then have "four_byte_lookup look" using assms(1) by (simp add: link_map_ok_def)
  with unnumbered(5) show ?thesis by (force simp: four_byte_lookup_def)
qed simp

lemma RelayHops_SetOption [simp]: "RelayHops (SetOption SortFunc layer opt) = RelayHops layer"
  by (simp add: SetOption_def)

definition request_routing :: "int \<Rightarrow> ip \<Rightarrow> dhcp_option list" where
  "request_routing ifIndex linkSubnet =
     routing_subopts (CreateAgentCircuitIDSubOption (word_of_int ifIndex)) linkSubnet"

lemma HandleGenericRequest_sends:
  assumes gp: "gopacket_ok gp" and hops: "RelayHops layer < MaxHops cfg"
    and res: "ResolveGiaddr h cfg dec ifIndex = Inr (addrs, override, linkSubnet)"
    and sub: "linkSubnet = None \<or> To4 linkSubnet \<noteq> None"
  obtains logs where "datagrams logs = []" "frames logs = []"
    "HandleGenericRequest gp SortFunc h cfg dec ifIndex layer =
       (case (if override \<noteq> None
              then send_copy gp h (EffectiveServerAddress cfg dec)
                (relayed gp SortFunc dec (request_routing ifIndex linkSubnet) layer (RelayAgentIP layer)) override
              else send_copies gp h (EffectiveServerAddress cfg dec)
                (relayed gp SortFunc dec (request_routing ifIndex linkSubnet) layer (RelayAgentIP layer)) addrs) of
          (r, l, es) \<Rightarrow> (r, l, logs @ es))"
proof -
  let ?routing = "request_routing ifIndex linkSubnet"
  let ?opt = "EncodeRelayAgentInformationOption gp"
  have wf: "list_all wf_subopt ?routing" "subopts_size ?routing \<le> 18" "?routing \<noteq> []"
    using routing_wf [OF sub, of "word_of_int ifIndex"] by (simp_all add: request_routing_def routing_subopts_def)
  have choice: "(if \<not> IsOption (?opt (full_subopts dec ?routing)) then ?opt ?routing else ?opt (full_subopts dec ?routing)) =
      ?opt (chosen_subopts dec ?routing)" "IsOption (?opt (chosen_subopts dec ?routing))"
    using Encode_full_choice [OF gp wf(1,3), of dec] wf(2) by simp_all
  have layer2: "(SetOption SortFunc layer (?opt (chosen_subopts dec ?routing)))\<lparr>RelayHops := RelayHops layer + 1\<rparr> =
      relayed gp SortFunc dec ?routing layer (RelayAgentIP layer)"
    by (simp add: relayed_def SetOption_def)
  have nle: "\<not> MaxHops cfg \<le> RelayHops layer" using hops by simp
  define logs where "logs = [Logf Debug ''Option 82 -> Sub-option: Type=%d, Len=%d, Data=[% x], ASCII=%s''] @
    (if \<not> IsOption (?opt (full_subopts dec ?routing))
     then [Logf Debug ''Policy tag too large for Option 82, relaying without it''] else [])"
  have "HandleGenericRequest gp SortFunc h cfg dec ifIndex layer =
       (case (if override \<noteq> None
              then send_copy gp h (EffectiveServerAddress cfg dec) (relayed gp SortFunc dec ?routing layer (RelayAgentIP layer)) override
              else send_copies gp h (EffectiveServerAddress cfg dec) (relayed gp SortFunc dec ?routing layer (RelayAgentIP layer)) addrs) of
          (r, l, es) \<Rightarrow> (r, l, logs @ es))"
    using nle res choice(2)
    by (simp only: HandleGenericRequest_def Let_def request_routing_def [symmetric] logs_def choice(1)
        RelayHops_SetOption layer2 append_assoc if_False if_True sum.case prod.case IsOption_circuit_id not_True_eq_False not_False_eq_True)
  then show ?thesis by (intro that [of logs]) (simp_all add: logs_def)
qed

text \<open>
  C7: a client request below the hop limit whose ingress resolves is relayed as one copy per global unicast address of
  the ingress, in order and with that address as giaddr, or on an unnumbered ingress as one copy under the override
  address. Copies that the socket refuses are skipped, a copy that cannot be serialized ends the request, and in every
  other case, hop limit or resolution error, the message is unchanged and nothing is sent. No frame is ever sent.
\<close>

theorem request_copies:
  assumes "gopacket_ok gp" and "link_map_ok cfg"
  shows "case HandleGenericRequest gp SortFunc h cfg dec ifIndex layer of (err, l, es) \<Rightarrow>
    frames es = [] \<and>
    (if MaxHops cfg \<le> RelayHops layer
     then err = Some (HopLimit (RelayHops layer) (MaxHops cfg)) \<and> l = layer \<and> datagrams es = []
     else case ResolveGiaddr h cfg dec ifIndex of
       Inl e \<Rightarrow> err = Some e \<and> l = layer \<and> datagrams es = []
     | Inr (addrs, override, linkSubnet) \<Rightarrow>
         (let copies = map (relayed gp SortFunc dec (request_routing ifIndex linkSubnet) layer)
                (if addrs = [] then [override] else map IP addrs)
          in (err = None) = list_all (serializes gp) copies \<and>
             datagrams es = concat (map (deliver gp h (EffectiveServerAddress cfg dec))
               (takeWhile (serializes gp) copies))))"
proof (cases "MaxHops cfg \<le> RelayHops layer")
  case True
  then show ?thesis by (simp add: HandleGenericRequest_def)
next
  case hops: False
  show ?thesis
  proof (cases "ResolveGiaddr h cfg dec ifIndex")
    case (Inl e)
    with hops show ?thesis by (simp add: HandleGenericRequest_def)
  next
    case (Inr x)
    obtain addrs override linkSubnet where x: "x = (addrs, override, linkSubnet)" by (metis prod_cases3)
    note res = Inr [unfolded x]
    let ?srv = "EffectiveServerAddress cfg dec"
    let ?rel = "relayed gp SortFunc dec (request_routing ifIndex linkSubnet) layer"
    have lt: "RelayHops layer < MaxHops cfg" using hops by simp
    from HandleGenericRequest_sends [OF assms(1) lt res ResolveGiaddr_subnet [OF assms(2) res]]
    obtain logs where logs: "datagrams logs = []" "frames logs = []"
      and hgr: "HandleGenericRequest gp SortFunc h cfg dec ifIndex layer =
        (case (if override \<noteq> None then send_copy gp h ?srv (?rel (RelayAgentIP layer)) override
               else send_copies gp h ?srv (?rel (RelayAgentIP layer)) addrs) of (r, l, es) \<Rightarrow> (r, l, logs @ es))" .
    from res show ?thesis
    proof (cases rule: ResolveGiaddr_Inr)
      case (numbered ifi)
      obtain r l es where sc: "send_copies gp h ?srv (?rel (RelayAgentIP layer)) addrs = (r, l, es)" by (metis prod_cases3)
      from send_copies_eq [OF sc] numbered hops res logs hgr sc show ?thesis
        by (simp add: list_all_iff comp_def)
    next
      case (unnumbered ifi look)
      obtain r l es where sc: "send_copy gp h ?srv (?rel (RelayAgentIP layer)) override = (r, l, es)" by (metis prod_cases3)
      from send_copy_eq [OF sc] unnumbered hops res logs hgr sc show ?thesis
        by (auto simp: deliver_def serializes_def)
    qed
  qed
qed

definition sample_net :: ipnet where
  "sample_net = \<lparr>IP = Some [10, 0, 0, 1], Mask = [255, 255, 255, 0]\<rparr>"

definition sample_host :: host where
  "sample_host =
     \<lparr>InterfaceByIndex = (\<lambda>i. if i = 7 then Some sample_nic else None),
      Interface_Addrs = (\<lambda>_. Some [IPNet sample_net, IPAddr (Some [127, 0, 0, 1])]),
      InterfaceAddrs = Some [IPNet sample_net], net_Interfaces = Some [sample_nic],
      ResolveUDPAddr = (\<lambda>_. Some (Some [192, 0, 2, 1], 67)), WriteTo = (\<lambda>b to. Some (length b)),
      DialContext = (\<lambda>_. Some (UDPAddr (Some [10, 0, 0, 1]) 4000)),
      kern = sample_kernel, rand_Read = (\<lambda>_. Some (0, 1)), clock = (\<lambda>_. 0)\<rparr>"

definition sample_options :: HandleOptions where
  "sample_options =
     \<lparr>ReplyInterfaceCache = None, LinkMap = None, DHCPServerAddress = ''192.0.2.1'', Giaddr = None,
      MaxHops = 16, BroadcastReplyL2Unicast = False, ReplyTTL = 1\<rparr>"

lemma sample_resolve: "ResolveGiaddr sample_host sample_options None 7 = Inr ([sample_net], None, None)"
  by (simp add: ResolveGiaddr_def sample_host_def InterfaceGlobalUnicastAddrs4_def sample_net_def
      List.map_filter_simps IsGlobalUnicastIPv4_def IsGlobalUnicast_four)

theorem request_copies_witness:
  "gopacket_ok sample_gopacket \<and> link_map_ok sample_options \<and>
   (case HandleGenericRequest sample_gopacket (sort_key opt_Type) sample_host sample_options None 7 sample_dhcpv4 of
      (err, l, es) \<Rightarrow> err = None \<and> datagrams es = [((Some [192, 0, 2, 1], 67), [1, 10, 0, 0, 1])])"
proof -
  have ok: "link_map_ok sample_options" by (simp add: link_map_ok_def sample_options_def)
  have ser: "serializes sample_gopacket l" for l by (simp add: serializes_def sample_gopacket_def)
  have del: "deliver sample_gopacket sample_host srv l = [((Some [192, 0, 2, 1], 67), RelayHops l # elems (RelayAgentIP l))]"
    for srv l by (simp add: deliver_def sample_gopacket_def sample_host_def)
  have hops: "\<not> MaxHops sample_options \<le> RelayHops sample_dhcpv4" "RelayHops sample_dhcpv4 = 0"
    by (simp_all add: sample_options_def sample_dhcpv4_def)
  obtain err l es where run: "HandleGenericRequest sample_gopacket (sort_key opt_Type) sample_host sample_options None 7
      sample_dhcpv4 = (err, l, es)" by (metis prod_cases3)
  from request_copies [OF sample_gopacket_ok ok, where SortFunc = "sort_key opt_Type" and h = sample_host and dec = None
      and ifIndex = 7 and layer = sample_dhcpv4] run hops
  have "err = None" "datagrams es = [((Some [192, 0, 2, 1], 67), [1, 10, 0, 0, 1])]"
    by (simp_all add: sample_resolve ser del) (simp_all add: relayed_def sample_net_def)
  with run ok sample_gopacket_ok show ?thesis by simp
qed

lemma uint_word_of_int_small: "0 \<le> i \<Longrightarrow> i < 2 ^ 32 \<Longrightarrow> uint (word_of_int i :: u32) = i"
  by (simp add: uint_word_of_int_eq take_bit_int_eq_self)

lemma Extract_link_chosen:
  assumes "linkSubnet = None \<or> length (elems linkSubnet) = 4"
  shows "ExtractLinkSelectionSubOptionData (chosen_subopts dec (request_routing ifIndex linkSubnet)) = linkSubnet"
proof -
  have "opt_Type (CreatePolicyTagSubOption t) \<noteq> LinkSelectionSubOption" for t
    by (simp add: CreatePolicyTagSubOption_def subopt_defs)
  then show ?thesis
    using assms
    by (cases linkSubnet) (auto simp: chosen_subopts_def Let_def request_routing_def routing_subopts_def
        CreateLinkSelectionSubOption_def subopt_defs)
qed

lemma Extract_tag_chosen:
  "ExtractPolicyTagSubOptionData (chosen_subopts dec (request_routing ifIndex linkSubnet)) =
     (if decision_tag dec \<noteq> [] \<and>
         subopts_size (request_routing ifIndex linkSubnet) + 2 + length (decision_tag dec) \<le> 255
      then Some (decision_tag dec) else None)"
proof -
  have "opt_Type (CreateLinkSelectionSubOption n) \<noteq> PolicyTagSubOption" for n
    by (simp add: CreateLinkSelectionSubOption_def subopt_defs split: option.splits)
  then have skip: "ExtractPolicyTagSubOptionData (request_routing ifIndex linkSubnet @ subs) = ExtractPolicyTagSubOptionData subs"
    for subs by (simp add: request_routing_def routing_subopts_def)
  show ?thesis
    using skip [of "[]"] Extract_policy_tag [of "decision_tag dec" "[]"]
    by (auto simp: chosen_subopts_def Let_def skip)
qed

text \<open>The Option 82 of a copy, as the reply path will find it.\<close>

lemma relayed_option82:
  fixes dec :: "Decision option"
  assumes "gopacket_ok gp" and "option_sort_ok SortFunc"
    and "0 < ifIndex" and "ifIndex < 2 ^ 32" and "linkSubnet = None \<or> To4 linkSubnet \<noteq> None"
  defines "subs \<equiv> chosen_subopts dec (request_routing ifIndex linkSubnet)"
  shows "GetOption (relayed gp SortFunc dec (request_routing ifIndex linkSubnet) layer giaddr) RelayAgentInformation =
      EncodeRelayAgentInformationOption gp subs"
    and "IsOption (EncodeRelayAgentInformationOption gp subs)" and "list_all exact_subopt subs"
    and "ExtractAgentCircuitIDSubOptionData subs = ifIndex"
proof -
  let ?routing = "request_routing ifIndex linkSubnet"
  let ?opt = "EncodeRelayAgentInformationOption gp subs"
  let ?l = "relayed gp SortFunc dec ?routing layer giaddr"
  have wf: "list_all wf_subopt ?routing" "subopts_size ?routing \<le> 18" "?routing \<noteq> []"
    using routing_wf [OF assms(5), of "word_of_int ifIndex"] by (simp_all add: request_routing_def routing_subopts_def)
  show ok: "IsOption ?opt" using Encode_full_choice [OF assms(1) wf(1,3)] wf(2) by (simp add: subs_def)
  have "GetOption ?l RelayAgentInformation = GetOption (SetOption SortFunc layer ?opt) RelayAgentInformation"
    by (rule GetOption_cong) (simp add: relayed_def subs_def)
  then show "GetOption ?l RelayAgentInformation = ?opt"
    using GetOption_SetOption_same [OF assms(2), of layer ?opt] Encode_type [OF assms(1) ok] by simp
  have "0 < subopts_size ?routing" using wf(3) by (rule subopts_size_pos)
  then show "list_all exact_subopt subs"
    using chosen_subopts_wf [OF wf(1)] list_all_wf_exact unfolding subs_def by blast
  show "ExtractAgentCircuitIDSubOptionData subs = ifIndex"
    using assms(3,4) by (auto simp: subs_def chosen_subopts_def Let_def request_routing_def routing_subopts_def uint_word_of_int_small)
qed



end
