(* ===== verification/Sockets.thy ===== *)
theory Sockets
  imports Net_Host
begin

text \<open>
  The socket wrapper: \<^verbatim>\<open>pkg/sockets\<close>. An operation of \<^verbatim>\<open>Raw\<close> returns its error, the wrapper as it leaves it and its
  effects. An operation that repeats a system call until it does not answer \<^verbatim>\<open>EAGAIN\<close> may block for ever, which is
  the value \<open>None\<close>.
\<close>

subsection \<open>\<^verbatim>\<open>misc.go\<close>\<close>

definition BigEndian_PutUint16 :: "u16 \<Rightarrow> bytes" where
  "BigEndian_PutUint16 i = [ucast (drop_bit 8 i), ucast i]"

definition NativeEndian_Uint16 :: "bool \<Rightarrow> bytes \<Rightarrow> u16" where
  "NativeEndian_Uint16 little b =
     (if little then ucast (b ! 0) OR push_bit 8 (ucast (b ! 1))
      else ucast (b ! 1) OR push_bit 8 (ucast (b ! 0)))"

definition Htons :: "bool \<Rightarrow> u16 \<Rightarrow> u16" where
  "Htons little i = NativeEndian_Uint16 little (BigEndian_PutUint16 i)"

subsection \<open>\<^verbatim>\<open>raw.go\<close>\<close>

datatype raw_error =
    ErrNotInitialized | ErrClosed | OpErrno errno | SetIgnoreOutgoing errno | AddrTooLong nat | UnexpectedSource

text \<open>\<^verbatim>\<open>os.File\<close>: its descriptor, and whether it was closed. A read deadline only decides what the poller answers.\<close>

record os_file =
  file_fd :: int
  file_closed :: bool

record Raw =
  raw_f :: "os_file option"

definition new_Raw :: Raw where "new_Raw = \<lparr>raw_f = None\<rparr>"

text \<open>\<^verbatim>\<open>os.NewFile\<close> refuses a negative descriptor.\<close>

definition NewFile :: "int \<Rightarrow> os_file option" where
  "NewFile fd = (if fd < 0 then None else Some \<lparr>file_fd = fd, file_closed = False\<rparr>)"

definition File_Close :: "kernel \<Rightarrow> os_file \<Rightarrow> raw_error option \<times> os_file \<times> effect list" where
  "File_Close k f =
     (if file_closed f then (Some ErrClosed, f, [])
      else (map_option OpErrno (unix_Close k (file_fd f)), f\<lparr>file_closed := True\<rparr>, [FdClose (file_fd f)]))"

definition raw_Create :: "kernel \<Rightarrow> u16 \<Rightarrow> Raw \<Rightarrow> raw_error option \<times> Raw \<times> effect list" where
  "raw_Create k protocol r =
     (case unix_Socket k AF_PACKET (or (or SOCK_RAW SOCK_NONBLOCK) SOCK_CLOEXEC) (unat protocol) of
        Inl err \<Rightarrow> (Some (OpErrno err), r, [])
      | Inr fd \<Rightarrow>
          (case unix_SetsockoptInt k fd SOL_PACKET PACKET_IGNORE_OUTGOING 1 of
             Some err \<Rightarrow>
               (if err \<noteq> ENOPROTOOPT then (Some (SetIgnoreOutgoing err), r, [FdOpen fd, FdClose fd])
                else (None, \<lparr>raw_f = NewFile fd\<rparr>,
                      [FdOpen fd] @ (case raw_f r of None \<Rightarrow> [] | Some f \<Rightarrow> snd (snd (File_Close k f)))))
           | None \<Rightarrow>
               (None, \<lparr>raw_f = NewFile fd\<rparr>,
                [FdOpen fd] @ (case raw_f r of None \<Rightarrow> [] | Some f \<Rightarrow> snd (snd (File_Close k f))))))"

definition raw_Close :: "kernel \<Rightarrow> Raw \<Rightarrow> raw_error option \<times> Raw \<times> effect list" where
  "raw_Close k r =
     (case raw_f r of
        None \<Rightarrow> (Some ErrNotInitialized, r, [])
      | Some f \<Rightarrow> (case File_Close k f of (err, f', es) \<Rightarrow> (err, r\<lparr>raw_f := Some f'\<rparr>, es)))"

text \<open>Setting a deadline on a file is answered by the runtime; \<open>set_err\<close> is its error.\<close>

definition raw_SetReadDeadline :: "errno option \<Rightarrow> Raw \<Rightarrow> raw_error option" where
  "raw_SetReadDeadline set_err r =
     (case raw_f r of
        None \<Rightarrow> Some ErrNotInitialized
      | Some f \<Rightarrow> (if file_closed f then Some ErrClosed else map_option OpErrno set_err))"

text \<open>
  \<^verbatim>\<open>control\<close> runs a function on the descriptor of an open file. \<^verbatim>\<open>SyscallConn\<close> fails only for a nil file, and running a
  function through it fails only for a closed one.
\<close>

definition raw_control :: "Raw \<Rightarrow> (int \<Rightarrow> errno option) \<Rightarrow> raw_error option" where
  "raw_control r f =
     (case raw_f r of
        None \<Rightarrow> Some ErrNotInitialized
      | Some file \<Rightarrow> (if file_closed file then Some ErrClosed else map_option OpErrno (f (file_fd file))))"

definition zero_sockaddr :: "u16 \<Rightarrow> int \<Rightarrow> SockaddrLinklayer" where
  "zero_sockaddr protocol ifIndex =
     \<lparr>ll_Protocol = protocol, ll_Ifindex = ifIndex, ll_Halen = 0, ll_Addr = replicate 8 0\<rparr>"

text \<open>Go's \<^verbatim>\<open>copy\<close> overwrites a prefix of the destination.\<close>

definition go_copy :: "bytes \<Rightarrow> bytes \<Rightarrow> bytes" where
  "go_copy dst src = take (length dst) src @ drop (length src) dst"

definition setLinkLayerAddr :: "SockaddrLinklayer \<Rightarrow> hwaddr \<Rightarrow> raw_error + SockaddrLinklayer" where
  "setLinkLayerAddr sa hwAddr =
     (case hwAddr of
        None \<Rightarrow> Inr sa
      | Some a \<Rightarrow>
          (if length a > length (ll_Addr sa) then Inl (AddrTooLong (length a))
           else Inr (sa\<lparr>ll_Halen := word_of_nat (length a), ll_Addr := go_copy (ll_Addr sa) a\<rparr>)))"

definition raw_Bind :: "kernel \<Rightarrow> Raw \<Rightarrow> int \<Rightarrow> hwaddr \<Rightarrow> u16 \<Rightarrow> raw_error option" where
  "raw_Bind k r ifIndex hwAddr protocol =
     (case setLinkLayerAddr (zero_sockaddr protocol ifIndex) hwAddr of
        Inl err \<Rightarrow> Some err
      | Inr sa \<Rightarrow> raw_control r (\<lambda>fd. unix_Bind k fd sa))"

definition raw_AttachBPF :: "kernel \<Rightarrow> Raw \<Rightarrow> SockFilter list \<Rightarrow> raw_error option \<times> effect list" where
  "raw_AttachBPF k r bytecode =
     (if bytecode = [] then (None, [])
      else
        (let fprog = \<lparr>fprog_Len = word_of_nat (length bytecode), fprog_Filter = bytecode\<rparr> in
         case raw_control r (\<lambda>fd. unix_SetsockoptSockFprog k fd SOL_SOCKET SO_ATTACH_FILTER fprog) of
           Some err \<Rightarrow> (Some err, [])
         | None \<Rightarrow> (None, (case raw_f r of Some f \<Rightarrow> [FdFilter (file_fd f) bytecode] | None \<Rightarrow> []))))"

text \<open>
  The loop of \<^verbatim>\<open>RawConn.Read\<close> and \<^verbatim>\<open>RawConn.Write\<close> in the Go runtime: try, and when the try is not done wait on the poller,
  which may end the call with an error.
\<close>

partial_function (option) poll_loop ::
  "(nat \<Rightarrow> 'r option) \<Rightarrow> (nat \<Rightarrow> errno option) \<Rightarrow> nat \<Rightarrow> (raw_error + 'r) option" where
  "poll_loop attempt wait i =
     (case attempt i of
        Some r \<Rightarrow> Some (Inr r)
      | None \<Rightarrow>
          (case wait i of
             Some err \<Rightarrow> Some (Inl (OpErrno err))
           | None \<Rightarrow> poll_loop attempt wait (i + 1)))"

definition raw_io :: "kernel \<Rightarrow> os_file \<Rightarrow> (nat \<Rightarrow> 'r option) \<Rightarrow> (raw_error + 'r) option" where
  "raw_io k f attempt =
     (if file_closed f then Some (Inl ErrClosed)
      else case poll_prepare k (file_fd f) of
        Some err \<Rightarrow> Some (Inl (OpErrno err))
      | None \<Rightarrow> poll_loop attempt (\<lambda>i. poll_wait k i (file_fd f)) 0)"

text \<open>One try of \<^verbatim>\<open>Receive\<close> into a buffer of \<open>buflen\<close> bytes; \<open>None\<close> is \<^verbatim>\<open>EAGAIN\<close>.\<close>

definition recv_attempt :: "kernel \<Rightarrow> os_file \<Rightarrow> nat \<Rightarrow> nat \<Rightarrow> (errno + (bytes \<times> Sockaddr)) option" where
  "recv_attempt k f buflen i =
     (case unix_Recvfrom k i (file_fd f) buflen of
        Inl EAGAIN \<Rightarrow> None
      | r \<Rightarrow> Some r)"

definition raw_Receive :: "kernel \<Rightarrow> Raw \<Rightarrow> nat \<Rightarrow> (raw_error + (bytes \<times> SockaddrLinklayer)) option" where
  "raw_Receive k r buflen =
     (case raw_f r of
        None \<Rightarrow> Some (Inl ErrNotInitialized)
      | Some f \<Rightarrow>
          (case raw_io k f (recv_attempt k f buflen) of
             None \<Rightarrow> None
           | Some (Inl err) \<Rightarrow> Some (Inl err)
           | Some (Inr (Inl rerr)) \<Rightarrow> Some (Inl (OpErrno rerr))
           | Some (Inr (Inr (b, Linklayer sall))) \<Rightarrow> Some (Inr (b, sall))
           | Some (Inr (Inr (b, OtherSockaddr))) \<Rightarrow> Some (Inl UnexpectedSource)))"

definition send_attempt ::
  "kernel \<Rightarrow> os_file \<Rightarrow> bytes \<Rightarrow> SockaddrLinklayer \<Rightarrow> nat \<Rightarrow> errno option option" where
  "send_attempt k f buf sa i =
     (if unix_Sendto k i (file_fd f) buf sa = Some EAGAIN then None
      else Some (unix_Sendto k i (file_fd f) buf sa))"

definition raw_Send ::
  "kernel \<Rightarrow> Raw \<Rightarrow> int \<Rightarrow> hwaddr \<Rightarrow> u16 \<Rightarrow> bytes \<Rightarrow> ((raw_error + nat) \<times> effect list) option" where
  "raw_Send k r ifIndex hwAddr protocol buf =
     (case raw_f r of
        None \<Rightarrow> Some (Inl ErrNotInitialized, [])
      | Some f \<Rightarrow>
          (case setLinkLayerAddr (zero_sockaddr protocol ifIndex) hwAddr of
             Inl err \<Rightarrow> Some (Inl err, [])
           | Inr sa \<Rightarrow>
               (case raw_io k f (send_attempt k f buf sa) of
                  None \<Rightarrow> None
                | Some (Inl err) \<Rightarrow> Some (Inl err, [])
                | Some (Inr (Some serr)) \<Rightarrow> Some (Inl (OpErrno serr), [])
                | Some (Inr None) \<Rightarrow> Some (Inr (length buf), [SentRaw (file_fd f) sa buf]))))"

subsection \<open>\<^verbatim>\<open>packet.go\<close>\<close>

text \<open>
  \<open>conn\<close> is the raw connection of the listener: \<open>Inl\<close> when running the function on it fails, otherwise the descriptor. The result is
  the error and the options that were set.
\<close>

definition ControlReuseAddrAndPort :: "kernel \<Rightarrow> errno + int \<Rightarrow> errno option \<times> nat list" where
  "ControlReuseAddrAndPort k conn =
     (case conn of
        Inl err \<Rightarrow> (Some err, [])
      | Inr fd \<Rightarrow>
          (case unix_SetsockoptInt k fd SOL_SOCKET SO_REUSEADDR 1 of
             Some err \<Rightarrow> (Some err, [])
           | None \<Rightarrow>
               (case unix_SetsockoptInt k fd SOL_SOCKET SO_REUSEPORT 1 of
                  Some err \<Rightarrow> (Some err, [SO_REUSEADDR])
                | None \<Rightarrow> (None, [SO_REUSEADDR, SO_REUSEPORT]))))"

datatype listen_error = AddrNil | AddrNotIPv4 | ListenFailed

text \<open>\<open>ListenPacket\<close> is the listener of the \<^verbatim>\<open>net\<close> package with the control function as its first argument.\<close>

definition ListenPacketConn4 ::
  "kernel \<Rightarrow> ((errno + int \<Rightarrow> errno option \<times> nat list) \<Rightarrow> string \<Rightarrow> string \<Rightarrow> 'conn option) \<Rightarrow>
   string \<Rightarrow> ip \<Rightarrow> u16 \<Rightarrow> listen_error + 'conn" where
  "ListenPacketConn4 k ListenPacket network addr port =
     (if addr = None then Inl AddrNil
      else if To4 addr = None then Inl AddrNotIPv4
      else case ListenPacket (ControlReuseAddrAndPort k) network (JoinHostPort (IPv4_String (elems (To4 addr))) (FormatUint (unat port))) of
        None \<Rightarrow> Inl ListenFailed
      | Some conn \<Rightarrow> Inr conn)"

subsection \<open>Byte order\<close>

text \<open>The two bytes of a word as they lie in the memory of the machine.\<close>

definition memory_bytes :: "bool \<Rightarrow> u16 \<Rightarrow> bytes" where
  "memory_bytes little w = (if little then [ucast w, ucast (drop_bit 8 w)] else [ucast (drop_bit 8 w), ucast w])"

lemma low_byte: "ucast (ucast a OR push_bit 8 (ucast b :: u16) :: u16) = (a :: u8)"
  by (rule bit_word_eqI) (simp add: bit_simps)

lemma high_byte: "ucast (drop_bit 8 (ucast (a :: u8) OR push_bit 8 (ucast b :: u16) :: u16)) = (b :: u8)"
  by (rule bit_word_eqI) (auto simp: bit_simps dest: bit_imp_le_length)

lemma join_bytes: "ucast (ucast w :: u8) OR push_bit 8 (ucast (ucast (drop_bit 8 w) :: u8)) = (w :: u16)"
  by (rule bit_word_eqI) (auto simp: bit_simps dest: bit_imp_le_length)

text \<open>On a machine of either byte order the result of \<^verbatim>\<open>Htons\<close> lies in memory as the big-endian bytes
  of its argument, and applying \<^verbatim>\<open>Htons\<close> twice gives the argument back.\<close>

lemma Htons_correct:
  "memory_bytes little (Htons little w) = BigEndian_PutUint16 w \<and> Htons little (Htons little w) = w"
  by (cases little)
    (simp_all add: memory_bytes_def Htons_def NativeEndian_Uint16_def BigEndian_PutUint16_def low_byte high_byte join_bytes
      del: drop_bit_or)

subsection \<open>Blocking calls\<close>

lemma poll_loop_returns:
  assumes "attempt k \<noteq> None \<or> wait k \<noteq> None" "i \<le> k"
  shows "\<exists>r. poll_loop attempt wait i = Some r"
  using assms(2)
proof (induction "k - i" arbitrary: i)
  case 0
  then show ?case using assms(1) by (subst poll_loop.simps) (auto split: option.split)
next
  case (Suc n)
  then have "n = k - (i + 1)" "i + 1 \<le> k" by simp_all
  from Suc.hyps(1) [OF this] show ?case by (subst poll_loop.simps) (auto split: option.split)
qed

lemma poll_loop_Some:
  assumes "poll_loop attempt wait i = Some r"
  shows "\<exists>j \<ge> i. attempt j \<noteq> None \<or> wait j \<noteq> None"
proof (rule poll_loop.raw_induct [where P = "\<lambda>attempt wait i _. \<exists>j \<ge> i. attempt j \<noteq> None \<or> wait j \<noteq> None", OF _ assms])
  fix loop :: "(nat \<Rightarrow> 'a option) \<Rightarrow> (nat \<Rightarrow> errno option) \<Rightarrow> nat \<Rightarrow> (raw_error + 'a) option" and attempt wait i y
  assume IH: "\<And>attempt wait i y. loop attempt wait i = Some y \<Longrightarrow> \<exists>j \<ge> i. attempt j \<noteq> None \<or> wait j \<noteq> None"
    and run: "(case attempt i of Some r \<Rightarrow> Some (Inr r)
      | None \<Rightarrow> (case wait i of Some err \<Rightarrow> Some (Inl (OpErrno err)) | None \<Rightarrow> loop attempt wait (i + 1))) = Some y"
  show "\<exists>j \<ge> i. attempt j \<noteq> None \<or> wait j \<noteq> None"
  proof (cases "attempt i = None \<and> wait i = None")
    case True
    then have "loop attempt wait (i + 1) = Some y" using run by simp
    from IH [OF this] show ?thesis by (metis Suc_eq_plus1 Suc_leD)
  qed auto
qed

lemma poll_loop_blocks: "poll_loop attempt wait 0 = None \<longleftrightarrow> (\<forall>j. attempt j = None \<and> wait j = None)"
  using poll_loop_returns [of attempt _ wait 0] poll_loop_Some [of attempt wait 0]
  by (metis le0 option.exhaust option.distinct(1))

lemma raw_io_blocks:
  "raw_io k f attempt = None \<longleftrightarrow>
     \<not> file_closed f \<and> poll_prepare k (file_fd f) = None \<and> (\<forall>i. attempt i = None \<and> poll_wait k i (file_fd f) = None)"
  by (cases "poll_prepare k (file_fd f)") (simp_all add: raw_io_def poll_loop_blocks)

text \<open>C28: \<^verbatim>\<open>Receive\<close> blocks for ever in exactly one situation: the socket is open, its deadline has not
  expired, every read answers \<^verbatim>\<open>EAGAIN\<close> and the poller never ends the wait. In particular an expired
  deadline, which the shutdown sets, always wakes it.\<close>

theorem Receive_blocks_iff:
  "raw_Receive k r buflen = None \<longleftrightarrow>
     (\<exists>f. raw_f r = Some f \<and> \<not> file_closed f \<and> poll_prepare k (file_fd f) = None \<and>
        (\<forall>i. unix_Recvfrom k i (file_fd f) buflen = Inl EAGAIN \<and> poll_wait k i (file_fd f) = None))"
proof -
  have none: "recv_attempt k f buflen i = None \<longleftrightarrow> unix_Recvfrom k i (file_fd f) buflen = Inl EAGAIN" for f i
    by (auto simp: recv_attempt_def split: sum.splits errno.splits)
  have "raw_Receive k r buflen = None \<longleftrightarrow> (\<exists>f. raw_f r = Some f \<and> raw_io k f (recv_attempt k f buflen) = None)"
    by (auto simp: raw_Receive_def split: option.splits sum.splits Sockaddr.splits)
  then show ?thesis by (simp add: raw_io_blocks none)
qed

text \<open>\<^verbatim>\<open>Send\<close> likewise, so it returns when the kernel takes or refuses the frame at some point.\<close>

lemma raw_Send_returns:
  assumes "\<And>f sa. raw_f r = Some f \<Longrightarrow> \<exists>i. unix_Sendto k i (file_fd f) buf sa \<noteq> Some EAGAIN \<or> poll_wait k i (file_fd f) \<noteq> None"
  shows "\<exists>res. raw_Send k r ifIndex hwAddr protocol buf = Some res"
proof -
  have "raw_io k f (send_attempt k f buf sa) \<noteq> None" if "raw_f r = Some f" for f sa
    using assms [OF that, of sa] by (auto simp: raw_io_blocks send_attempt_def)
  then have "raw_Send k r ifIndex hwAddr protocol buf \<noteq> None"
    by (auto simp: raw_Send_def simp del: not_None_eq split: option.splits sum.splits)
  then show ?thesis by blast
qed

text \<open>What a \<^verbatim>\<open>Send\<close> puts on the wire: nothing when it fails, the whole buffer out of the interface when it succeeds.\<close>

lemma raw_Send_effects:
  assumes "raw_Send k r ifIndex hwAddr protocol buf = Some (res, es)"
  shows "frames es = (case res of Inl _ \<Rightarrow> [] | Inr _ \<Rightarrow> [(ifIndex, buf)])" "fds_after fds es = fds" "datagrams es = []"
    "res = Inr n \<Longrightarrow> n = length buf"
  using assms
  by (auto simp: raw_Send_def setLinkLayerAddr_def zero_sockaddr_def split: option.splits sum.splits if_splits)

subsection \<open>Descriptors\<close>

text \<open>The descriptor a wrapper owns, and a program of calls that open and close, each under its own answers of the kernel.\<close>

definition owned_fds :: "Raw \<Rightarrow> int list" where
  "owned_fds r = (case raw_f r of Some f \<Rightarrow> (if file_closed f then [] else [file_fd f]) | None \<Rightarrow> [])"

definition socket_ok :: "kernel \<Rightarrow> bool" where
  "socket_ok k \<longleftrightarrow> (\<forall>d t p fd. unix_Socket k d t p = Inr fd \<longrightarrow> 0 \<le> fd)"

datatype raw_call = CallCreate u16 | CallClose

fun raw_step :: "kernel \<Rightarrow> raw_call \<Rightarrow> Raw \<Rightarrow> raw_error option \<times> Raw \<times> effect list" where
  "raw_step k (CallCreate protocol) r = raw_Create k protocol r"
| "raw_step k CallClose r = raw_Close k r"

fun raw_run :: "(kernel \<times> raw_call) list \<Rightarrow> Raw \<Rightarrow> Raw \<times> effect list" where
  "raw_run [] r = (r, [])"
| "raw_run ((k, c) # cs) r =
     (case raw_step k c r of (err, r1, es1) \<Rightarrow> (case raw_run cs r1 of (r2, es2) \<Rightarrow> (r2, es1 @ es2)))"

lemma raw_Create_fds:
  assumes "socket_ok k" "raw_Create k protocol r = (err, r', es)"
  shows "fds_after (owned_fds r @ fds) es = owned_fds r' @ fds \<and>
    (err = None \<longrightarrow> (\<exists>f. raw_f r' = Some f \<and> \<not> file_closed f))"
proof (cases "unix_Socket k AF_PACKET (or (or SOCK_RAW SOCK_NONBLOCK) SOCK_CLOEXEC) (unat protocol)")
  case (Inr fd)
  then have "0 \<le> fd" using assms(1) by (simp add: socket_ok_def)
  then show ?thesis using assms(2) Inr
    by (auto simp: raw_Create_def owned_fds_def NewFile_def File_Close_def split: option.splits if_splits)
qed (use assms(2) in \<open>auto simp: raw_Create_def\<close>)

lemma raw_Close_fds:
  "raw_Close k r = (err, r', es) \<Longrightarrow> fds_after (owned_fds r @ fds) es = fds \<and> owned_fds r' = []"
  by (auto simp: raw_Close_def owned_fds_def File_Close_def split: option.splits if_splits)

text \<open>
  What a socket wrapper promises its users about descriptors: a fresh wrapper owns nothing, creating adds what the wrapper owns
  afterwards, a failed creation adds nothing, and closing takes exactly that away. What runs between the two and leaves the
  descriptors alone is then bracketed.
\<close>

locale socket_contract =
  fixes ok :: "'k \<Rightarrow> bool"
    and create :: "'k \<Rightarrow> 'p \<Rightarrow> 'r \<Rightarrow> 'e option \<times> 'r \<times> effect list"
    and close :: "'k \<Rightarrow> 'r \<Rightarrow> 'c option \<times> 'r \<times> effect list"
    and owned :: "'r \<Rightarrow> int list"
    and fresh :: 'r
  assumes create_fds: "ok k \<Longrightarrow> create k p fresh = (err, r, es) \<Longrightarrow> fds_after fds es = owned r @ fds"
    and create_failed: "create k p fresh = (Some e, r, es) \<Longrightarrow> owned r = []"
    and close_fds: "close k r = (err', r', es') \<Longrightarrow> fds_after (owned r @ fds) es' = fds"
begin

lemma failed_clean: "ok k \<Longrightarrow> create k p fresh = (Some e, r, es) \<Longrightarrow> fds_after fds es = fds"
  using create_fds create_failed by fastforce

lemma bracket:
  assumes "ok k" "create k p fresh = (err, r, es)" "\<And>fs. fds_after fs body = fs"
  shows "fds_after fds (es @ body @ snd (snd (close k r))) = fds"
proof -
  obtain err' r' es' where c: "close k r = (err', r', es')" by (metis prod_cases3)
  from create_fds [OF assms(1,2), of fds] close_fds [OF c, of fds] c assms(3) show ?thesis by simp
qed

end

lemma raw_Create_failed: "raw_Create k protocol new_Raw = (Some e, r, es) \<Longrightarrow> owned_fds r = []"
  by (auto simp: raw_Create_def owned_fds_def new_Raw_def split: option.splits sum.splits if_splits)

interpretation raw_socket: socket_contract socket_ok raw_Create raw_Close owned_fds new_Raw
proof unfold_locales
  fix k protocol err r es fds
  assume "socket_ok k" "raw_Create k protocol new_Raw = (err, r, es)"
  moreover have "owned_fds new_Raw = []" by (simp add: owned_fds_def new_Raw_def)
  ultimately show "fds_after fds es = owned_fds r @ fds" using raw_Create_fds [of k protocol new_Raw err r es fds] by simp
qed (use raw_Create_failed raw_Close_fds in blast)+

lemma raw_quiet:
  "raw_Create k protocol r = (err, r', es) \<Longrightarrow> frames es = [] \<and> datagrams es = []"
  "raw_Close k r = (err, r', es) \<Longrightarrow> frames es = [] \<and> datagrams es = []"
  "raw_AttachBPF k r prog = (err, es) \<Longrightarrow> frames es = [] \<and> datagrams es = [] \<and> fds_after fds es = fds"
  by (auto simp: raw_Create_def raw_Close_def raw_AttachBPF_def File_Close_def Let_def
        split: option.splits sum.splits if_splits)

text \<open>C27: A wrapper never leaks or doubly closes a descriptor: after any calls of \<^verbatim>\<open>Create\<close> and \<^verbatim>\<open>Close\<close>,
  failed ones included, the open descriptors are those from before plus the one the wrapper owns, given that the kernel hands
  out non-negative descriptors. After a \<^verbatim>\<open>Close\<close> the wrapper owns none.\<close>

theorem raw_no_leak:
  assumes "list_all (\<lambda>(k, c). socket_ok k) calls" and "raw_run calls r = (r', es)"
  shows "fds_after (owned_fds r @ fds) es = owned_fds r' @ fds"
  using assms
proof (induction calls arbitrary: r es)
  case (Cons kc calls)
  obtain k c where kc: "kc = (k, c)" by force
  obtain err r1 es1 where step: "raw_step k c r = (err, r1, es1)" by (metis prod_cases3)
  obtain es2 where run: "raw_run calls r1 = (r', es2)" and es: "es = es1 @ es2"
    using Cons.prems(2) kc step by (auto split: prod.splits)
  have "fds_after (owned_fds r @ fds) es1 = owned_fds r1 @ fds"
    using Cons.prems(1) step kc raw_Create_fds raw_Close_fds by (cases c) auto
  with Cons.IH [OF _ run] Cons.prems(1) es show ?case by simp
qed simp

theorem raw_no_leak_witness:
  "case raw_run [(sample_kernel, CallCreate 3), (sample_kernel, CallCreate 3), (sample_kernel, CallClose)] new_Raw of
     (r', es) \<Rightarrow> fds_after [9] es = [9] \<and> es = [FdOpen 3, FdOpen 3, FdClose 3, FdClose 3]"
proof -
  let ?calls = "[(sample_kernel, CallCreate 3), (sample_kernel, CallCreate 3), (sample_kernel, CallClose)]"
  have ok: "list_all (\<lambda>(k, c). socket_ok k) ?calls" by (simp add: socket_ok_def sample_kernel_def)
  obtain r' es where run: "raw_run ?calls new_Raw = (r', es)" by force
  from raw_no_leak [OF ok run, of "[9]"] run show ?thesis
    by (auto simp: new_Raw_def raw_Create_def raw_Close_def sample_kernel_def NewFile_def File_Close_def owned_fds_def)
qed

end
