(* ===== verification/Bytecode.thy ===== *)
theory Bytecode
  imports Unix_Types
begin

text \<open>
  The ingress filter: \<^verbatim>\<open>pkg/bytecode\<close>. \<open>bpf_run\<close> is the machine of classic BPF for the instructions the program uses: the
  accumulator, the index register and forward jumps, where a load beyond the frame ends the program with 0. The result is
  the number of bytes to keep, 0 for drop; \<open>None\<close> is an instruction outside the machine or a program that runs off its end.
\<close>

subsection \<open>\<^verbatim>\<open>const.go\<close>\<close>

definition EthernetFieldOffsetEtherType :: nat where
  "EthernetFieldOffsetEtherType = EthernetHeaderSizeBits - EthernetFieldSizeEtherType"

definition IPv4FieldOffsetFlags :: nat where
  "IPv4FieldOffsetFlags =
     IPv4FieldSizeVersion + IPv4FieldSizeIHL + IPv4FieldSizeDSC + IPv4FieldSizeECN + IPv4FieldSizeTotalLength +
     IPv4FieldSizeIdentification"

definition IPv4FieldOffsetProtocol :: nat where
  "IPv4FieldOffsetProtocol =
     IPv4FieldOffsetFlags + IPv4FieldSizeFlags + IPv4FieldSizeFragmentOffset + IPv4FieldSizeTTL"

definition UDPFieldOffsetDestinationPort :: nat where
  "UDPFieldOffsetDestinationPort = EthernetHeaderSizeBits div 8 + UDPFieldSizeSourcePort div 8"

definition IPv4FieldBitMaskVersion :: nat where "IPv4FieldBitMaskVersion = 0xF0"
definition IPv4FieldBitMaskIHL :: nat where "IPv4FieldBitMaskIHL = 0x0F"

subsection \<open>\<^verbatim>\<open>bpf.go\<close>\<close>

definition sock_filter :: "u16 \<Rightarrow> u8 \<Rightarrow> u8 \<Rightarrow> u32 \<Rightarrow> SockFilter" where
  "sock_filter c jt jf k = \<lparr>bpf_Code = c, bpf_Jt = jt, bpf_Jf = jf, bpf_K = k\<rparr>"

definition GetBPFSockFilterForDHCPv4Messages :: "u32 \<Rightarrow> SockFilter list" where
  "GetBPFSockFilterForDHCPv4Messages mtu =
     [sock_filter (or (or BPF_LD BPF_H) BPF_ABS) 0 0 (of_nat (EthernetFieldOffsetEtherType div 8)),
      sock_filter (or (or BPF_JMP BPF_JEQ) BPF_K) 0 15 (ucast ETH_P_IP),
      sock_filter (or (or BPF_LD BPF_B) BPF_ABS) 0 0 (of_nat (EthernetHeaderSizeBits div 8)),
      sock_filter (or (or BPF_ALU BPF_AND) BPF_K) 0 0 (of_nat IPv4FieldBitMaskIHL),
      sock_filter (or (or BPF_JMP BPF_JGE) BPF_K) 0 12 (of_nat IPv4FieldIHLValueMinHeaderNoOptions),
      sock_filter (or (or BPF_JMP BPF_JGT) BPF_K) 11 0 (of_nat IPv4FieldIHLValueMinHeaderNoOptions),
      sock_filter (or (or BPF_LD BPF_B) BPF_ABS) 0 0 (of_nat ((EthernetHeaderSizeBits + IPv4FieldOffsetProtocol) div 8)),
      sock_filter (or (or BPF_JMP BPF_JEQ) BPF_K) 0 9 (ucast IPPROTO_UDP),
      sock_filter (or (or BPF_LD BPF_H) BPF_ABS) 0 0 (of_nat ((EthernetHeaderSizeBits + IPv4FieldOffsetFlags) div 8)),
      sock_filter (or (or BPF_JMP BPF_JSET) BPF_K) 7 0 0x3FFF,
      sock_filter (or (or BPF_LDX BPF_B) BPF_MSH) 0 0 (of_nat (EthernetHeaderSizeBits div 8)),
      sock_filter (or (or BPF_LD BPF_H) BPF_IND) 0 0 (of_nat UDPFieldOffsetDestinationPort),
      sock_filter (or (or BPF_JMP BPF_JEQ) BPF_K) 0 4 (of_nat DHCPv4ServerPort),
      sock_filter (or (or BPF_LD BPF_W) BPF_LEN) 0 0 0,
      sock_filter (or (or BPF_JMP BPF_JGE) BPF_K) 0 2 (of_nat DHCPv4MinMessageSize),
      sock_filter (or (or BPF_JMP BPF_JGT) BPF_K) 1 0 mtu,
      sock_filter (or BPF_RET BPF_K) 0 0 mtu,
      sock_filter (or BPF_RET BPF_K) 0 0 0]"

text \<open>The one instruction filter that drops everything, of the reply path and of the sending socket.\<close>

definition drop_all_filter :: "SockFilter list" where
  "drop_all_filter = [sock_filter (or BPF_RET BPF_K) 0 0 0]"

subsection \<open>The machine\<close>

definition load_byte :: "bytes \<Rightarrow> nat \<Rightarrow> u32 option" where
  "load_byte p i = (if i < length p then Some (ucast (p ! i)) else None)"

definition load_half :: "bytes \<Rightarrow> nat \<Rightarrow> u32 option" where
  "load_half p i =
     (if i + 1 < length p then Some (push_bit 8 (ucast (p ! i)) OR ucast (p ! (i + 1))) else None)"

function bpf_run :: "bytes \<Rightarrow> u32 \<Rightarrow> u32 \<Rightarrow> SockFilter list \<Rightarrow> u32 option" where
  "bpf_run p a x [] = None"
| "bpf_run p a x (i # prog) =
     (let c = bpf_Code i; k = bpf_K i;
          load = (\<lambda>v. case v of None \<Rightarrow> Some 0 | Some w \<Rightarrow> bpf_run p w x prog);
          jump = (\<lambda>b. bpf_run p a x (drop (unat (if b then bpf_Jt i else bpf_Jf i)) prog))
      in if c = 0x28 then load (load_half p (unat k))
         else if c = 0x30 then load (load_byte p (unat k))
         else if c = 0x48 then load (load_half p (unat (x + k)))
         else if c = 0x80 then bpf_run p (of_nat (length p)) x prog
         else if c = 0xb1 then
           (case load_byte p (unat k) of None \<Rightarrow> Some 0 | Some w \<Rightarrow> bpf_run p a (4 * (w AND 0xf)) prog)
         else if c = 0x54 then bpf_run p (a AND k) x prog
         else if c = 0x15 then jump (a = k)
         else if c = 0x25 then jump (a > k)
         else if c = 0x35 then jump (a \<ge> k)
         else if c = 0x45 then jump (a AND k \<noteq> 0)
         else if c = 0x06 then Some k
         else None)"
  by pat_completeness auto
termination
  by (relation "measure (\<lambda>(p, a, x, prog). length prog)") auto

subsection \<open>What the filter accepts\<close>

definition be16 :: "bytes \<Rightarrow> nat \<Rightarrow> nat" where
  "be16 p i = 256 * unat (p ! i) + unat (p ! (i + 1))"

text \<open>
  An Ethernet frame of 244 bytes up to \<open>mtu\<close>, that carries IPv4 without header options, UDP, no fragment, to port 67. Byte
  20 holds the three flags and the upper bits of the fragment offset.
\<close>

definition dhcp_frame :: "u32 \<Rightarrow> bytes \<Rightarrow> bool" where
  "dhcp_frame mtu p \<longleftrightarrow>
     244 \<le> length p \<and> length p \<le> unat mtu \<and> be16 p 12 = 0x800 \<and> unat (p ! 14) mod 16 = 5 \<and> p ! 23 = 17 \<and>
     be16 p 20 mod 0x4000 = 0 \<and> be16 p 36 = 67"

lemma filter_program:
  "GetBPFSockFilterForDHCPv4Messages mtu =
     [sock_filter 0x28 0 0 12, sock_filter 0x15 0 15 0x800, sock_filter 0x30 0 0 14, sock_filter 0x54 0 0 0xf,
      sock_filter 0x35 0 12 5, sock_filter 0x25 11 0 5, sock_filter 0x30 0 0 23, sock_filter 0x15 0 9 17,
      sock_filter 0x28 0 0 20, sock_filter 0x45 7 0 0x3fff, sock_filter 0xb1 0 0 14, sock_filter 0x48 0 0 16,
      sock_filter 0x15 0 4 67, sock_filter 0x80 0 0 0, sock_filter 0x35 0 2 244, sock_filter 0x25 1 0 mtu,
      sock_filter 0x06 0 0 mtu, sock_filter 0x06 0 0 0]"
  by (simp add: GetBPFSockFilterForDHCPv4Messages_def bpf_consts specs_defs EthernetFieldOffsetEtherType_def
      IPv4FieldOffsetFlags_def IPv4FieldOffsetProtocol_def UDPFieldOffsetDestinationPort_def IPv4FieldBitMaskIHL_def
      ETH_P_IP_def IPPROTO_UDP_def)

lemma bpf_run_instr:
  "bpf_run p a x (sock_filter 0x28 jt jf k # prog) =
     (case load_half p (unat k) of None \<Rightarrow> Some 0 | Some w \<Rightarrow> bpf_run p w x prog)"
  "bpf_run p a x (sock_filter 0x30 jt jf k # prog) =
     (case load_byte p (unat k) of None \<Rightarrow> Some 0 | Some w \<Rightarrow> bpf_run p w x prog)"
  "bpf_run p a x (sock_filter 0x48 jt jf k # prog) =
     (case load_half p (unat (x + k)) of None \<Rightarrow> Some 0 | Some w \<Rightarrow> bpf_run p w x prog)"
  "bpf_run p a x (sock_filter 0x80 jt jf k # prog) = bpf_run p (of_nat (length p)) x prog"
  "bpf_run p a x (sock_filter 0xb1 jt jf k # prog) =
     (case load_byte p (unat k) of None \<Rightarrow> Some 0 | Some w \<Rightarrow> bpf_run p a (4 * (w AND 0xf)) prog)"
  "bpf_run p a x (sock_filter 0x54 jt jf k # prog) = bpf_run p (a AND k) x prog"
  "bpf_run p a x (sock_filter 0x15 jt jf k # prog) = 
     (if a = k then bpf_run p a x (drop (unat jt) prog) else bpf_run p a x (drop (unat jf) prog))"
  "bpf_run p a x (sock_filter 0x25 jt jf k # prog) = 
     (if a > k then bpf_run p a x (drop (unat jt) prog) else bpf_run p a x (drop (unat jf) prog))"
  "bpf_run p a x (sock_filter 0x35 jt jf k # prog) = 
     (if a \<ge> k then bpf_run p a x (drop (unat jt) prog) else bpf_run p a x (drop (unat jf) prog))"
  "bpf_run p a x (sock_filter 0x45 jt jf k # prog) = 
     (if a AND k \<noteq> 0 then bpf_run p a x (drop (unat jt) prog) else bpf_run p a x (drop (unat jf) prog))"
  "bpf_run p a x (sock_filter 0x06 jt jf k # prog) = Some k"
  by (simp_all add: sock_filter_def)

declare bpf_run.simps [simp del]

text \<open>The control flow: the outcome as one chain of tests over the values that the program loads.\<close>

definition filter_chain :: "u32 \<Rightarrow> bytes \<Rightarrow> u32" where
  "filter_chain mtu p =
     (case (load_half p 12, load_byte p 14, load_byte p 23, load_half p 20) of
        (Some et, Some ihl, Some proto, Some frag) \<Rightarrow>
          (case load_half p (unat (4 * (ihl AND 0xf) + 16)) of
             Some port \<Rightarrow>
               (if et = 0x800 \<and> ihl AND 0xf = 5 \<and> proto = 17 \<and> frag AND 0x3fff = 0 \<and> port = 67 \<and>
                   244 \<le> (of_nat (length p) :: u32) \<and> of_nat (length p) \<le> mtu then mtu else 0)
           | None \<Rightarrow> 0)
      | _ \<Rightarrow> 0)"

lemma bpf_run_chain: "bpf_run p 0 0 (GetBPFSockFilterForDHCPv4Messages mtu) = Some (filter_chain mtu p)"
proof -
  have ihl: "5 \<le> a \<Longrightarrow> 5 < a \<longleftrightarrow> a \<noteq> 5" for a :: u32 by auto
  show ?thesis
    unfolding filter_program filter_chain_def
    by (auto simp: bpf_run_instr not_less ihl split: option.split)
qed

lemma unat_octet: "unat (ucast (a :: u8) :: u32) = unat a"
  using unat_u8_less [of a] by (simp add: unsigned_ucast_eq take_bit_nat_eq_self)

lemma unat_half: "unat (push_bit 8 (ucast (a :: u8)) OR ucast (b :: u8) :: u32) = 256 * unat a + unat b"
proof -
  have "push_bit 8 (ucast a) AND (ucast b :: u32) = 0"
    by (rule bit_word_eqI) (auto simp: bit_simps dest: bit_imp_le_length)
  then have "push_bit 8 (ucast a) OR ucast b = push_bit 8 (ucast a) + (ucast b :: u32)"
    by (simp add: disjunctive_add_eq_or)
  also have "unat \<dots> = 256 * unat a + unat b"
    using unat_u8_less [of a] unat_u8_less [of b]
    by (simp add: push_bit_eq_mult unat_word_ariths unat_octet)
  finally show ?thesis .
qed

lemma unat_and_low: "unat ((w :: u32) AND 0xf) = unat w mod 16" "unat ((w :: u32) AND 0x3fff) = unat w mod 0x4000"
proof -
  have "w AND 0xf = take_bit 4 w" "w AND 0x3fff = take_bit 14 w"
    by (simp_all add: take_bit_eq_mask mask_eq_exp_minus_1)
  then have "unat (w AND 0xf) = take_bit 4 (unat w)" "unat (w AND 0x3fff) = take_bit 14 (unat w)"
    by (simp_all only: unsigned_take_bit_eq)
  then show "unat (w AND 0xf) = unat w mod 16" "unat (w AND 0x3fff) = unat w mod 0x4000"
    by (simp_all add: take_bit_eq_mod)
qed

text \<open>C10: The ingress filter program, run by the classic BPF machine on any frame shorter than 2^32 bytes,
  ends and keeps exactly the DHCP frames of \<open>dhcp_frame\<close>, whole (the number of bytes to keep is the MTU, which bounds the
  length of such a frame), and drops every other frame, short ones included.\<close>

theorem filter_exact:
  assumes "length p < 2 ^ 32"
  shows "bpf_run p 0 0 (GetBPFSockFilterForDHCPv4Messages mtu) = Some (if dhcp_frame mtu p then mtu else 0)"
proof -
  have len: "unat (of_nat (length p) :: u32) = length p" using assms by (simp add: unat_of_nat)
  have sizes: "244 \<le> (of_nat (length p) :: u32) \<longleftrightarrow> 244 \<le> length p" "(of_nat (length p) :: u32) \<le> mtu \<longleftrightarrow> length p \<le> unat mtu"
    by (simp_all add: word_le_nat_alt len)
  have "filter_chain mtu p = (if dhcp_frame mtu p then mtu else 0)"
  proof (cases "244 \<le> length p")
    case True
    then have loads: "load_half p 12 = Some (push_bit 8 (ucast (p ! 12)) OR ucast (p ! 13))"
      "load_byte p 14 = Some (ucast (p ! 14))" "load_byte p 23 = Some (ucast (p ! 23))"
      "load_half p 20 = Some (push_bit 8 (ucast (p ! 20)) OR ucast (p ! 21))"
      "load_half p 36 = Some (push_bit 8 (ucast (p ! 36)) OR ucast (p ! 37))"
      by (simp_all add: load_half_def load_byte_def)
    have ihl: "ucast (p ! 14) AND 0xf = (5 :: u32) \<longleftrightarrow> unat (p ! 14) mod 16 = 5"
      by (simp add: word_unat_eq_iff unat_and_low unat_octet)
    have frag: "(w :: u32) AND 0x3fff = 0 \<longleftrightarrow> unat w mod 0x4000 = 0" for w
      by (simp add: word_unat_eq_iff unat_and_low)
    have val: "(push_bit 8 (ucast a) OR ucast b :: u32) = numeral n \<longleftrightarrow> 256 * unat a + unat b = unat (numeral n :: u32)"
      for a b :: u8 and n by (simp only: word_unat_eq_iff unat_half)
    have proto: "(ucast (p ! 23) :: u32) = 17 \<longleftrightarrow> p ! 23 = 17" by (simp add: word_unat_eq_iff unat_octet)
    show ?thesis
    proof (cases "unat (p ! 14) mod 16 = 5")
      case True
      then have "ucast (p ! 14) AND 0xf = (5 :: u32)" by (simp add: ihl)
      then show ?thesis using \<open>244 \<le> length p\<close> True
        by (simp add: filter_chain_def dhcp_frame_def loads frag val unat_half sizes be16_def proto)
    next
      case False
      then show ?thesis by (simp add: filter_chain_def dhcp_frame_def loads ihl split: option.split)
    qed
  next
    case False
    then show ?thesis by (simp add: filter_chain_def dhcp_frame_def sizes split: option.split)
  qed
  then show ?thesis by (simp add: bpf_run_chain)
qed

definition sample_frame :: bytes where
  "sample_frame =
     replicate 12 0 @ [8, 0, 0x45, 0, 0, 0, 0, 0, 0x40, 0, 64, 17] @ replicate 12 0 @ [0, 67] @ replicate 248 0"

theorem filter_exact_witness:
  "bpf_run sample_frame 0 0 (GetBPFSockFilterForDHCPv4Messages 1500) = Some 1500 \<and>
   bpf_run sample_frame 0 0 (GetBPFSockFilterForDHCPv4Messages 285) = Some 0"
proof -
  have len: "length sample_frame = 286" by (simp add: sample_frame_def)
  have frame: "dhcp_frame mtu sample_frame \<longleftrightarrow> 286 \<le> unat mtu" for mtu
    by (simp add: dhcp_frame_def len be16_def) (simp add: sample_frame_def nth_append)
  show ?thesis
    using filter_exact [of sample_frame 1500] filter_exact [of sample_frame 285] by (simp add: len frame)
qed

end
