(* ===== verification/Reply.thy ===== *)
theory Reply
  imports Request Sockets Bytecode "HOL-Library.Sublist"
begin

text \<open>
  The reply path: \<^verbatim>\<open>pkg/dhcp4/reply.go\<close>. A handler returns its error, the DHCP message and the interface cache as it
  leaves them, and its effects; \<open>None\<close> is a handler that never returns, because the random source or the socket never
  answers.
\<close>

datatype addressing_error = InvalidClientIP | UnsupportedReplyType u8

datatype reply_copy_error =
    AddressLookup string | NoCopyAddress string | NoHardwareAddress string int | CopyEncoding string | CopyWrite string raw_error

datatype reply_error =
    InvalidRelayAgent | NoAgentInformation | InvalidCircuitIDValue | InvalidIngress int | IngressUnusable string int
  | LayerCrafting | AddressingFailed addressing_error | SocketCreate raw_error | SocketAttach raw_error
  | CopiesFailed "reply_copy_error list"

subsection \<open>Addressing and outgoing NICs\<close>

definition ReplyAddressing ::
  "ReplyType \<Rightarrow> ip \<Rightarrow> dhcpv4 \<Rightarrow> ipv4 \<Rightarrow> bool \<Rightarrow> addressing_error + (hwaddr \<times> dhcpv4 \<times> ipv4)" where
  "ReplyAddressing replyType srcIP layerDHCPv4 layerIPv4 broadcastL2Unicast =
     (let dstMAC = ClientHWAddr layerDHCPv4 in
      if replyType = UnicastReply then
        (let i4 = layerIPv4\<lparr>SrcIP := To4 srcIP\<rparr>;
             dst0 = To4 (YourClientIP layerDHCPv4);
             dstIP = (if dst0 = None \<or> IsUnspecified dst0 then To4 (ClientIP layerDHCPv4) else dst0)
         in if dstIP = None then Inl InvalidClientIP
            else Inr (dstMAC, the (SetUnicast (Some layerDHCPv4)), i4\<lparr>DstIP := dstIP\<rparr>))
      else if replyType = BroadcastReply then
        Inr (if \<not> broadcastL2Unicast then EthernetBroadcast else dstMAC,
             the (SetBroadcast (Some layerDHCPv4)), layerIPv4\<lparr>SrcIP := IPv4zero, DstIP := IPv4bcast\<rparr>)
      else Inl (UnsupportedReplyType replyType))"

definition SelectReplyInterfaces :: "(string \<Rightarrow> string \<Rightarrow> bool) option \<Rightarrow> Interface list \<Rightarrow> Interface list" where
  "SelectReplyInterfaces match nics =
     (case match of
        None \<Rightarrow> []
      | Some m \<Rightarrow>
          filter (\<lambda>ni. \<not> (IfFlags ni AND FlagUp = 0 \<or> length (elems (HardwareAddr ni)) = 0) \<and>
                        m (IfName ni) (HardwareAddr_String (HardwareAddr ni))) nics)"

definition ReplyTargets ::
  "host \<Rightarrow> HandleOptions \<Rightarrow> (string \<Rightarrow> string \<Rightarrow> bool) option \<Rightarrow> Interface \<Rightarrow>
   Interface list \<times> InterfaceCache option \<times> effect list" where
  "ReplyTargets h cfg match ingress =
     (let targets = [ingress] in
      if match = None then (targets, ReplyInterfaceCache cfg, [])
      else case ReplyInterfaceCache cfg of
        None \<Rightarrow>
          (targets, None, [Logf Error ''Reply NIC match for client %s has no interface cache, using ingress %s''])
      | Some c \<Rightarrow>
          (case Interfaces h c of
             (nics, err, c') \<Rightarrow>
               (let logs = (if err \<and> length nics > 0
                            then [Logf Error ''Reply NIC enumeration for client %s degraded to a stale snapshot: %v''] else [])
                in if length nics = 0 then
                     (targets, Some c',
                      logs @ [Logf Error ''Reply NIC enumeration failed for client %s, using ingress %s: %v''])
                   else
                     (let matched = SelectReplyInterfaces match nics in
                      if length matched = 0 then
                        (targets, Some c',
                         logs @ [Logf Error ''Reply NIC match selected no live interface for client %s: using ingress %s''])
                      else
                        (matched, Some c',
                         logs @ (if \<not> list_ex (\<lambda>ni. Index ni = Index ingress) matched
                                 then [Logf Warn ''Reply NIC match for client %s does not include the ingress %s''] else []))))))"

subsection \<open>Sending\<close>

definition SendReply ::
  "gopacket \<Rightarrow> host \<Rightarrow> Raw \<Rightarrow> Interface \<Rightarrow> hwaddr \<Rightarrow> dhcpv4 \<Rightarrow> ipv4 \<Rightarrow> udp \<Rightarrow>
   (reply_copy_error option \<times> effect list) option" where
  "SendReply gp h rs nic dstMAC layerDHCPv4 layerIPv4 layerUDP =
     (if length (elems (HardwareAddr nic)) = 0 then Some (Some (NoHardwareAddress (IfName nic) (Index nic)), [])
      else
        (let eth = \<lparr>SrcMAC = HardwareAddr nic, DstMAC = dstMAC, EthernetType = EthernetTypeIPv4\<rparr> in
         case SerializeLayers gp [LEthernet eth, LIPv4 layerIPv4, LUDP layerUDP, LDHCPv4 layerDHCPv4] of
           None \<Rightarrow> Some (Some (CopyEncoding (IfName nic)), [])
         | Some buf \<Rightarrow>
             (case raw_Send (kern h) rs (Index nic) (HardwareAddr nic) (Htons (little_endian (kern h)) ETH_P_ALL) buf of
                None \<Rightarrow> None
              | Some (Inl err, es) \<Rightarrow> Some (Some (CopyWrite (IfName nic) err), es)
              | Some (Inr n, es) \<Rightarrow>
                  Some (None, es @ [Logf Debug ''Sent %d bytes of data to socket'', Logf Info logDataOutPrefix]))))"

text \<open>The loop over the outgoing NICs. The source address of the IPv4 layer is carried from copy to copy.\<close>

fun send_reply_copies ::
  "gopacket \<Rightarrow> host \<Rightarrow> Raw \<Rightarrow> ReplyType \<Rightarrow> Interface \<Rightarrow> ip \<Rightarrow> hwaddr \<Rightarrow> dhcpv4 \<Rightarrow> udp \<Rightarrow> ipv4 \<Rightarrow> Interface list \<Rightarrow>
   (reply_copy_error list \<times> effect list) option" where
  "send_reply_copies gp h rs replyType ifi srcIP dstMAC layer u i4 [] = Some ([], [])"
| "send_reply_copies gp h rs replyType ifi srcIP dstMAC layer u i4 (nic # nics) =
     (let send = (\<lambda>i4'. case SendReply gp h rs nic dstMAC layer i4' u of
                 None \<Rightarrow> None
               | Some (err, es) \<Rightarrow>
                   (case send_reply_copies gp h rs replyType ifi srcIP dstMAC layer u i4' nics of
                      None \<Rightarrow> None
                    | Some (errs, es') \<Rightarrow> Some (case err of None \<Rightarrow> errs | Some e \<Rightarrow> e # errs, es @ es')));
          skip = (\<lambda>e. case send_reply_copies gp h rs replyType ifi srcIP dstMAC layer u i4 nics of
                 None \<Rightarrow> None
               | Some (errs, es') \<Rightarrow> Some (e # errs, es'))
      in if replyType = UnicastReply \<and> Index nic \<noteq> Index ifi then
           (case InterfaceGlobalUnicastAddrs4 h nic of
              None \<Rightarrow> skip (AddressLookup (IfName nic))
            | Some addrs \<Rightarrow>
                (if length addrs = 0 then skip (NoCopyAddress (IfName nic))
                 else send (i4\<lparr>SrcIP := BestUnicastSrc addrs (YourClientIP layer)\<rparr>)))
         else if replyType = UnicastReply then send (i4\<lparr>SrcIP := srcIP\<rparr>)
         else send i4)"

subsection \<open>Handlers\<close>

text \<open>A nil decision stands for the zero decision.\<close>

definition decision_or_zero :: "Decision option \<Rightarrow> Decision" where
  "decision_or_zero dec = (case dec of None \<Rightarrow> zero_decision | Some d \<Rightarrow> d)"

definition reply_subopts :: "Decision \<Rightarrow> dhcpv4 \<Rightarrow> dhcp_option list" where
  "reply_subopts d layer =
     (case ReplySubOpts d of
        Some subs \<Rightarrow> subs
      | None \<Rightarrow>
          (let opt82 = GetRelayAgentInformationOption layer in
           if \<not> IsOption opt82 then [] else elems (DecodeRelayAgentInformationOption opt82)))"

text \<open>The first part of \<^verbatim>\<open>HandleGenericReply\<close>: the relay's own address and the ingress NIC, from the reply.\<close>

definition reply_ingress ::
  "host \<Rightarrow> Decision \<Rightarrow> dhcpv4 \<Rightarrow> (reply_error + (ip \<times> Interface)) \<times> effect list" where
  "reply_ingress h d layer =
     (let srcIP = To4 (RelayAgentIP layer) in
      if srcIP = None \<or> IsLoopback srcIP \<or> IP_Equal srcIP IPv4zero \<or> IP_Equal srcIP IPv4bcast
      then (Inl InvalidRelayAgent, [])
      else
        (let subOpts = reply_subopts d layer in
         if length subOpts = 0 then (Inl NoAgentInformation, [])
         else
           (let logs = map (\<lambda>el. Logf Debug ''Option 82 -> Sub-option: Type=%d, Len=%d, Data=[% x], ASCII=%s'') subOpts;
                ifIndex = ExtractAgentCircuitIDSubOptionData subOpts
            in if ifIndex = 0 then (Inl InvalidCircuitIDValue, logs)
               else case InterfaceByIndex h ifIndex of
                 None \<Rightarrow> (Inl (InvalidIngress ifIndex), logs)
               | Some ifi \<Rightarrow>
                   (if IfFlags ifi AND FlagUp = 0 \<or> length (elems (HardwareAddr ifi)) = 0
                    then (Inl (IngressUnusable (IfName ifi) ifIndex), logs)
                    else (Inr (srcIP, ifi), logs)))))"

definition reply_ipv4 :: "HandleOptions \<Rightarrow> u16 \<Rightarrow> ipv4" where
  "reply_ipv4 cfg ident =
     \<lparr>Version = IPv4Version, IHL = 0, Id = ident, IPFlags = IPv4DontFragment, FragOffset = 0, TTL = ReplyTTL cfg,
      Protocol = IPProtocolUDP, SrcIP = None, DstIP = None\<rparr>"

definition reply_udp :: udp where
  "reply_udp = \<lparr>SrcPort = of_nat DHCPv4ServerPort, DstPort = of_nat DHCPv4ClientPort\<rparr>"

text \<open>The part of \<^verbatim>\<open>HandleGenericReply\<close> that owns the raw socket, with the deferred \<^verbatim>\<open>Close\<close>.\<close>

definition send_through_socket ::
  "host \<Rightarrow> (Raw \<Rightarrow> (reply_copy_error list \<times> effect list) option) \<Rightarrow> (reply_error option \<times> effect list) option" where
  "send_through_socket h copies =
     (case raw_Create (kern h) (Htons (little_endian (kern h)) ETH_P_ALL) new_Raw of
        (Some err, rs, es) \<Rightarrow> Some (Some (SocketCreate err), es)
      | (None, rs, es) \<Rightarrow>
          (let close = snd (snd (raw_Close (kern h) rs)) in
           case raw_AttachBPF (kern h) rs drop_all_filter of
             (Some err, es1) \<Rightarrow> Some (Some (SocketAttach err), es @ es1 @ close)
           | (None, es1) \<Rightarrow>
               (case copies rs of
                  None \<Rightarrow> None
                | Some (errs, es2) \<Rightarrow>
                    Some (if errs = [] then None else Some (CopiesFailed errs), es @ es1 @ es2 @ close))))"

definition HandleGenericReply ::
  "gopacket \<Rightarrow> host \<Rightarrow> HandleOptions \<Rightarrow> Decision option \<Rightarrow> dhcpv4 \<Rightarrow> ReplyType \<Rightarrow>
   (reply_error option \<times> dhcpv4 \<times> InterfaceCache option \<times> effect list) option" where
  "HandleGenericReply gp h cfg dec layer replyType =
     (let d = decision_or_zero dec; cache = ReplyInterfaceCache cfg in
      if DropReply d then
        Some (None, layer, cache, [Logf Debug ''Dropping DHCPv4-%s reply: client %s (reply blackhole)''])
      else case reply_ingress h d layer of
        (Inl err, logs) \<Rightarrow> Some (Some err, layer, cache, logs)
      | (Inr (srcIP, ifi), logs) \<Rightarrow>
          (case GenerateRandomIPv4ID (rand_Read h) 0 of
             None \<Rightarrow> None
           | Some ident \<Rightarrow>
               (let i4 = reply_ipv4 cfg ident; u = reply_udp in
                if \<not> bind_udp_checksum gp u i4 then Some (Some LayerCrafting, layer, cache, logs)
                else
                  (let layer1 = (DeleteRelayAgentInformationOption layer)\<lparr>RelayAgentIP := None\<rparr> in
                   case ReplyAddressing replyType srcIP layer1 i4 (BroadcastReplyL2Unicast cfg) of
                     Inl err \<Rightarrow> Some (Some (AddressingFailed err), layer1, cache, logs)
                   | Inr (dstMAC, layer2, i4a) \<Rightarrow>
                       (case ReplyTargets h cfg (ReplyNICMatch d) ifi of
                          (targets, cache', logs1) \<Rightarrow>
                            (case send_through_socket h
                                    (\<lambda>rs. send_reply_copies gp h rs replyType ifi srcIP dstMAC layer2 u i4a targets) of
                               None \<Rightarrow> None
                             | Some (err, es) \<Rightarrow> Some (err, layer2, cache', logs @ logs1 @ es)))))))"

datatype forward_error = InvalidForwardAddress | HopsBelowMinimum u8 | ForwardSend request_error

definition ForwardRelayedReply ::
  "gopacket \<Rightarrow> host \<Rightarrow> dhcpv4 \<Rightarrow> forward_error option \<times> dhcpv4 \<times> effect list" where
  "ForwardRelayedReply gp h layer =
     (let giaddr = To4 (RelayAgentIP layer) in
      if giaddr = None \<or> IsUnspecified giaddr \<or> IsLoopback giaddr \<or> IP_Equal giaddr IPv4bcast
      then (Some InvalidForwardAddress, layer, [])
      else if RelayHops layer < 1 then (Some (HopsBelowMinimum (RelayHops layer)), layer, [])
      else
        (let layer1 = layer\<lparr>RelayHops := RelayHops layer - 1\<rparr> in
         case RelayToServer gp h (IPv4_String (elems giaddr)) layer1 of
           (err, es) \<Rightarrow> (map_option ForwardSend err, layer1, es)))"

subsection \<open>The copies of a reply\<close>

text \<open>The message a client gets: no Option 82, no giaddr, and the flag of its kind of reply.\<close>

definition client_message :: "ReplyType \<Rightarrow> dhcpv4 \<Rightarrow> dhcpv4" where
  "client_message replyType layer =
     (let l = (DeleteRelayAgentInformationOption layer)\<lparr>RelayAgentIP := None\<rparr>
      in the (if replyType = UnicastReply then SetUnicast (Some l) else SetBroadcast (Some l)))"

text \<open>The addresses of a reply: the destination, and the source of the copy out of one NIC, if it can have one.\<close>

definition reply_dst :: "ReplyType \<Rightarrow> dhcpv4 \<Rightarrow> ip" where
  "reply_dst replyType layer =
     (if replyType = UnicastReply then
        (if To4 (YourClientIP layer) = None \<or> IsUnspecified (To4 (YourClientIP layer))
         then To4 (ClientIP layer) else To4 (YourClientIP layer))
      else IPv4bcast)"

definition reply_mac :: "HandleOptions \<Rightarrow> ReplyType \<Rightarrow> dhcpv4 \<Rightarrow> hwaddr" where
  "reply_mac cfg replyType layer =
     (if replyType \<noteq> UnicastReply \<and> \<not> BroadcastReplyL2Unicast cfg then EthernetBroadcast else ClientHWAddr layer)"

definition copy_source :: "host \<Rightarrow> ReplyType \<Rightarrow> Interface \<Rightarrow> ip \<Rightarrow> ip \<Rightarrow> Interface \<Rightarrow> ip option" where
  "copy_source h replyType ifi srcIP yiaddr nic =
     (if replyType \<noteq> UnicastReply then Some IPv4zero
      else if Index nic = Index ifi then Some srcIP
      else case InterfaceGlobalUnicastAddrs4 h nic of
        Some (a # as) \<Rightarrow> Some (BestUnicastSrc (a # as) yiaddr)
      | _ \<Rightarrow> None)"

text \<open>The frame of a copy.\<close>

definition copy_bytes ::
  "gopacket \<Rightarrow> Interface \<Rightarrow> hwaddr \<Rightarrow> dhcpv4 \<Rightarrow> ipv4 \<Rightarrow> udp \<Rightarrow> bytes option" where
  "copy_bytes gp nic dstMAC layer i4 u =
     SerializeLayers gp
       [LEthernet \<lparr>SrcMAC = HardwareAddr nic, DstMAC = dstMAC, EthernetType = EthernetTypeIPv4\<rparr>,
        LIPv4 i4, LUDP u, LDHCPv4 layer]"

lemma SendReply_cases:
  assumes "SendReply gp h rs nic dstMAC layer i4 u = Some (err, es)"
  obtains (quiet) e where "err = Some e" "es = []"
  | (sent) buf res es' where "copy_bytes gp nic dstMAC layer i4 u = Some buf"
      "raw_Send (kern h) rs (Index nic) (HardwareAddr nic) (Htons (little_endian (kern h)) ETH_P_ALL) buf = Some (res, es')"
      "case res of Inl e \<Rightarrow> err = Some (CopyWrite (IfName nic) e) \<and> es = es'
       | Inr n \<Rightarrow> err = None \<and> es = es' @ [Logf Debug ''Sent %d bytes of data to socket'', Logf Info logDataOutPrefix]"
  using assms
  by (auto simp: SendReply_def copy_bytes_def Let_def split: if_splits option.splits sum.splits)

lemma SendReply_effects:
  assumes "SendReply gp h rs nic dstMAC layer i4 u = Some (err, es)"
  shows "fds_after fds es = fds \<and> datagrams es = [] \<and> (err = None \<longleftrightarrow> frames es \<noteq> []) \<and>
    (frames es = [] \<or> (\<exists>b. copy_bytes gp nic dstMAC layer i4 u = Some b \<and> frames es = [(Index nic, b)]))"
  using assms
proof (cases rule: SendReply_cases)
  case quiet
  then show ?thesis by simp
next
  case (sent buf res es')
  from raw_Send_effects(1-3) [OF sent(2)] sent(1,3) show ?thesis by (cases res) simp_all
qed

lemma set_SrcIP_same: "SrcIP i4 = a \<Longrightarrow> i4\<lparr>SrcIP := a\<rparr> = i4" for i4 :: ipv4
  by (cases i4) simp

lemma send_reply_copies_Cons:
  assumes "send_reply_copies gp h rs rt ifi srcIP mac layer u i4 (nic # nics) = Some (errs, es)"
    and "rt \<noteq> UnicastReply \<longrightarrow> SrcIP i4 = IPv4zero"
  obtains (skip) e errs' where "copy_source h rt ifi srcIP (YourClientIP layer) nic = None" "errs = e # errs'"
      "send_reply_copies gp h rs rt ifi srcIP mac layer u i4 nics = Some (errs', es)"
  | (send) src err es1 errs' es2 where "copy_source h rt ifi srcIP (YourClientIP layer) nic = Some src"
      "SendReply gp h rs nic mac layer (i4\<lparr>SrcIP := src\<rparr>) u = Some (err, es1)"
      "send_reply_copies gp h rs rt ifi srcIP mac layer u (i4\<lparr>SrcIP := src\<rparr>) nics = Some (errs', es2)"
      "es = es1 @ es2" "errs = (case err of None \<Rightarrow> errs' | Some e \<Rightarrow> e # errs')"
proof (cases "rt = UnicastReply \<and> Index nic \<noteq> Index ifi")
  case True
  show thesis
  proof (cases "InterfaceGlobalUnicastAddrs4 h nic")
    case None
    with True assms(1) skip show thesis by (auto simp: copy_source_def split: option.splits)
  next
    case (Some addrs)
    with True assms(1) skip send show thesis
      by (cases addrs) (auto simp: copy_source_def split: option.splits)
  qed
next
  case False
  show thesis
  proof (cases "rt = UnicastReply")
    case True
    with False have "Index nic = Index ifi" by simp
    with True assms(1) send show thesis by (auto simp: copy_source_def split: option.splits)
  next
    case False
    with assms send show thesis by (auto simp: copy_source_def set_SrcIP_same split: option.splits)
  qed
qed

text \<open>A frame that is the copy of the reply out of one of the NICs.\<close>

definition is_copy ::
  "gopacket \<Rightarrow> (Interface \<Rightarrow> ip option) \<Rightarrow> hwaddr \<Rightarrow> dhcpv4 \<Rightarrow> udp \<Rightarrow> ipv4 \<Rightarrow> Interface list \<Rightarrow> int \<times> bytes \<Rightarrow> bool" where
  "is_copy gp source mac layer u i4 nics f \<longleftrightarrow>
     (\<exists>nic src. nic \<in> set nics \<and> fst f = Index nic \<and> source nic = Some src \<and>
        copy_bytes gp nic mac layer (i4\<lparr>SrcIP := src\<rparr>) u = Some (snd f))"

lemma is_copy_Cons:
  "list_all (is_copy gp source mac layer u i4 nics) fs \<Longrightarrow> list_all (is_copy gp source mac layer u i4 (nic # nics)) fs"
  by (erule list.pred_mono_strong) (auto simp: is_copy_def)

lemma is_copy_SrcIP [simp]: "is_copy gp source mac layer u (i4\<lparr>SrcIP := a\<rparr>) nics = is_copy gp source mac layer u i4 nics"
  by (simp add: is_copy_def fun_eq_iff)

lemma send_reply_copies_frames:
  assumes "send_reply_copies gp h rs rt ifi srcIP mac layer u i4 nics = Some (errs, es)"
    and "rt \<noteq> UnicastReply \<longrightarrow> SrcIP i4 = IPv4zero"
  shows "fds_after fds es = fds \<and> datagrams es = [] \<and> length errs + length (frames es) = length nics \<and>
    subseq (map fst (frames es)) (map Index nics) \<and>
    list_all (is_copy gp (copy_source h rt ifi srcIP (YourClientIP layer)) mac layer u i4 nics) (frames es)"
  using assms
proof (induction nics arbitrary: i4 errs es)
  case Nil
  then show ?case by simp
next
  case (Cons nic nics)
  from Cons.prems show ?case
  proof (cases rule: send_reply_copies_Cons)
    case (skip e errs')
    from Cons.IH [OF skip(3) Cons.prems(2)] skip(2) show ?thesis by (auto intro: is_copy_Cons)
  next
    case (send src err es1 errs' es2)
    have "rt \<noteq> UnicastReply \<longrightarrow> SrcIP (i4\<lparr>SrcIP := src\<rparr>) = IPv4zero" using send(1) by (auto simp: copy_source_def)
    note rest = Cons.IH [OF send(3) this]
    note one = SendReply_effects [OF send(2), of fds]
    show ?thesis
    proof (cases "frames es1 = []")
      case True
      with one obtain e where "err = Some e" by blast
      with True one rest send(4,5) show ?thesis by (auto intro: is_copy_Cons)
    next
      case False
      with one obtain b where b: "copy_bytes gp nic mac layer (i4\<lparr>SrcIP := src\<rparr>) u = Some b" "frames es1 = [(Index nic, b)]"
        by blast
      with send(1) have "is_copy gp (copy_source h rt ifi srcIP (YourClientIP layer)) mac layer u i4 (nic # nics) (Index nic, b)"
        by (auto simp: is_copy_def)
      with b False one rest send(4,5) show ?thesis by (auto intro: is_copy_Cons)
    qed
  qed
qed

lemma send_through_socket_cases:
  assumes "send_through_socket h copies = Some (err, es)"
  obtains (failed) e where "err = Some e" "\<And>errs. e \<noteq> CopiesFailed errs" "frames es = []" "datagrams es = []"
  | (sent) rs errs es2 where "copies rs = Some (errs, es2)" "frames es = frames es2" "datagrams es = datagrams es2"
      "err = (if errs = [] then None else Some (CopiesFailed errs))"
proof -
  let ?k = "kern h"
  obtain e0 rs es0 where c: "raw_Create ?k (Htons (little_endian ?k) ETH_P_ALL) new_Raw = (e0, rs, es0)" by (metis prod_cases3)
  obtain e1 es1 where a: "raw_AttachBPF ?k rs drop_all_filter = (e1, es1)" by force
  obtain e2 rs2 es2 where cl: "raw_Close ?k rs = (e2, rs2, es2)" by (metis prod_cases3)
  note quiet = raw_quiet(1) [OF c] raw_quiet(2) [OF cl] raw_quiet(3) [OF a]
  show thesis
  proof (cases "e0 = None \<and> e1 = None")
    case True
    with assms c a cl quiet that(2) show thesis
      by (fastforce simp: send_through_socket_def Let_def split: option.splits)
  next
    case False
    with assms c a cl quiet that(1) show thesis
      by (auto simp: send_through_socket_def Let_def split: option.splits)
  qed
qed

lemma send_through_socket_fds:
  assumes "socket_ok (kern h)" "send_through_socket h copies = Some (err, es)"
    and quiet: "\<And>rs errs es' fs. copies rs = Some (errs, es') \<Longrightarrow> fds_after fs es' = fs"
  shows "fds_after fds es = fds"
proof -
  let ?k = "kern h"
  obtain e0 rs es0 where c: "raw_Create ?k (Htons (little_endian ?k) ETH_P_ALL) new_Raw = (e0, rs, es0)" by (metis prod_cases3)
  obtain e1 es1 where a: "raw_AttachBPF ?k rs drop_all_filter = (e1, es1)" by force
  have es1: "fds_after fs es1 = fs" for fs using raw_quiet(3) [OF a] by blast
  show ?thesis
  proof (cases e0)
    case None
    then obtain body where "es = es0 @ body @ snd (snd (raw_Close ?k rs))" "\<And>fs. fds_after fs body = fs"
      using assms(2) c a es1 quiet
      by (cases e1) (force simp: send_through_socket_def Let_def split: option.splits)+
    then show ?thesis using raw_socket.bracket [OF assms(1) c, of body fds] by blast
  next
    case (Some e)
    with assms(2) c raw_socket.failed_clean [OF assms(1)] show ?thesis by (simp add: send_through_socket_def)
  qed
qed

subsection \<open>The whole handler\<close>

lemma ReplyAddressing_Inr:
  assumes "ReplyAddressing rt srcIP l i4 b = Inr (mac, l', i4')"
  shows "rt = UnicastReply \<or> rt = BroadcastReply" "i4' = i4\<lparr>SrcIP := (if rt = UnicastReply then To4 srcIP else IPv4zero), DstIP := reply_dst rt l\<rparr>"
    "mac = (if rt \<noteq> UnicastReply \<and> \<not> b then EthernetBroadcast else ClientHWAddr l)" "reply_dst rt l \<noteq> None"
    "l' = the (if rt = UnicastReply then SetUnicast (Some l) else SetBroadcast (Some l))"
  using assms by (auto simp: ReplyAddressing_def reply_dst_def Let_def IPv4bcast_def IPv4_def split: if_splits)

lemma reply_ingress_logs: "reply_ingress h d layer = (r, logs) \<Longrightarrow> frames logs = [] \<and> datagrams logs = [] \<and> fds_after fds logs = fds"
proof -
  have "frames (map (\<lambda>el. Logf l m) xs) = [] \<and> datagrams (map (\<lambda>el. Logf l m) xs) = [] \<and>
    fds_after fds (map (\<lambda>el. Logf l m) xs) = fds" for l m and xs :: "dhcp_option list" by (induction xs) simp_all
  then show "reply_ingress h d layer = (r, logs) \<Longrightarrow> ?thesis"
    by (auto simp: reply_ingress_def Let_def split: if_splits option.splits)
qed

lemma ReplyTargets_logs:
  "ReplyTargets h cfg match ingress = (nics, c, logs) \<Longrightarrow> frames logs = [] \<and> datagrams logs = [] \<and> fds_after fds logs = fds"
  by (auto simp: ReplyTargets_def Let_def split: if_splits option.splits prod.splits)

lemma HandleGenericReply_after_ingress:
  assumes "HandleGenericReply gp h cfg dec layer rt = Some (err, layer', cache', es)"
    and "\<not> DropReply (decision_or_zero dec)" "reply_ingress h (decision_or_zero dec) layer = (Inr (srcIP, ifi), logs)"
  obtains (refused) e where "err = Some e" "\<And>errs. e \<noteq> CopiesFailed errs" "es = logs"
  | (sent) ident mac l2 i4a targets logs1 out where
      "ReplyAddressing rt srcIP ((DeleteRelayAgentInformationOption layer)\<lparr>RelayAgentIP := None\<rparr>)
         (reply_ipv4 cfg ident) (BroadcastReplyL2Unicast cfg) = Inr (mac, l2, i4a)"
      "ReplyTargets h cfg (ReplyNICMatch (decision_or_zero dec)) ifi = (targets, cache', logs1)" "layer' = l2"
      "send_through_socket h (\<lambda>rs. send_reply_copies gp h rs rt ifi srcIP mac l2 reply_udp i4a targets) = Some (err, out)"
      "es = logs @ logs1 @ out"
  using assms
  by (auto simp: HandleGenericReply_def Let_def split: option.splits if_splits sum.splits prod.splits)

lemma HandleGenericReply_cases:
  assumes "HandleGenericReply gp h cfg dec layer rt = Some (err, layer', cache', es)"
  obtains (dropped) "DropReply (decision_or_zero dec)" "err = None" "frames es = []" "datagrams es = []" "\<And>fds. fds_after fds es = fds"
  | (refused) e where "\<not> DropReply (decision_or_zero dec)" "err = Some e" "\<And>errs. e \<noteq> CopiesFailed errs"
      "frames es = []" "datagrams es = []" "\<And>fds. fds_after fds es = fds"
  | (sent) srcIP ifi logs ident targets logs1 out where
      "\<not> DropReply (decision_or_zero dec)" "reply_ingress h (decision_or_zero dec) layer = (Inr (srcIP, ifi), logs)"
      "reply_dst rt layer \<noteq> None" "rt = UnicastReply \<or> rt = BroadcastReply"
      "ReplyTargets h cfg (ReplyNICMatch (decision_or_zero dec)) ifi = (targets, cache', logs1)" "layer' = client_message rt layer"
      "send_through_socket h (\<lambda>rs. send_reply_copies gp h rs rt ifi srcIP (reply_mac cfg rt layer) (client_message rt layer)
         reply_udp ((reply_ipv4 cfg ident)\<lparr>SrcIP := (if rt = UnicastReply then To4 srcIP else IPv4zero), DstIP := reply_dst rt layer\<rparr>)
         targets) = Some (err, out)" "es = logs @ logs1 @ out"
proof (cases "DropReply (decision_or_zero dec)")
  case True
  with assms dropped show thesis by (auto simp: HandleGenericReply_def Let_def)
next
  case keep: False
  obtain r logs where ing: "reply_ingress h (decision_or_zero dec) layer = (r, logs)" by force
  note logs = reply_ingress_logs [OF ing]
  show thesis
  proof (cases r)
    case (Inl e)
    then have "\<And>errs. e \<noteq> CopiesFailed errs"
      using ing by (auto simp: reply_ingress_def Let_def split: if_splits option.splits)
    with keep ing Inl assms logs refused show thesis by (auto simp: HandleGenericReply_def Let_def)
  next
    case (Inr p)
    then obtain srcIP ifi where ing': "reply_ingress h (decision_or_zero dec) layer = (Inr (srcIP, ifi), logs)"
      using ing by force
    from assms keep ing' show thesis
    proof (cases rule: HandleGenericReply_after_ingress)
      case (refused e)
      with keep logs that(2) show thesis by blast
    next
      case (sent ident mac l2 i4a targets logs1 out)
      let ?l = "(DeleteRelayAgentInformationOption layer)\<lparr>RelayAgentIP := None\<rparr>"
      have fld: "reply_dst rt ?l = reply_dst rt layer" "ClientHWAddr ?l = ClientHWAddr layer"
        by (simp_all add: reply_dst_def DeleteRelayAgentInformationOption_def DeleteOption_def)
      note a = ReplyAddressing_Inr [OF sent(1)]
      have "mac = reply_mac cfg rt layer" "l2 = client_message rt layer"
        using a(3,5) fld by (simp_all add: reply_mac_def client_message_def Let_def)
      with sent a fld keep ing' that(3) [of srcIP ifi logs targets logs1 ident out] show thesis by simp
    qed
  qed
qed

lemma client_message_fields [simp]:
  "YourClientIP (client_message rt layer) = YourClientIP layer" "RelayAgentIP (client_message rt layer) = None"
  "Options (client_message rt layer) = Options (DeleteRelayAgentInformationOption layer)"
  "Xid (client_message rt layer) = Xid layer" "ClientHWAddr (client_message rt layer) = ClientHWAddr layer"
  by (simp_all add: client_message_def SetUnicast_def SetBroadcast_def DeleteRelayAgentInformationOption_def DeleteOption_def Let_def)

text \<open>What the socket part of the handler sends, given what the first part found.\<close>

lemma socket_frames:
  assumes "send_through_socket h (\<lambda>rs. send_reply_copies gp h rs rt ifi srcIP mac (client_message rt layer)
      u (i4\<lparr>SrcIP := (if rt = UnicastReply then To4 srcIP else IPv4zero), DstIP := dst\<rparr>) targets) = Some (err, out)"
  shows "datagrams out = []" "subseq (map fst (frames out)) (map Index targets)"
    "list_all (is_copy gp (copy_source h rt ifi srcIP (YourClientIP layer)) mac (client_message rt layer) u (i4\<lparr>DstIP := dst\<rparr>) targets)
       (frames out)"
    "case err of None \<Rightarrow> map fst (frames out) = map Index targets
     | Some (CopiesFailed errs) \<Rightarrow> errs \<noteq> [] \<and> length errs + length (frames out) = length targets
     | Some _ \<Rightarrow> frames out = []"
proof -
  let ?i4 = "i4\<lparr>SrcIP := (if rt = UnicastReply then To4 srcIP else IPv4zero), DstIP := dst\<rparr>"
  have copy: "is_copy gp src mac l u ?i4 targets = is_copy gp src mac l u (i4\<lparr>DstIP := dst\<rparr>) targets" for src l
    by (simp add: is_copy_def fun_eq_iff)
  from assms have "datagrams out = [] \<and> subseq (map fst (frames out)) (map Index targets) \<and>
    list_all (is_copy gp (copy_source h rt ifi srcIP (YourClientIP layer)) mac (client_message rt layer) u (i4\<lparr>DstIP := dst\<rparr>) targets)
       (frames out) \<and>
    (case err of None \<Rightarrow> map fst (frames out) = map Index targets
     | Some (CopiesFailed errs) \<Rightarrow> errs \<noteq> [] \<and> length errs + length (frames out) = length targets
     | Some _ \<Rightarrow> frames out = [])"
  proof (cases rule: send_through_socket_cases)
    case (failed e)
    then show ?thesis by (cases e) auto
  next
    case (sent rs errs es2)
    have "rt \<noteq> UnicastReply \<longrightarrow> SrcIP ?i4 = IPv4zero" by simp
    note c = send_reply_copies_frames [OF sent(1) this, of "[]", unfolded client_message_fields copy]
    have "map fst (frames es2) = map Index targets" if "errs = []"
      using c that subseq_same_length [of "map fst (frames es2)" "map Index targets"] by simp
    with c sent show ?thesis by auto
  qed
  then show "datagrams out = []" "subseq (map fst (frames out)) (map Index targets)"
    "list_all (is_copy gp (copy_source h rt ifi srcIP (YourClientIP layer)) mac (client_message rt layer) u (i4\<lparr>DstIP := dst\<rparr>) targets)
       (frames out)"
    "case err of None \<Rightarrow> map fst (frames out) = map Index targets
     | Some (CopiesFailed errs) \<Rightarrow> errs \<noteq> [] \<and> length errs + length (frames out) = length targets
     | Some _ \<Rightarrow> frames out = []"
    by blast+
qed

subsection \<open>Properties\<close>

text \<open>C6: Every frame the reply path sends is the copy of the reply out of one of the target NICs, the copies go
  out in the order of the targets with at most one per target, and nothing is sent over UDP. A copy is addressed from the NIC's
  hardware address to the client's or the broadcast address and from port 67 to port 68; its IPv4 source is the relay's own
  address on the ingress NIC, an address of the other NIC it leaves by, or 0.0.0.0 for a broadcast; its message is the reply
  without Option 82 and giaddr.\<close>

theorem reply_delivery:
  assumes "HandleGenericReply gp h cfg dec layer rt = Some (err, layer', cache', es)" and "frames es \<noteq> []"
  shows "datagrams es = [] \<and> layer' = client_message rt layer \<and>
    (\<exists>srcIP ifi logs ident targets logs1.
       reply_ingress h (decision_or_zero dec) layer = (Inr (srcIP, ifi), logs) \<and>
       ReplyTargets h cfg (ReplyNICMatch (decision_or_zero dec)) ifi = (targets, cache', logs1) \<and>
       reply_dst rt layer \<noteq> None \<and> subseq (map fst (frames es)) (map Index targets) \<and>
       list_all (is_copy gp (copy_source h rt ifi srcIP (YourClientIP layer)) (reply_mac cfg rt layer) (client_message rt layer)
         reply_udp ((reply_ipv4 cfg ident)\<lparr>DstIP := reply_dst rt layer\<rparr>) targets) (frames es))"
  using assms(1)
proof (cases rule: HandleGenericReply_cases)
  case (sent srcIP ifi logs ident targets logs1 out)
  have "frames es = frames out" "datagrams es = datagrams out"
    using sent(8) reply_ingress_logs [OF sent(2)] ReplyTargets_logs [OF sent(5)] by simp_all
  with sent socket_frames [OF sent(7)] show ?thesis by auto
qed (use assms(2) in simp_all)

text \<open>C13: The outcome of the reply path. Without an error either the reply was blackholed and nothing was sent,
  or every target NIC got its copy, and there was at least one. A failure of copies names at least one failed copy, and the failed and the sent copies
  together are as many as the targets. Every other error sends nothing.\<close>

theorem reply_outcome:
  assumes "HandleGenericReply gp h cfg dec layer rt = Some (err, layer', cache', es)"
  shows "case err of
      None \<Rightarrow>
        (if DropReply (decision_or_zero dec) then frames es = []
         else \<exists>srcIP ifi logs targets logs1.
           reply_ingress h (decision_or_zero dec) layer = (Inr (srcIP, ifi), logs) \<and>
           ReplyTargets h cfg (ReplyNICMatch (decision_or_zero dec)) ifi = (targets, cache', logs1) \<and>
           targets \<noteq> [] \<and> map fst (frames es) = map Index targets)
    | Some (CopiesFailed errs) \<Rightarrow>
        errs \<noteq> [] \<and> (\<exists>srcIP ifi logs targets logs1.
           reply_ingress h (decision_or_zero dec) layer = (Inr (srcIP, ifi), logs) \<and>
           ReplyTargets h cfg (ReplyNICMatch (decision_or_zero dec)) ifi = (targets, cache', logs1) \<and>
           length errs + length (frames es) = length targets)
    | Some _ \<Rightarrow> frames es = []"
  using assms
proof (cases rule: HandleGenericReply_cases)
  case dropped
  then show ?thesis by simp
next
  case (refused e)
  then show ?thesis using refused(3) [of "case e of CopiesFailed errs \<Rightarrow> errs | _ \<Rightarrow> []"] by (cases e) simp_all
next
  case (sent srcIP ifi logs ident targets logs1 out)
  have "frames es = frames out"
    using sent(8) reply_ingress_logs [OF sent(2)] ReplyTargets_logs [OF sent(5)] by simp
  moreover have "targets \<noteq> []"
    using sent(5) by (auto simp: ReplyTargets_def Let_def split: if_splits option.splits prod.splits)
  ultimately show ?thesis
    using sent(1,2,5) socket_frames(4) [OF sent(7)] by (auto split: option.splits reply_error.splits)
qed

text \<open>C25: Handling a reply leaves no descriptor open and closes none of another's, on every path, failed socket
  calls included.\<close>

theorem reply_no_leak:
  assumes "socket_ok (kern h)" and "HandleGenericReply gp h cfg dec layer rt = Some (err, layer', cache', es)"
  shows "fds_after fds es = fds"
  using assms(2)
proof (cases rule: HandleGenericReply_cases)
  case (sent srcIP ifi logs ident targets logs1 out)
  have "fds_after fds out = fds"
    by (rule send_through_socket_fds [OF assms(1) sent(7)]) (use send_reply_copies_frames in fastforce)
  then show ?thesis
    using sent(8) reply_ingress_logs [OF sent(2)] ReplyTargets_logs [OF sent(5)] by simp
qed simp_all

subsection \<open>Finding the ingress again\<close>

text \<open>A reply that brings back an Option 82 of the encoder is read as the sub-options that were encoded.\<close>

lemma Get_encoded:
  assumes "gopacket_ok gp" "IsOption (EncodeRelayAgentInformationOption gp subs)"
    and "GetOption layer RelayAgentInformation = EncodeRelayAgentInformationOption gp subs"
  shows "GetRelayAgentInformationOption layer = EncodeRelayAgentInformationOption gp subs"
proof -
  have "\<not> opt_Length (EncodeRelayAgentInformationOption gp subs) < 1" using assms(2) by (simp add: IsOption_def word_less_nat_alt)
  then show ?thesis
    using assms Encode_data_ne [OF assms(1,2)] by (simp add: GetRelayAgentInformationOption_def)
qed

lemma reply_subopts_echo:
  assumes "gopacket_ok gp" "IsOption (EncodeRelayAgentInformationOption gp subs)" "list_all exact_subopt subs"
    and "GetOption layer RelayAgentInformation = EncodeRelayAgentInformationOption gp subs" "ReplySubOpts d = None"
  shows "reply_subopts d layer = subs"
  using Get_encoded [OF assms(1,2,4)] Decode_Encode [OF assms(1-3)] assms(2,5) by (simp add: reply_subopts_def)

lemma reply_ingress_Inr:
  "fst (reply_ingress h d layer) = Inr (srcIP, ifi) \<longleftrightarrow>
     srcIP = To4 (RelayAgentIP layer) \<and> srcIP \<noteq> None \<and> \<not> IsLoopback srcIP \<and> \<not> IP_Equal srcIP IPv4zero \<and> \<not> IP_Equal srcIP IPv4bcast \<and>
     ExtractAgentCircuitIDSubOptionData (reply_subopts d layer) \<noteq> 0 \<and>
     InterfaceByIndex h (ExtractAgentCircuitIDSubOptionData (reply_subopts d layer)) = Some ifi \<and>
     IfFlags ifi AND FlagUp \<noteq> 0 \<and> elems (HardwareAddr ifi) \<noteq> []"
  by (auto simp: reply_ingress_def Let_def ExtractAgentCircuitIDSubOptionData.simps split: option.splits)

subsection \<open>A sample reply\<close>

definition sample_reply :: dhcpv4 where
  "sample_reply =
     sample_dhcpv4\<lparr>Operation := 2, RelayHops := 1, YourClientIP := Some [10, 0, 0, 9], RelayAgentIP := Some [10, 0, 0, 1],
       Options := [\<lparr>opt_Type = 53, opt_Length = 1, opt_Data = [5]\<rparr>,
                   EncodeRelayAgentInformationOption sample_gopacket [CreateAgentCircuitIDSubOption 7]]\<rparr>"

definition sample_sockaddr :: SockaddrLinklayer where
  "sample_sockaddr = \<lparr>ll_Protocol = 0x300, ll_Ifindex = 7, ll_Halen = 6, ll_Addr = [2, 0, 0, 0, 0, 7, 0, 0]\<rparr>"

lemma sample_raw_Send:
  "raw_Send sample_kernel \<lparr>raw_f = Some \<lparr>file_fd = 3, file_closed = False\<rparr>\<rparr> 7 (Some [2, 0, 0, 0, 0, 7]) (Htons True ETH_P_ALL) buf =
     Some (Inr (length buf), [SentRaw 3 sample_sockaddr buf])"
proof -
  have "Htons True ETH_P_ALL = 0x300" by code_simp
  then have sa: "setLinkLayerAddr (zero_sockaddr (Htons True ETH_P_ALL) 7) (Some [2, 0, 0, 0, 0, 7]) = Inr sample_sockaddr"
    by (simp add: setLinkLayerAddr_def zero_sockaddr_def go_copy_def sample_sockaddr_def numeral_eq_Suc)
  have att: "send_attempt sample_kernel f buf sa 0 = None" "send_attempt sample_kernel f buf sa (0 + 1) = Some None"
    "poll_wait sample_kernel i fd = None" for f sa i fd
    by (simp_all add: send_attempt_def sample_kernel_def)
  have loop: "poll_loop (send_attempt sample_kernel f buf sa) (\<lambda>i. poll_wait sample_kernel i fd) 0 = Some (Inr None)" for f sa fd
    by (subst poll_loop.simps, subst poll_loop.simps) (simp only: att option.case)
  have "poll_prepare sample_kernel fd = None" for fd by (simp add: sample_kernel_def)
  then show ?thesis by (simp add: raw_Send_def sa raw_io_def loop)
qed

lemma sample_reply_ingress: "reply_ingress sample_host zero_decision sample_reply =
    (Inr (Some [10, 0, 0, 1], sample_nic), [Logf Debug ''Option 82 -> Sub-option: Type=%d, Len=%d, Data=[% x], ASCII=%s''])"
proof -
  let ?subs = "[CreateAgentCircuitIDSubOption 7]"
  have ok: "IsOption (EncodeRelayAgentInformationOption sample_gopacket ?subs)"
    using length_circuit_id [of 7] wf_subopt_Length [OF wf_circuit_id]
    by (simp add: IsOption_Encode_iff [OF sample_gopacket_ok] MaxAgentCircuitIDSize_def)
  have "GetOption sample_reply RelayAgentInformation = EncodeRelayAgentInformationOption sample_gopacket ?subs"
    using Encode_type [OF sample_gopacket_ok ok] by (simp add: GetOption_def sample_reply_def RelayAgentInformation_def)
  from reply_subopts_echo [OF sample_gopacket_ok ok _ this, of zero_decision]
  have "reply_subopts zero_decision sample_reply = ?subs" by (simp add: wf_exact zero_decision_def)
  then show ?thesis
    by (simp add: reply_ingress_def sample_host_def) (simp add: sample_reply_def sample_nic_def ip_defs FlagUp_def)
qed

text \<open>The effects of delivering the sample reply.\<close>

definition sample_reply_effects :: "effect list" where
  "sample_reply_effects =
     [Logf Debug ''Option 82 -> Sub-option: Type=%d, Len=%d, Data=[% x], ASCII=%s'', FdOpen 3, FdFilter 3 drop_all_filter,
      SentRaw 3 sample_sockaddr [0, 0, 0, 1], Logf Debug ''Sent %d bytes of data to socket'', Logf Info logDataOutPrefix, FdClose 3]"

lemma sample_reply_run:
  "HandleGenericReply sample_gopacket sample_host sample_options None sample_reply UnicastReply =
     Some (None, client_message UnicastReply sample_reply, None, sample_reply_effects)"
proof -
  have k: "kern sample_host = sample_kernel" "little_endian sample_kernel = True" by (simp_all add: sample_host_def sample_kernel_def)
  have rnd: "GenerateRandomIPv4ID (rand_Read sample_host) 0 = Some 1"
    by (subst GenerateRandomIPv4ID.simps) (simp add: sample_host_def)
  have sock: "raw_Create sample_kernel p new_Raw = (None, \<lparr>raw_f = Some \<lparr>file_fd = 3, file_closed = False\<rparr>\<rparr>, [FdOpen 3])" for p
    by (simp add: raw_Create_def sample_kernel_def new_Raw_def NewFile_def)
  have att: "raw_AttachBPF sample_kernel \<lparr>raw_f = Some \<lparr>file_fd = 3, file_closed = False\<rparr>\<rparr> drop_all_filter = (None, [FdFilter 3 drop_all_filter])"
    "snd (snd (raw_Close sample_kernel \<lparr>raw_f = Some \<lparr>file_fd = 3, file_closed = False\<rparr>\<rparr>)) = [FdClose 3]"
    by (simp_all add: raw_AttachBPF_def raw_control_def drop_all_filter_def raw_Close_def File_Close_def sample_kernel_def)
  have mac: "HardwareAddr sample_nic = Some [2, 0, 0, 0, 0, 7]" "Index sample_nic = 7" by (simp_all add: sample_nic_def)
  let ?l = "(DeleteRelayAgentInformationOption sample_reply)\<lparr>RelayAgentIP := None\<rparr>"
  have cm: "client_message UnicastReply sample_reply = the (SetUnicast (Some ?l))" "RelayHops (client_message UnicastReply sample_reply) = 1"
    by (simp_all add: client_message_def SetUnicast_def DeleteRelayAgentInformationOption_def DeleteOption_def sample_reply_def)
  have adr: "\<exists>m i. ReplyAddressing UnicastReply (Some [10, 0, 0, 1]) ?l i4 b = Inr (m, client_message UnicastReply sample_reply, i)" for i4 b
    by (simp add: ReplyAddressing_def cm(1) Let_def)
      (simp add: sample_reply_def DeleteRelayAgentInformationOption_def DeleteOption_def ip_defs)
  have "SendReply sample_gopacket sample_host \<lparr>raw_f = Some \<lparr>file_fd = 3, file_closed = False\<rparr>\<rparr> sample_nic m
      (client_message UnicastReply sample_reply) i4 u =
    Some (None, [SentRaw 3 sample_sockaddr [0, 0, 0, 1], Logf Debug ''Sent %d bytes of data to socket'', Logf Info logDataOutPrefix])" for m i4 u
    by (simp add: SendReply_def mac k sample_raw_Send) (simp add: sample_gopacket_def cm(2) mac k sample_raw_Send)
  moreover have "\<not> DropReply zero_decision" "ReplyNICMatch zero_decision = None" "ReplyInterfaceCache sample_options = None"
    "bind_udp_checksum sample_gopacket u i" for u i
    by (simp_all add: zero_decision_def sample_options_def sample_gopacket_def)
  ultimately show ?thesis
    using adr [of "reply_ipv4 sample_options 1" "BroadcastReplyL2Unicast sample_options"]
    by (auto simp: HandleGenericReply_def decision_or_zero_def sample_reply_ingress rnd
        ReplyTargets_def send_through_socket_def k sock att sample_reply_effects_def Let_def)
qed

theorem reply_delivery_witness:
  "map fst (frames sample_reply_effects) = [7] \<and> datagrams sample_reply_effects = [] \<and>
   (\<exists>mac ident. is_copy sample_gopacket (copy_source sample_host UnicastReply sample_nic (Some [10, 0, 0, 1]) (Some [10, 0, 0, 9])) mac
     (client_message UnicastReply sample_reply) reply_udp ((reply_ipv4 sample_options ident)\<lparr>DstIP := Some [10, 0, 0, 9]\<rparr>)
     [sample_nic] (7, [0, 0, 0, 1]))"
proof -
  have fr: "frames sample_reply_effects = [(7, [0, 0, 0, 1])]" by (simp add: sample_reply_effects_def sample_sockaddr_def)
  have "decision_or_zero None = zero_decision" "YourClientIP sample_reply = Some [10, 0, 0, 9]"
    "reply_dst UnicastReply sample_reply = Some [10, 0, 0, 9]"
    by (simp_all add: decision_or_zero_def reply_dst_def sample_reply_def ip_defs)
  moreover have "ReplyTargets sample_host sample_options (ReplyNICMatch zero_decision) sample_nic = ([sample_nic], None, [])"
    by (simp add: ReplyTargets_def zero_decision_def sample_options_def)
  ultimately show ?thesis
    using reply_delivery [OF sample_reply_run] fr by (auto simp: sample_reply_ingress)
qed

theorem reply_outcome_witness:
  "map fst (frames sample_reply_effects) = [7]"
proof -
  have d: "decision_or_zero None = zero_decision" "\<not> DropReply zero_decision"
    "ReplyTargets sample_host sample_options (ReplyNICMatch zero_decision) sample_nic = ([sample_nic], None, [])"
    by (simp_all add: decision_or_zero_def zero_decision_def ReplyTargets_def sample_options_def)
  from reply_outcome [OF sample_reply_run] d show ?thesis
    by (auto simp: sample_reply_ingress) (simp add: sample_nic_def)
qed

theorem reply_no_leak_witness: "fds_after [9] sample_reply_effects = [9] \<and> FdOpen 3 \<in> set sample_reply_effects"
proof -
  have "socket_ok (kern sample_host)" by (simp add: socket_ok_def sample_host_def sample_kernel_def)
  from reply_no_leak [OF this sample_reply_run] show ?thesis by (simp add: sample_reply_effects_def)
qed

subsection \<open>The handler returns\<close>

text \<open>The random source answers some read, and every frame is taken or refused by some try.\<close>

definition answers :: "host \<Rightarrow> bool" where
  "answers h \<longleftrightarrow>
     (\<exists>i. rand_Read h i \<noteq> None) \<and>
     (\<forall>fd buf sa. \<exists>i. unix_Sendto (kern h) i fd buf sa \<noteq> Some EAGAIN \<or> poll_wait (kern h) i fd \<noteq> None)"

lemma SendReply_returns:
  assumes "answers h"
  shows "\<exists>res. SendReply gp h rs nic mac layer i4 u = Some res"
proof -
  have send: "\<exists>res. raw_Send (kern h) rs i a p buf = Some res" for i a p buf
    using assms raw_Send_returns unfolding answers_def by blast
  show ?thesis
  proof (cases "copy_bytes gp nic mac layer i4 u")
    case None
    then show ?thesis by (auto simp: SendReply_def copy_bytes_def)
  next
    case (Some buf)
    obtain r es where "raw_Send (kern h) rs (Index nic) (HardwareAddr nic) (Htons (little_endian (kern h)) ETH_P_ALL) buf = Some (r, es)"
      using send by fast
    with Some show ?thesis by (cases r) (auto simp: SendReply_def copy_bytes_def)
  qed
qed

lemma send_reply_copies_returns:
  assumes "answers h"
  shows "\<exists>res. send_reply_copies gp h rs rt ifi srcIP mac layer u i4 nics = Some res"
proof (induction nics arbitrary: i4)
  case (Cons nic nics)
  have "\<exists>res. (case SendReply gp h rs nic mac layer i4' u of None \<Rightarrow> None
     | Some (err, es) \<Rightarrow> (case send_reply_copies gp h rs rt ifi srcIP mac layer u i4' nics of None \<Rightarrow> None
        | Some (errs, es') \<Rightarrow> Some (case err of None \<Rightarrow> errs | Some e \<Rightarrow> e # errs, es @ es'))) = Some res" for i4'
  proof -
    obtain err es where "SendReply gp h rs nic mac layer i4' u = Some (err, es)" using SendReply_returns [OF assms] by fast
    moreover obtain errs es' where "send_reply_copies gp h rs rt ifi srcIP mac layer u i4' nics = Some (errs, es')" using Cons by fast
    ultimately show ?thesis by simp
  qed
  moreover obtain errs es' where "send_reply_copies gp h rs rt ifi srcIP mac layer u i4 nics = Some (errs, es')" using Cons by fast
  ultimately show ?case by (simp add: Let_def split: option.split)
qed simp

lemma HandleGenericReply_returns:
  assumes "answers h"
  shows "\<exists>res. HandleGenericReply gp h cfg dec layer rt = Some res"
proof -
  obtain i where "rand_Read h i \<noteq> None" using assms unfolding answers_def by blast
  then obtain ident where "GenerateRandomIPv4ID (rand_Read h) 0 = Some ident"
    using GenerateRandomIPv4ID_returns [of "rand_Read h" i 0] by blast
  moreover have "send_through_socket h (\<lambda>rs. send_reply_copies gp h rs rt ifi srcIP mac l u i4 nics) \<noteq> None"
    for ifi srcIP mac l u i4 nics
  proof -
    have "\<forall>rs. \<exists>res. send_reply_copies gp h rs rt ifi srcIP mac l u i4 nics = Some res"
      using send_reply_copies_returns [OF assms] by blast
    then obtain g where "\<forall>rs. send_reply_copies gp h rs rt ifi srcIP mac l u i4 nics = Some (g rs)" by (rule choice [elim_format]) blast
    then show ?thesis by (auto simp: send_through_socket_def Let_def split: option.splits prod.splits)
  qed
  ultimately have "HandleGenericReply gp h cfg dec layer rt \<noteq> None"
    by (simp add: HandleGenericReply_def Let_def del: not_None_eq split: sum.splits prod.splits option.splits)
  then show ?thesis by blast
qed

lemma answers_sample_host: "answers sample_host"
  by (auto simp: answers_def sample_host_def sample_kernel_def intro: exI [of _ 1])

text \<open>C32: The NICs a reply goes out of are never none. With a match and an interface cache they are exactly the
  listed NICs that are up, have a hardware address and match, in the order of the list; when there is no such NIC, no cache or
  no match they are the ingress NIC alone.\<close>

theorem ReplyTargets_correct:
  "fst (ReplyTargets h cfg match ingress) \<noteq> [] \<and>
   fst (ReplyTargets h cfg match ingress) =
     (case (match, ReplyInterfaceCache cfg) of
        (Some m, Some c) \<Rightarrow>
          (case [ni \<leftarrow> fst (Interfaces h c). bit (IfFlags ni) 0 \<and> elems (HardwareAddr ni) \<noteq> [] \<and>
                    m (IfName ni) (HardwareAddr_String (HardwareAddr ni))] of
             [] \<Rightarrow> [ingress]
           | nics \<Rightarrow> nics)
      | _ \<Rightarrow> [ingress])"
proof -
  have up: "f AND FlagUp = 0 \<longleftrightarrow> \<not> bit f 0" for f by (simp add: FlagUp_def and_one_eq odd_iff_mod_2_eq_one bit_0)
  show ?thesis
    by (auto simp: ReplyTargets_def SelectReplyInterfaces_def up Let_def split: option.splits prod.splits list.splits)
qed

text \<open>C40: A unicast reply in which both yiaddr and ciaddr are 0.0.0.0 passes the address check, which only rejects a
  missing ciaddr, and is addressed to 0.0.0.0.\<close>

theorem unicast_zero_destination:
  assumes "YourClientIP layer = Some [0, 0, 0, 0]" "ClientIP layer = Some [0, 0, 0, 0]"
  shows "\<exists>l i4'. ReplyAddressing UnicastReply srcIP layer i4 b = Inr (ClientHWAddr layer, l, i4') \<and> DstIP i4' = Some [0, 0, 0, 0]"
  using assms by (simp add: ReplyAddressing_def Let_def To4_def)

theorem unicast_zero_destination_witness:
  "\<exists>l i4'. ReplyAddressing UnicastReply (Some [10, 0, 0, 1]) sample_dhcpv4 (reply_ipv4 sample_options 1) False =
     Inr (ClientHWAddr sample_dhcpv4, l, i4') \<and> DstIP i4' = Some [0, 0, 0, 0]"
  by (rule unicast_zero_destination) (simp_all add: sample_dhcpv4_def)

end
