(* ===== verification/Handle.thy ===== *)
theory Handle
  imports Reply
begin

text \<open>
  The packet handler: \<^verbatim>\<open>Handle\<close> of \<^verbatim>\<open>pkg/dhcp4/dhcp4.go\<close>. It returns the message and the interface cache as it leaves them, and its
  effects; its errors only reach the log. The definitions it calls are total, so the recovery from a panic has no counterpart. The
  Ethernet, IPv4 and UDP layers only appear in a log line.
\<close>

definition log_error :: "level \<Rightarrow> string \<Rightarrow> 'e option \<Rightarrow> effect list" where
  "log_error lvl msg err = (if err = None then [] else [Logf lvl msg])"

definition handle_request ::
  "gopacket \<Rightarrow> option_sort \<Rightarrow> host \<Rightarrow> HandleOptions \<Rightarrow> Decision \<Rightarrow> int \<Rightarrow> dhcpv4 \<Rightarrow> dhcpv4 \<times> effect list" where
  "handle_request gp SortFunc h cfg d ifIndex layer =
     (if RelayHops layer > 0 then
        (case ForwardRelayedRequest gp h cfg (Some d) layer of
           (err, l, es) \<Rightarrow>
             (l, [Logf Info logDataInPrefix, Logf Debug ''Forwarding DHCPv4-%s relayed message: Xid=0x%x''] @ es @
                 log_error Error ''Error handling DHCPv4-%s relayed message: %v'' err))
      else
        (case HandleGenericRequest gp SortFunc h cfg (Some d) ifIndex layer of
           (err, l, es) \<Rightarrow>
             (l, [Logf Info logDataInPrefix] @ es @ log_error Error ''Error handling DHCPv4-%s relayed message: %v'' err)))"

definition handle_reply ::
  "gopacket \<Rightarrow> host \<Rightarrow> HandleOptions \<Rightarrow> Decision \<Rightarrow> dhcpv4 \<Rightarrow> (dhcpv4 \<times> InterfaceCache option \<times> effect list) option" where
  "handle_reply gp h cfg d layer =
     (let cache = ReplyInterfaceCache cfg in
      if RelayHops layer < 1 \<or> RelayHops layer > MaxHops cfg then
        Some (layer, cache, [Logf Debug ''Discarding DHCPv4-%s relayed message: unexpected hops count''])
      else if DropReply d then
        Some (layer, cache, [Logf Info logDataInPrefix, Logf Debug ''Dropping DHCPv4-%s reply: client %s (reply blackhole)''])
      else
        (let logs = [Logf Info logDataInPrefix] @
               (if GetBootFileName (Some layer) \<noteq> [] then [Logf Debug ''Boot File Name: %s''] else [])
         in if \<not> GiaddrIsLocal h cfg (RelayAgentIP layer) then
              (case ForwardRelayedReply gp h layer of
                 (err, l, es) \<Rightarrow>
                   Some (l, cache, logs @ es @ log_error Warn ''Error forwarding DHCPv4-%s reply to relay agent: %v'' err))
            else if IsUnicast (Some layer) then
              (case HandleGenericReply gp h cfg (Some d) layer UnicastReply of
                 None \<Rightarrow> None
               | Some (err, l, c, es) \<Rightarrow>
                   Some (l, c, logs @ es @ log_error Warn ''Error handling DHCPv4-%s unicast relayed message: %v'' err))
            else if IsBroadcast (Some layer) then
              (case HandleGenericReply gp h cfg (Some d) layer BroadcastReply of
                 None \<Rightarrow> None
               | Some (err, l, c, es) \<Rightarrow>
                   Some (l, c, logs @ es @ log_error Warn ''Error handling DHCPv4-%s broadcast relayed message: %v'' err))
            else Some (layer, cache, logs @ [Logf Debug ''Discarding DHCPv4-%s reply: unsupported flags=0x%x''])))"

definition Handle ::
  "gopacket \<Rightarrow> option_sort \<Rightarrow> host \<Rightarrow> HandleOptions \<Rightarrow> Decision option \<Rightarrow> int \<Rightarrow> dhcpv4 \<Rightarrow>
   (dhcpv4 \<times> InterfaceCache option \<times> effect list) option" where
  "Handle gp SortFunc h cfg dec ifIndex layer =
     (let d = decision_or_zero dec in
      if GetMessageType gp layer = [] then
        Some (layer, ReplyInterfaceCache cfg, [Logf Debug ''Discarding DHCPv4-%s relayed message: invalid type''])
      else if Operation layer = DHCPOpRequest then
        (case handle_request gp SortFunc h cfg d ifIndex layer of (l, es) \<Rightarrow> Some (l, ReplyInterfaceCache cfg, es))
      else if Operation layer = DHCPOpReply then handle_reply gp h cfg d layer
      else Some (layer, ReplyInterfaceCache cfg, [Logf Debug ''Discarding DHCPv4-%s message: unsupported operation=%s'']))"

subsection \<open>What the paths send\<close>

lemma log_error_quiet [simp]:
  "datagrams (log_error l m err) = []" "frames (log_error l m err) = []" "fds_after fds (log_error l m err) = fds"
  by (simp_all add: log_error_def)

lemma SendToServer_quiet: "SendToServer h srv buf = (err, es) \<Longrightarrow> frames es = [] \<and> fds_after fds es = fds"
  using SendToServer_datagrams(2,3) by blast

lemma send_copy_keeps:
  assumes "send_copy gp h srv layer g = (r, l, es)"
  shows "l = layer\<lparr>RelayAgentIP := g\<rparr> \<and> frames es = [] \<and> fds_after fds es = fds"
proof (cases "SerializeLayers gp [LDHCPv4 (layer\<lparr>RelayAgentIP := g\<rparr>)]")
  case None
  with assms show ?thesis by (auto simp: send_copy_def Let_def)
next
  case (Some buf)
  obtain err es' where s: "SendToServer h srv buf = (err, es')" by force
  from assms Some s SendToServer_quiet [OF s, of fds] show ?thesis by (cases err) (auto simp: send_copy_def Let_def)
qed

lemma send_copies_keeps:
  assumes "send_copies gp h srv layer addrs = (r, l, es)"
  shows "(\<exists>g. l = layer\<lparr>RelayAgentIP := g\<rparr>) \<and> frames es = [] \<and> fds_after fds es = fds"
  using assms
proof (induction addrs arbitrary: layer r l es)
  case Nil
  then show ?case by (auto intro: exI [of _ "RelayAgentIP l"])
next
  case (Cons a addrs)
  obtain r1 l1 es1 where c: "send_copy gp h srv layer (IP a) = (r1, l1, es1)" by (metis prod_cases3)
  obtain r2 l2 es2 where rest: "send_copies gp h srv l1 addrs = (r2, l2, es2)" by (metis prod_cases3)
  from Cons.prems c rest send_copy_keeps [OF c, of fds] Cons.IH [OF rest] show ?case
    by (cases r1) auto
qed

lemma HandleGenericRequest_cases:
  assumes "HandleGenericRequest gp SortFunc h cfg dec ifIndex layer = (err, l, es)"
  obtains (quiet) "datagrams es = []" "frames es = []" "\<And>fds. fds_after fds es = fds"
  | (sent) lay srv ov addrs logs es' where "RelayHops layer < MaxHops cfg" "RelayHops lay = RelayHops layer + 1"
      "Operation lay = Operation layer"
      "(if ov \<noteq> None then send_copy gp h srv lay ov else send_copies gp h srv lay addrs) = (err, l, es')"
      "es = logs @ es'" "datagrams logs = []" "frames logs = []" "\<And>fds. fds_after fds logs = fds"
proof (cases "RelayHops layer \<ge> MaxHops cfg")
  case True
  with assms quiet show thesis by (auto simp: HandleGenericRequest_def)
next
  case hops: False
  show thesis
  proof (cases "ResolveGiaddr h cfg dec ifIndex")
    case (Inl e)
    with hops assms quiet show thesis by (auto simp: HandleGenericRequest_def)
  next
    case (Inr x)
    obtain addrs ov sub where x: "x = (addrs, ov, sub)" by (metis prod_cases3)
    define opt82 where "opt82 = (let routing = routing_subopts (CreateAgentCircuitIDSubOption (word_of_int ifIndex)) sub;
       opt82a = EncodeRelayAgentInformationOption gp (full_subopts dec routing)
       in if \<not> IsOption opt82a then EncodeRelayAgentInformationOption gp routing else opt82a)"
    show thesis
    proof (cases "IsOption (CreateAgentCircuitIDSubOption (word_of_int ifIndex)) \<and> IsOption opt82")
      case True
      obtain r l' es' where c: "(if ov \<noteq> None
          then send_copy gp h (EffectiveServerAddress cfg dec) ((SetOption SortFunc layer opt82)\<lparr>RelayHops := RelayHops layer + 1\<rparr>) ov
          else send_copies gp h (EffectiveServerAddress cfg dec) ((SetOption SortFunc layer opt82)\<lparr>RelayHops := RelayHops layer + 1\<rparr>) addrs)
          = (r, l', es')" by (metis prod_cases3)
      let ?full = "full_subopts dec (routing_subopts (CreateAgentCircuitIDSubOption (word_of_int ifIndex)) sub)"
      define logs where "logs = [Logf Debug ''Option 82 -> Sub-option: Type=%d, Len=%d, Data=[% x], ASCII=%s''] @
        (if \<not> IsOption (EncodeRelayAgentInformationOption gp ?full)
         then [Logf Debug ''Policy tag too large for Option 82, relaying without it''] else [])"
      have "HandleGenericRequest gp SortFunc h cfg dec ifIndex layer = (r, l', logs @ es')"
        using hops Inr x True c
        by (cases "IsOption (EncodeRelayAgentInformationOption gp ?full)"; cases ov)
          (simp_all add: HandleGenericRequest_def opt82_def logs_def Let_def)
      then have "err = r" "l = l'" "es = logs @ es'" using assms by simp_all
      with c hops show thesis
        by (intro sent [OF _ _ _ _ \<open>es = logs @ es'\<close>]) (auto simp: logs_def SetOption_def)
    next
      case False
      with assms hops Inr x quiet show thesis
        by (auto simp: HandleGenericRequest_def opt82_def Let_def split: if_splits)
    qed
  qed
qed

lemma HandleGenericRequest_keeps:
  assumes "HandleGenericRequest gp SortFunc h cfg dec ifIndex layer = (err, l, es)"
  shows "frames es = [] \<and> fds_after fds es = fds \<and>
    (datagrams es \<noteq> [] \<longrightarrow> RelayHops layer < MaxHops cfg \<and> RelayHops l = RelayHops layer + 1 \<and> Operation l = Operation layer)"
  using assms
proof (cases rule: HandleGenericRequest_cases)
  case (sent lay srv ov addrs logs es')
  have "(\<exists>g. l = lay\<lparr>RelayAgentIP := g\<rparr>) \<and> frames es' = [] \<and> fds_after fds es' = fds"
    using sent(4) send_copy_keeps [where fds = fds] send_copies_keeps [where fds = fds] by (cases ov) fastforce+
  with sent show ?thesis by auto
qed simp

lemma RelayToServer_quiet:
  assumes "RelayToServer gp h dst layer = (err, es)"
  shows "frames es = [] \<and> fds_after fds es = fds"
proof (cases "SerializeLayers gp [LDHCPv4 layer]")
  case (Some buf)
  obtain e es' where s: "SendToServer h dst buf = (e, es')" by force
  from assms Some s SendToServer_quiet [OF s, of fds] show ?thesis by (cases e) (auto simp: RelayToServer_def)
qed (use assms in \<open>simp add: RelayToServer_def\<close>)

lemma ForwardRelayedRequest_keeps:
  assumes "ForwardRelayedRequest gp h cfg dec layer = (err, l, es)"
  shows "frames es = [] \<and> fds_after fds es = fds \<and>
    (datagrams es \<noteq> [] \<longrightarrow> RelayHops layer < MaxHops cfg \<and> RelayHops l = RelayHops layer + 1 \<and> Operation l = Operation layer)"
proof -
  obtain e es' where r: "RelayToServer gp h (EffectiveServerAddress cfg dec) (layer\<lparr>RelayHops := RelayHops layer + 1\<rparr>) = (e, es')" by force
  from assms r RelayToServer_quiet [OF r, of fds] show ?thesis
    by (cases e) (auto simp: ForwardRelayedRequest_def Let_def split: if_splits)
qed

lemma ForwardRelayedReply_keeps:
  assumes "ForwardRelayedReply gp h layer = (err, l, es)"
  shows "frames es = [] \<and> fds_after fds es = fds \<and>
    (datagrams es \<noteq> [] \<longrightarrow> RelayHops layer \<noteq> 0 \<and> RelayHops l = RelayHops layer - 1 \<and> Operation l = Operation layer)"
proof -
  obtain e es' where r: "RelayToServer gp h (IPv4_String (elems (To4 (RelayAgentIP layer)))) (layer\<lparr>RelayHops := RelayHops layer - 1\<rparr>) = (e, es')" by force
  from assms r RelayToServer_quiet [OF r, of fds] show ?thesis
    by (cases e) (auto simp: ForwardRelayedReply_def Let_def not_less split: if_splits)
qed

lemma handle_request_keeps:
  assumes "handle_request gp SortFunc h cfg d ifIndex layer = (l, es)"
  shows "frames es = [] \<and> fds_after fds es = fds \<and>
    (datagrams es \<noteq> [] \<longrightarrow> RelayHops layer < MaxHops cfg \<and> RelayHops l = RelayHops layer + 1 \<and> Operation l = Operation layer)"
proof -
  obtain e1 l1 es1 where f: "ForwardRelayedRequest gp h cfg (Some d) layer = (e1, l1, es1)" by (metis prod_cases3)
  obtain e2 l2 es2 where g: "HandleGenericRequest gp SortFunc h cfg (Some d) ifIndex layer = (e2, l2, es2)" by (metis prod_cases3)
  from assms f g ForwardRelayedRequest_keeps [OF f, of fds] HandleGenericRequest_keeps [OF g, of fds] show ?thesis
    by (auto simp: handle_request_def split: if_splits)
qed

lemma HandleGenericReply_no_datagrams:
  assumes "HandleGenericReply gp h cfg dec layer rt = Some (err, l, c, es)"
  shows "datagrams es = []"
  using assms
proof (cases rule: HandleGenericReply_cases)
  case (sent srcIP ifi logs ident targets logs1 out)
  then show ?thesis
    using socket_frames(1) [OF sent(7)] reply_ingress_logs [OF sent(2)] ReplyTargets_logs [OF sent(5)] by simp
qed simp_all

text \<open>The paths of a reply.\<close>

lemma handle_reply_cases:
  assumes "handle_reply gp h cfg d layer = Some (l, c, es)"
  obtains (quiet) "datagrams es = []" "frames es = []" "\<And>fds. fds_after fds es = fds"
  | (forward) err es' where "RelayHops layer \<noteq> 0" "RelayHops layer \<le> MaxHops cfg" "\<not> DropReply d"
      "\<not> GiaddrIsLocal h cfg (RelayAgentIP layer)" "ForwardRelayedReply gp h layer = (err, l, es')"
      "datagrams es = datagrams es'" "frames es = frames es'" "\<And>fds. fds_after fds es = fds_after fds es'"
  | (local_reply) err es' where "RelayHops layer \<noteq> 0" "RelayHops layer \<le> MaxHops cfg" "\<not> DropReply d"
      "GiaddrIsLocal h cfg (RelayAgentIP layer)"
      "HandleGenericReply gp h cfg (Some d) layer (if bit (Flags layer) 15 then BroadcastReply else UnicastReply) = Some (err, l, c, es')"
      "datagrams es = datagrams es'" "frames es = frames es'" "\<And>fds. fds_after fds es = fds_after fds es'"
proof -
  have boot: "datagrams (if b then [Logf Debug m] else []) = []" "frames (if b then [Logf Debug m] else []) = []"
    "fds_after fds (if b then [Logf Debug m] else []) = fds" for b m fds by simp_all
  consider "RelayHops layer = 0 \<or> RelayHops layer > MaxHops cfg \<or> DropReply d"
    | (f) "RelayHops layer \<noteq> 0" "RelayHops layer \<le> MaxHops cfg" "\<not> DropReply d" "\<not> GiaddrIsLocal h cfg (RelayAgentIP layer)"
    | (r) "RelayHops layer \<noteq> 0" "RelayHops layer \<le> MaxHops cfg" "\<not> DropReply d" "GiaddrIsLocal h cfg (RelayAgentIP layer)"
    by fastforce
  then show thesis
  proof cases
    case 1
    with assms quiet show thesis by (auto simp: handle_reply_def Let_def split: if_splits)
  next
    case f
    obtain err l' es' where fw: "ForwardRelayedReply gp h layer = (err, l', es')" by (metis prod_cases3)
    have "handle_reply gp h cfg d layer =
      Some (l', ReplyInterfaceCache cfg, ([Logf Info logDataInPrefix] @
        (if GetBootFileName (Some layer) \<noteq> [] then [Logf Debug ''Boot File Name: %s''] else [])) @ es' @
        log_error Warn ''Error forwarding DHCPv4-%s reply to relay agent: %v'' err)"
      using f fw by (simp add: handle_reply_def Let_def not_less)
    with assms have "l = l'" "datagrams es = datagrams es'" "frames es = frames es'" "\<And>fds. fds_after fds es = fds_after fds es'"
      by (auto simp: boot)
    with f fw forward show thesis by blast
  next
    case r
    have "\<exists>err es'. HandleGenericReply gp h cfg (Some d) layer (if bit (Flags layer) 15 then BroadcastReply else UnicastReply) = Some (err, l, c, es') \<and>
      datagrams es = datagrams es' \<and> frames es = frames es' \<and> (\<forall>fds. fds_after fds es = fds_after fds es')"
      using assms r
      by (auto simp: handle_reply_def Let_def IsUnicast_bit IsBroadcast_bit boot split: option.splits if_splits)
    with r local_reply show thesis by blast
  qed
qed

text \<open>The outcomes of the whole handler.\<close>

lemma Handle_cases:
  assumes "Handle gp SortFunc h cfg dec ifIndex layer = Some (l, c, es)"
  obtains (quiet) "datagrams es = []" "frames es = []"
  | (request) "GetMessageType gp layer \<noteq> []" "Operation layer = DHCPOpRequest" "frames es = []"
      "RelayHops layer < MaxHops cfg" "RelayHops l = RelayHops layer + 1" "Operation l = Operation layer"
  | (forward) "GetMessageType gp layer \<noteq> []" "Operation layer = DHCPOpReply" "frames es = []"
      "RelayHops layer \<noteq> 0" "RelayHops layer \<le> MaxHops cfg" "RelayHops l = RelayHops layer - 1" "Operation l = Operation layer"
      "\<not> DropReply (decision_or_zero dec)" "\<not> GiaddrIsLocal h cfg (RelayAgentIP layer)"
  | (local_reply) err es' where "GetMessageType gp layer \<noteq> []" "Operation layer = DHCPOpReply" "datagrams es = []"
      "RelayHops layer \<noteq> 0" "RelayHops layer \<le> MaxHops cfg" "\<not> DropReply (decision_or_zero dec)"
      "GiaddrIsLocal h cfg (RelayAgentIP layer)" "frames es = frames es'"
      "HandleGenericReply gp h cfg (Some (decision_or_zero dec)) layer
         (if bit (Flags layer) 15 then BroadcastReply else UnicastReply) = Some (err, l, c, es')"
proof -
  let ?d = "decision_or_zero dec"
  consider "datagrams es = []" "frames es = []"
    | (req) "GetMessageType gp layer \<noteq> []" "Operation layer = DHCPOpRequest" "handle_request gp SortFunc h cfg ?d ifIndex layer = (l, es)"
    | (rep) "GetMessageType gp layer \<noteq> []" "Operation layer = DHCPOpReply" "handle_reply gp h cfg ?d layer = Some (l, c, es)"
    using assms by (auto simp: Handle_def Let_def split: if_splits prod.splits)
  then show thesis
  proof cases
    case 1
    then show thesis by (rule quiet)
  next
    case req
    with handle_request_keeps [OF req(3)] quiet request show thesis by blast
  next
    case rep
    from rep(3) show thesis
    proof (cases rule: handle_reply_cases)
      case quiet
      with that(1) show thesis by blast
    next
      case (forward err es')
      with ForwardRelayedReply_keeps [OF forward(5), of "[]"] rep that(1,3) show thesis by (cases "datagrams es' = []") simp_all
    next
      case (local_reply err es')
      with HandleGenericReply_no_datagrams [OF local_reply(5)] rep that(4) show thesis by simp
    qed
  qed
qed

subsection \<open>Properties\<close>

text \<open>C5: Frames reach client segments only as copies of a reply whose hop count is between one and the maximum,
  whose giaddr is local, and whose policy does not drop replies, and then no datagram is sent. Datagrams are only sent for a
  request below the hop limit, with the hop count one higher, or for such a reply with a giaddr that is not local, with the hop
  count one lower. Everything else, a message without a valid type included, is discarded without a packet.\<close>

theorem Handle_safety:
  assumes "Handle gp SortFunc h cfg dec ifIndex layer = Some (l, c, es)"
  shows "(frames es \<noteq> [] \<longrightarrow>
      GetMessageType gp layer \<noteq> [] \<and> Operation layer = DHCPOpReply \<and> RelayHops layer \<noteq> 0 \<and> RelayHops layer \<le> MaxHops cfg \<and>
      \<not> DropReply (decision_or_zero dec) \<and> GiaddrIsLocal h cfg (RelayAgentIP layer) \<and> datagrams es = []) \<and>
    (datagrams es \<noteq> [] \<longrightarrow>
      GetMessageType gp layer \<noteq> [] \<and> Operation l = Operation layer \<and>
      (Operation layer = DHCPOpRequest \<and> RelayHops layer < MaxHops cfg \<and> RelayHops l = RelayHops layer + 1 \<or>
       Operation layer = DHCPOpReply \<and> RelayHops layer \<noteq> 0 \<and> RelayHops layer \<le> MaxHops cfg \<and>
       RelayHops l = RelayHops layer - 1 \<and> \<not> DropReply (decision_or_zero dec) \<and> \<not> GiaddrIsLocal h cfg (RelayAgentIP layer)))"
  using assms by (cases rule: Handle_cases) simp_all

text \<open>A message that a relay with hop limit \<open>m\<close> sends on as a datagram, and the message it sends.\<close>

definition forwards :: "u8 \<Rightarrow> dhcpv4 \<Rightarrow> dhcpv4 \<Rightarrow> bool" where
  "forwards m layer l \<longleftrightarrow>
     (\<exists>gp SortFunc h cfg dec ifIndex c es.
        MaxHops cfg = m \<and> Handle gp SortFunc h cfg dec ifIndex layer = Some (l, c, es) \<and> datagrams es \<noteq> [])"

definition hops_left :: "u8 \<Rightarrow> dhcpv4 \<Rightarrow> nat" where
  "hops_left m layer = (if Operation layer = DHCPOpRequest then unat m - unat (RelayHops layer) else unat (RelayHops layer))"

lemma forwards_hops:
  assumes "forwards m layer l"
  shows "hops_left m l < hops_left m layer \<and> hops_left m layer \<le> unat m"
proof -
  obtain gp SortFunc h cfg dec ifIndex c es where m: "MaxHops cfg = m"
    and run: "Handle gp SortFunc h cfg dec ifIndex layer = Some (l, c, es)" and sent: "datagrams es \<noteq> []"
    using assms by (auto simp: forwards_def)
  from run show ?thesis
  proof (cases rule: Handle_cases)
    case request
    then have "unat (RelayHops layer) < unat m" using m by (simp add: word_less_nat_alt)
    moreover from this have "unat (RelayHops layer + 1) = unat (RelayHops layer) + 1"
      using unat_u8_less [of m] by (simp add: unat_word_ariths)
    ultimately show ?thesis using request by (simp add: hops_left_def)
  next
    case forward
    then have "unat (RelayHops layer - 1) < unat (RelayHops layer)" "unat (RelayHops layer) \<le> unat m"
      using m by (simp_all add: unat_minus_one word_le_nat_alt unat_gt_0)
    moreover have "DHCPOpReply \<noteq> DHCPOpRequest" by (simp add: layers_defs)
    ultimately show ?thesis using forward by (simp add: hops_left_def)
  qed (use sent in simp_all)
qed

text \<open>C4: There is no forwarding loop: a message handed from relay to relay, all with hop limit \<open>m\<close> and each with
  any host, policy decision and configuration besides, is sent on at most \<open>m\<close> times. Requests climb to the limit and replies
  drain to zero.\<close>

theorem no_forwarding_loop:
  assumes "(forwards m ^^ n) layer l"
  shows "n \<le> unat m"
proof -
  have "n \<le> hops_left m layer" using assms
  proof (induction n arbitrary: layer)
    case (Suc n)
    then obtain l1 where "forwards m layer l1" "(forwards m ^^ n) l1 l" by (blast dest: relpowp_Suc_D2)
    with Suc.IH forwards_hops show ?case by fastforce
  qed simp
  moreover have "hops_left m layer \<le> unat m" if "n = Suc k" for k
    using assms forwards_hops relpowp_Suc_D2 [of k "forwards m" layer l] that by blast
  ultimately show ?thesis by (cases n) auto
qed

definition sample_relayed :: dhcpv4 where
  "sample_relayed = sample_dhcpv4\<lparr>RelayHops := 1\<rparr>"

lemma sample_relayed_run:
  assumes "MaxHops cfg = 16"
  shows "\<exists>es. Handle sample_gopacket (sort_key opt_Type) sample_host cfg None 7 sample_relayed =
     Some (sample_relayed\<lparr>RelayHops := 2\<rparr>, ReplyInterfaceCache cfg, es) \<and> datagrams es = [((Some [192, 0, 2, 1], 67), [2, 0, 0, 0, 0])]"
proof -
  have t: "GetMessageType sample_gopacket sample_relayed \<noteq> []"
    by (simp add: GetMessageType_def sample_relayed_def sample_dhcpv4_def GetOption_def IsOption_def layers_defs known_message_types_def
        sample_gopacket_def ToUpper_def)
  have "RelayToServer sample_gopacket sample_host srv (sample_relayed\<lparr>RelayHops := 2\<rparr>) =
      (None, [SentUDP (Some [192, 0, 2, 1], 67) [2, 0, 0, 0, 0], Logf Debug ''Sent %d bytes of data to socket'', Logf Info logDataOutPrefix])" for srv
    by (simp add: RelayToServer_def SendToServer_def sample_gopacket_def sample_host_def sample_relayed_def sample_dhcpv4_def)
  then show ?thesis
    by (simp add: Handle_def t handle_request_def ForwardRelayedRequest_def Let_def)
      (simp add: sample_relayed_def sample_dhcpv4_def assms layers_defs log_error_def word_le_nat_alt)
qed

theorem Handle_safety_witness:
  "\<exists>l es. Handle sample_gopacket (sort_key opt_Type) sample_host sample_options None 7 sample_relayed = Some (l, None, es) \<and>
     datagrams es \<noteq> [] \<and> RelayHops sample_relayed < MaxHops sample_options \<and> RelayHops l = RelayHops sample_relayed + 1"
proof -
  obtain es where run: "Handle sample_gopacket (sort_key opt_Type) sample_host sample_options None 7 sample_relayed =
     Some (sample_relayed\<lparr>RelayHops := 2\<rparr>, None, es)" "datagrams es \<noteq> []"
    using sample_relayed_run [of sample_options] by (auto simp: sample_options_def)
  moreover have "Operation sample_relayed \<noteq> DHCPOpReply" by (simp add: sample_relayed_def sample_dhcpv4_def layers_defs)
  ultimately show ?thesis using Handle_safety [OF run(1)] by auto
qed

theorem no_forwarding_loop_witness: "(forwards 16 ^^ 1) sample_relayed (sample_relayed\<lparr>RelayHops := 2\<rparr>) \<and> (1 :: nat) \<le> unat (16 :: u8)"
proof -
  have "MaxHops sample_options = 16" by (simp add: sample_options_def)
  then have step: "(forwards 16 ^^ 1) sample_relayed (sample_relayed\<lparr>RelayHops := 2\<rparr>)"
    using sample_relayed_run [of sample_options] unfolding forwards_def relpowp_1 by (metis list.distinct(1))
  from no_forwarding_loop [OF this] step show ?thesis by blast
qed

lemma handle_reply_returns: "answers h \<Longrightarrow> \<exists>res. handle_reply gp h cfg d layer = Some res"
proof -
  assume "answers h"
  then have "HandleGenericReply gp h cfg dec layer rt \<noteq> None" for dec rt
    using HandleGenericReply_returns by blast
  then have "handle_reply gp h cfg d layer \<noteq> None"
    by (simp add: handle_reply_def Let_def del: not_None_eq split: option.split prod.split)
  then show ?thesis by blast
qed

text \<open>C17: Handling a packet ends: whatever the packet and the configuration, when the random source answers at
  some point and the kernel takes or refuses every frame at some point, however often it asks to try again, the handler
  returns.\<close>

theorem Handle_returns:
  assumes "answers h"
  shows "\<exists>res. Handle gp SortFunc h cfg dec ifIndex layer = Some res"
  using handle_reply_returns [OF assms] by (auto simp: Handle_def Let_def split: prod.split)

theorem Handle_returns_witness:
  "answers sample_host \<and> unix_Sendto (kern sample_host) 0 3 [] sample_sockaddr = Some EAGAIN \<and>
   (\<exists>res. Handle sample_gopacket (sort_key opt_Type) sample_host sample_options None 7 sample_reply = Some res)"
  using answers_sample_host Handle_returns [OF answers_sample_host] by (simp add: sample_host_def sample_kernel_def)

end
