(* ===== verification/Glob.thy ===== *)
theory Glob
  imports Go_Strings
begin

text \<open>
  Shell patterns: \<^verbatim>\<open>pkg/glob/glob.go\<close> on top of Go's \<^verbatim>\<open>path/filepath.Match\<close> (Unix), whose chunk scanner and chunk matcher
  are translated here. Text is a list of bytes; a rune is decoded from UTF-8 the way \<^verbatim>\<open>utf8.DecodeRuneInString\<close> does,
  with the replacement rune U+FFFD and width one for an invalid sequence.
\<close>

subsection \<open>\<^verbatim>\<open>unicode/utf8\<close>\<close>

definition byte_of :: "char \<Rightarrow> nat" where
  "byte_of c = of_char c"

definition RuneError :: nat where
  "RuneError = 0xfffd"

text \<open>The allowed second bytes of a multi-byte sequence, by first byte.\<close>

definition accept_lo :: "nat \<Rightarrow> nat" where
  "accept_lo b0 = (if b0 = 0xe0 then 0xa0 else if b0 = 0xf0 then 0x90 else 0x80)"

definition accept_hi :: "nat \<Rightarrow> nat" where
  "accept_hi b0 = (if b0 = 0xed then 0x9f else if b0 = 0xf4 then 0x8f else 0xbf)"

definition is_cont :: "nat \<Rightarrow> bool" where
  "is_cont b \<longleftrightarrow> 0x80 \<le> b \<and> b \<le> 0xbf"

definition DecodeRune :: "string \<Rightarrow> nat \<times> nat" where
  "DecodeRune s =
     (let b = (\<lambda>i. byte_of (s ! i)); n = length s in
      if n < 1 then (RuneError, 0)
      else if b 0 < 0x80 then (b 0, 1)
      else if b 0 < 0xc2 \<or> 0xf4 < b 0 then (RuneError, 1)
      else (let sz = (if b 0 < 0xe0 then 2 else if b 0 < 0xf0 then 3 else 4) in
            if n < sz then (RuneError, 1)
            else if b 1 < accept_lo (b 0) \<or> accept_hi (b 0) < b 1 then (RuneError, 1)
            else if sz \<le> 2 then ((b 0 mod 0x20) * 0x40 + b 1 mod 0x40, 2)
            else if \<not> is_cont (b 2) then (RuneError, 1)
            else if sz \<le> 3 then ((b 0 mod 0x10) * 0x1000 + (b 1 mod 0x40) * 0x40 + b 2 mod 0x40, 3)
            else if \<not> is_cont (b 3) then (RuneError, 1)
            else ((b 0 mod 0x08) * 0x40000 + (b 1 mod 0x40) * 0x1000 + (b 2 mod 0x40) * 0x40 + b 3 mod 0x40, 4)))"

lemma DecodeRune_width: "s \<noteq> [] \<Longrightarrow> 0 < snd (DecodeRune s)"
  by (simp add: DecodeRune_def Let_def)

subsection \<open>\<^verbatim>\<open>path/filepath.Match\<close>\<close>

text \<open>
  \<^verbatim>\<open>scanChunk\<close>: strip leading stars, then take everything up to the next star outside a character class;
  a backslash protects the byte after it.
\<close>

fun chunk_len :: "bool \<Rightarrow> string \<Rightarrow> nat" where
  "chunk_len inrange [] = 0"
| "chunk_len inrange (c # p) =
     (if c = CHR 0x5C then (case p of [] \<Rightarrow> 1 | _ # p' \<Rightarrow> 2 + chunk_len inrange p')
      else if c = CHR ''['' then 1 + chunk_len True p
      else if c = CHR '']'' then 1 + chunk_len False p
      else if c = CHR ''*'' \<and> \<not> inrange then 0
      else 1 + chunk_len inrange p)"

definition scanChunk :: "string \<Rightarrow> bool \<times> string \<times> string" where
  "scanChunk pattern =
     (let star = (pattern \<noteq> [] \<and> hd pattern = CHR ''*'');
          p = dropWhile (\<lambda>c. c = CHR ''*'') pattern;
          n = chunk_len False p
      in (star, take n p, drop n p))"

text \<open>\<^verbatim>\<open>getEsc\<close>: one possibly escaped rune of a character class; it may not be the last of the chunk.\<close>

definition getEsc :: "string \<Rightarrow> (nat \<times> string) option" where
  "getEsc chunk =
     (if chunk = [] \<or> hd chunk = CHR ''-'' \<or> hd chunk = CHR '']'' then None
      else (let c = (if hd chunk = CHR 0x5C then tl chunk else chunk) in
            if c = [] then None
            else (let (r, n) = DecodeRune c in
                  if r = RuneError \<and> n = 1 then None
                  else if drop n c = [] then None
                  else Some (r, drop n c))))"

lemma getEsc_shorter: "getEsc chunk = Some (r, rest) \<Longrightarrow> length rest < length chunk \<and> rest \<noteq> []"
proof -
  assume esc: "getEsc chunk = Some (r, rest)"
  define c where "c = (if hd chunk = CHR 0x5C then tl chunk else chunk)"
  obtain r' n where rn: "DecodeRune c = (r', n)" by fastforce
  have ne: "c \<noteq> []" "rest = drop n c" "rest \<noteq> []"
    using esc rn by (auto simp: getEsc_def c_def Let_def split: if_splits)
  have "0 < n" using DecodeRune_width [OF ne(1)] rn by simp
  then have "length rest < length c" using ne by simp
  moreover have "length c \<le> length chunk" by (simp add: c_def)
  ultimately show ?thesis using ne(3) by simp
qed

text \<open>The range loop of a class: the rest of the chunk after the closing bracket and whether \<open>r\<close> was in a range.\<close>

function class_ranges :: "nat \<Rightarrow> bool \<Rightarrow> nat \<Rightarrow> string \<Rightarrow> (string \<times> bool) option" where
  "class_ranges r matched nrange chunk =
     (if chunk \<noteq> [] \<and> hd chunk = CHR '']'' \<and> nrange > 0 then Some (tl chunk, matched)
      else (case getEsc chunk of
              None \<Rightarrow> None
            | Some (lo, c1) \<Rightarrow>
                (if hd c1 = CHR ''-'' then
                   (case getEsc (tl c1) of
                      None \<Rightarrow> None
                    | Some (hi, c2) \<Rightarrow>
                        class_ranges r (matched \<or> lo \<le> r \<and> r \<le> hi) (nrange + 1) c2)
                 else class_ranges r (matched \<or> lo \<le> r \<and> r \<le> lo) (nrange + 1) c1)))"
  by pat_completeness auto
termination
  by (relation "measure (\<lambda>(r, m, k, chunk). length chunk)")
    (auto dest!: getEsc_shorter simp: less_diff_conv)

declare class_ranges.simps [simp del]

lemma class_ranges_shorter:
  "class_ranges r matched nrange chunk = Some (rest, m) \<Longrightarrow> length rest < length chunk"
proof (induction r matched nrange chunk rule: class_ranges.induct)
  case (1 r matched nrange chunk)
  show ?case
  proof (cases "chunk \<noteq> [] \<and> hd chunk = CHR '']'' \<and> nrange > 0")
    case True
    with "1.prems" show ?thesis
      by (subst (asm) class_ranges.simps) (cases chunk; auto)
  next
    case False
    then obtain lo c1 where c1: "getEsc chunk = Some (lo, c1)"
      using "1.prems" by (auto simp: class_ranges.simps [of r matched nrange chunk] split: option.splits)
    then have len1: "length c1 < length chunk" using getEsc_shorter by blast
    show ?thesis
    proof (cases "hd c1 = CHR ''-''")
      case True
      then obtain hi c2 where c2: "getEsc (tl c1) = Some (hi, c2)"
        using "1.prems" False c1
        by (auto simp: class_ranges.simps [of r matched nrange chunk] split: option.splits)
      then have "length c2 < length c1" using getEsc_shorter [OF c2] by (cases c1) auto
      moreover have "length rest < length c2"
        using "1.IH"(1) [OF False c1 refl True c2 refl] "1.prems" False c1 c2 True
        by (auto simp: class_ranges.simps [of r matched nrange chunk])
      ultimately show ?thesis using len1 by simp
    next
      case no: False
      have "length rest < length c1"
        using "1.IH"(2) [OF False c1 refl no] "1.prems" False c1 no
        by (auto simp: class_ranges.simps [of r matched nrange chunk])
      then show ?thesis using len1 by simp
    qed
  qed
qed

text \<open>
  \<^verbatim>\<open>matchChunk\<close>. \<open>None\<close> is \<^verbatim>\<open>ErrBadPattern\<close>, \<open>Some None\<close> a mismatch, \<open>Some (Some rest)\<close> a match that leaves
  \<open>rest\<close>. After a mismatch (\<open>failed\<close>) the chunk is still read to the end to check its syntax.
\<close>

function match_chunk :: "bool \<Rightarrow> string \<Rightarrow> string \<Rightarrow> string option option" where
  "match_chunk failed0 chunk s =
     (if chunk = [] then Some (if failed0 then None else Some s)
      else
        (let failed = (failed0 \<or> s = []) in
         if hd chunk = CHR ''['' then
           (let (r, n) = (if failed then (0, 0) else DecodeRune s);
                negated = (tl chunk \<noteq> [] \<and> hd (tl chunk) = CHR ''^'')
            in (case class_ranges r False 0 (if negated then tl (tl chunk) else tl chunk) of
                  None \<Rightarrow> None
                | Some (rest, matched) \<Rightarrow>
                    match_chunk (failed \<or> matched = negated) rest (drop n s)))
         else if hd chunk = CHR ''?'' then
           (if failed then match_chunk failed (tl chunk) s
            else match_chunk (hd s = CHR ''/'') (tl chunk) (drop (snd (DecodeRune s)) s))
         else
           (let lit = (if hd chunk = CHR 0x5C then tl chunk else chunk) in
            if lit = [] then None
            else if failed then match_chunk failed (tl lit) s
            else match_chunk (hd lit \<noteq> hd s) (tl lit) (tl s))))"
  by pat_completeness auto
termination
proof (relation "measure (\<lambda>(f, chunk, s). length chunk)", goal_cases)
qed (auto dest!: class_ranges_shorter split: if_splits simp: less_diff_conv)

declare match_chunk.simps [simp del]

definition matchChunk :: "string \<Rightarrow> string \<Rightarrow> string option option" where
  "matchChunk chunk s = match_chunk False chunk s"

text \<open>The skip loop after a star: the first later position at which the chunk matches, never past a separator.\<close>

fun skip_match :: "string \<Rightarrow> string \<Rightarrow> string \<Rightarrow> string option option" where
  "skip_match chunk rest [] = Some None"
| "skip_match chunk rest (c # name) =
     (if c = CHR ''/'' then Some None
      else (case matchChunk chunk name of
              None \<Rightarrow> None
            | Some None \<Rightarrow> skip_match chunk rest name
            | Some (Some t) \<Rightarrow>
                (if rest = [] \<and> t \<noteq> [] then skip_match chunk rest name else Some (Some t))))"

lemma chunk_len_pos: "p \<noteq> [] \<Longrightarrow> hd p \<noteq> CHR ''*'' \<Longrightarrow> 0 < chunk_len False p"
  by (cases p) (auto split: list.splits)

lemma scanChunk_shorter:
  assumes "pattern \<noteq> []"
  shows "length (snd (snd (scanChunk pattern))) < length pattern"
proof (cases "hd pattern = CHR ''*''")
  case True
  have "length (dropWhile (\<lambda>c. c = CHR ''*'') pattern) < length pattern"
    using True assms by (cases pattern) (simp_all add: le_imp_less_Suc length_dropWhile_le)
  then show ?thesis by (simp add: scanChunk_def Let_def)
next
  case False
  then have "dropWhile (\<lambda>c. c = CHR ''*'') pattern = pattern" using assms by (cases pattern) simp_all
  then show ?thesis
    using chunk_len_pos [OF assms False] assms by (simp add: scanChunk_def Let_def)
qed

lemma scanChunk_rest: "(star, chunk, rest) = scanChunk pattern \<Longrightarrow> pattern \<noteq> [] \<Longrightarrow> length rest < length pattern"
  using scanChunk_shorter [of pattern] by (metis snd_conv)

text \<open>The syntax check of what is left of a pattern after a mismatch: true when some chunk is malformed.\<close>

function bad_chunks :: "string \<Rightarrow> bool" where
  "bad_chunks pattern =
     (if pattern = [] then False
      else (let (star, chunk, rest) = scanChunk pattern in
            matchChunk chunk [] = None \<or> bad_chunks rest))"
  by pat_completeness auto
termination
  by (relation "measure length") (auto intro: scanChunk_rest)

declare bad_chunks.simps [simp del]

text \<open>\<^verbatim>\<open>filepath.Match\<close>; \<open>None\<close> is \<^verbatim>\<open>ErrBadPattern\<close>.\<close>

function filepath_Match :: "string \<Rightarrow> string \<Rightarrow> bool option" where
  "filepath_Match pattern name =
     (if pattern = [] then Some (name = [])
      else
        (let (star, chunk, rest) = scanChunk pattern in
         if star \<and> chunk = [] then Some (CHR ''/'' \<notin> set name)
         else (case matchChunk chunk name of
                 None \<Rightarrow> None
               | Some m \<Rightarrow>
                   (if m \<noteq> None \<and> (the m = [] \<or> rest \<noteq> []) then filepath_Match rest (the m)
                    else if star then
                      (case skip_match chunk rest name of
                         None \<Rightarrow> None
                       | Some (Some t) \<Rightarrow> filepath_Match rest t
                       | Some None \<Rightarrow> (if bad_chunks rest then None else Some False))
                    else (if bad_chunks rest then None else Some False)))))"
  by pat_completeness auto
termination
  by (relation "measure (\<lambda>(pattern, name). length pattern)") (auto intro: scanChunk_rest)

declare filepath_Match.simps [simp del]

subsection \<open>\<^verbatim>\<open>pkg/glob/glob.go\<close>\<close>

datatype glob_error = EmptyGlob | InvalidGlob string

definition glob_Validate :: "string \<Rightarrow> glob_error option" where
  "glob_Validate pattern =
     (if pattern = [] then Some EmptyGlob
      else if filepath_Match pattern [] = None then Some (InvalidGlob pattern)
      else if filepath_Match pattern pattern = None then Some (InvalidGlob pattern)
      else None)"

definition glob_Match :: "string \<Rightarrow> string \<Rightarrow> bool" where
  "glob_Match pattern s = (case filepath_Match pattern s of Some ok \<Rightarrow> ok | None \<Rightarrow> False)"

subsection \<open>A pattern is malformed or not regardless of the text\<close>

text \<open>
  The syntax of character classes and chunks on its own: \<open>class_rest\<close> is what follows a well-formed class body
  and \<open>wf_chunk\<close> says that a chunk is well-formed.
\<close>

function class_rest :: "nat \<Rightarrow> string \<Rightarrow> string option" where
  "class_rest nrange chunk =
     (if chunk \<noteq> [] \<and> hd chunk = CHR '']'' \<and> nrange > 0 then Some (tl chunk)
      else (case getEsc chunk of
              None \<Rightarrow> None
            | Some (lo, c1) \<Rightarrow>
                (if hd c1 = CHR ''-'' then
                   (case getEsc (tl c1) of None \<Rightarrow> None | Some (hi, c2) \<Rightarrow> class_rest (nrange + 1) c2)
                 else class_rest (nrange + 1) c1)))"
  by pat_completeness auto
termination
  by (relation "measure (\<lambda>(k, chunk). length chunk)")
    (auto dest!: getEsc_shorter simp: less_diff_conv)

declare class_rest.simps [simp del]

lemma class_ranges_rest: "map_option fst (class_ranges r m k chunk) = class_rest k chunk"
proof (induction r m k chunk rule: class_ranges.induct)
  case (1 r m k chunk)
  show ?case
    using "1.IH" by (subst class_ranges.simps, subst class_rest.simps) (auto split: option.split)
qed

lemma class_rest_shorter: "class_rest k chunk = Some rest \<Longrightarrow> length rest < length chunk"
  using class_ranges_rest [of 0 False k chunk] class_ranges_shorter by fastforce

function wf_chunk :: "string \<Rightarrow> bool" where
  "wf_chunk chunk =
     (if chunk = [] then True
      else if hd chunk = CHR ''['' then
        (case class_rest 0 (if tl chunk \<noteq> [] \<and> hd (tl chunk) = CHR ''^'' then tl (tl chunk) else tl chunk) of
           None \<Rightarrow> False | Some rest \<Rightarrow> wf_chunk rest)
      else if hd chunk = CHR ''?'' then wf_chunk (tl chunk)
      else (let lit = (if hd chunk = CHR 0x5C then tl chunk else chunk) in lit \<noteq> [] \<and> wf_chunk (tl lit)))"
  by pat_completeness auto
termination
proof (relation "measure length", goal_cases)
qed (auto dest!: class_rest_shorter split: if_splits simp: less_diff_conv)

declare wf_chunk.simps [simp del]

lemma match_chunk_wf: "match_chunk failed chunk s \<noteq> None \<longleftrightarrow> wf_chunk chunk"
proof (induction failed chunk s rule: match_chunk.induct)
  case (1 failed chunk s)
  let ?body = "if tl chunk \<noteq> [] \<and> hd (tl chunk) = CHR ''^'' then tl (tl chunk) else tl chunk"
  consider "chunk = []" | "chunk \<noteq> []" "hd chunk = CHR ''[''"
    | "chunk \<noteq> []" "hd chunk = CHR ''?''"
    | "chunk \<noteq> []" "hd chunk \<noteq> CHR ''[''" "hd chunk \<noteq> CHR ''?''" by blast
  then show ?case
  proof cases
    case 1
    then show ?thesis by (simp add: match_chunk.simps wf_chunk.simps)
  next
    case 2
    obtain r n where rn: "(r, n) = (if failed \<or> s = [] then (0, 0) else DecodeRune s)"
      by (metis surj_pair)
    have rest: "map_option fst (class_ranges r False 0 ?body) = class_rest 0 ?body"
      by (rule class_ranges_rest)
    show ?thesis
    proof (cases "class_ranges r False 0 ?body")
      case None
      with rest 2 rn [symmetric] show ?thesis
        by (subst match_chunk.simps, subst wf_chunk.simps) (auto simp: Let_def)
    next
      case (Some p)
      then obtain after m where p: "class_ranges r False 0 ?body = Some (after, m)" by (cases p) simp
      with rest have "class_rest 0 ?body = Some after" by simp
      moreover have "match_chunk ((failed \<or> s = []) \<or> m = (tl chunk \<noteq> [] \<and> hd (tl chunk) = CHR ''^'')) after (drop n s) \<noteq> None \<longleftrightarrow> wf_chunk after"
        using "1.IH"(1) [OF 2(1) refl 2(2) rn refl refl] p by simp
      ultimately show ?thesis
        using 2 rn [symmetric] p
        by (subst match_chunk.simps, subst wf_chunk.simps) (auto simp: Let_def)
    qed
  next
    case 3
    then show ?thesis
      using "1.IH"(2,3) by (subst match_chunk.simps, subst wf_chunk.simps) (auto simp: Let_def)
  next
    case 4
    then show ?thesis
      using "1.IH"(4,5) by (subst match_chunk.simps, subst wf_chunk.simps) (auto simp: Let_def)
  qed
qed

lemma matchChunk_wf: "matchChunk chunk s = None \<longleftrightarrow> \<not> wf_chunk chunk"
  using match_chunk_wf [of False chunk s] unfolding matchChunk_def by blast

lemma skip_match_wf: "wf_chunk chunk \<Longrightarrow> skip_match chunk rest name \<noteq> None"
  by (induction name) (auto simp: matchChunk_wf split: option.splits)

lemma scanChunk_empty:
  assumes "scanChunk pattern = (star, [], rest)"
  shows "rest = []"
proof -
  define p where "p = dropWhile (\<lambda>c. c = CHR ''*'') pattern"
  have hd: "p \<noteq> [] \<Longrightarrow> hd p \<noteq> CHR ''*''"
    unfolding p_def by (rule hd_dropWhile)
  have "take (chunk_len False p) p = []" and rest: "rest = drop (chunk_len False p) p"
    using assms by (simp_all add: scanChunk_def Let_def p_def [symmetric])
  then have "chunk_len False p = 0 \<or> p = []" by simp
  then have "p = []" using chunk_len_pos [of p] hd by (cases "p = []") simp_all
  with rest show ?thesis by simp
qed

text \<open>Every chunk of a pattern is checked on every text, so an error is a matter of the pattern alone.\<close>

lemma filepath_Match_error: "filepath_Match pattern name = None \<longleftrightarrow> bad_chunks pattern"
proof (induction pattern name rule: filepath_Match.induct)
  case (1 pattern name)
  show ?case
  proof (cases "pattern = []")
    case True
    then show ?thesis by (simp add: filepath_Match.simps bad_chunks.simps)
  next
    case False
    obtain star chunk rest where sc: "scanChunk pattern = (star, chunk, rest)"
      by (metis surj_pair)
    have bad: "bad_chunks pattern \<longleftrightarrow> \<not> wf_chunk chunk \<or> bad_chunks rest"
      using False sc by (subst bad_chunks.simps) (simp add: matchChunk_wf)
    show ?thesis
    proof (cases "star \<and> chunk = []")
      case True
      then have "rest = []" using scanChunk_empty sc by blast
      with True bad False sc show ?thesis
        by (subst filepath_Match.simps) (simp add: wf_chunk.simps bad_chunks.simps)
    next
      case no: False
      show ?thesis
      proof (cases "matchChunk chunk name")
        case None
        then have "\<not> wf_chunk chunk" using matchChunk_wf [of chunk name] by simp
        with None bad False sc no show ?thesis
          by (subst filepath_Match.simps) simp
      next
        case (Some m)
        then have wf: "wf_chunk chunk" using matchChunk_wf [of chunk name] by simp
        have ih1: "filepath_Match rest (the m) = None \<longleftrightarrow> bad_chunks rest"
          if "m \<noteq> None \<and> (the m = [] \<or> rest \<noteq> [])"
          using "1.IH"(1) [OF False sc [symmetric] refl refl no Some that] .
        have ih2: "filepath_Match rest t = None \<longleftrightarrow> bad_chunks rest"
          if "\<not> (m \<noteq> None \<and> (the m = [] \<or> rest \<noteq> []))" "star" "skip_match chunk rest name = Some (Some t)" for t
          using "1.IH"(2) [OF False sc [symmetric] refl refl no Some that(1,2,3)] by simp
        show ?thesis
          using bad False sc no Some wf ih1 ih2 skip_match_wf [OF wf, of rest name]
          by (subst filepath_Match.simps) (auto split: option.splits)
      qed
    qed
  qed
qed

lemma glob_Validate_bad: "glob_Validate pattern = None \<longleftrightarrow> pattern \<noteq> [] \<and> \<not> bad_chunks pattern"
  by (simp add: glob_Validate_def filepath_Match_error)

lemma glob_Validate_total: "glob_Validate pattern = None \<Longrightarrow> filepath_Match pattern s \<noteq> None"
  unfolding filepath_Match_error glob_Validate_bad by blast

text \<open>
  C34: the load time check accepts exactly the non-empty patterns on which \<^verbatim>\<open>filepath.Match\<close> fails for no text at
  all, so a pattern that passed it never turns into a silent non-match through a match error.
\<close>

theorem glob_Validate_correct:
  "(glob_Validate pattern = None) = (pattern \<noteq> [] \<and> (\<forall>s. filepath_Match pattern s \<noteq> None))"
  unfolding filepath_Match_error glob_Validate_bad by blast

end
