(* ===== verification/Cfgmatch.thy ===== *)
theory Cfgmatch
  imports Glob
begin

text \<open>
  The NIC selector and the configuration line tokenizer: \<^verbatim>\<open>pkg/cfgmatch/cfgmatch.go\<close>, with what a selector accepts
  and the shape of a parsed selector.
\<close>

definition CommentPrefix :: string where "CommentPrefix = ''#''"
definition CatchAllKey :: string where "CatchAllKey = ''*''"
definition NameDim :: string where "NameDim = ''name=''"
definition MACDim :: string where "MACDim = ''mac=''"

record Selector =
  NameGlobs :: "string list"
  MACGlobs :: "string list"
  All :: bool

definition zero_selector :: Selector where
  "zero_selector = \<lparr>NameGlobs = [], MACGlobs = [], All = False\<rparr>"

definition Selector_Match :: "Selector \<Rightarrow> string \<Rightarrow> string \<Rightarrow> bool" where
  "Selector_Match s name mac0 =
     (if All s then True
      else (let mac = ToLower mac0 in
            list_ex (\<lambda>g. glob_Match g name) (NameGlobs s) \<or> list_ex (\<lambda>g. glob_Match g mac) (MACGlobs s)))"

datatype selector_error = SelectorGlob glob_error | InvalidTerm string

text \<open>The loop over the terms, with the selector built so far.\<close>

fun parse_terms :: "Selector \<Rightarrow> string list \<Rightarrow> selector_error + Selector" where
  "parse_terms s [] = Inr s"
| "parse_terms s (term # terms) =
     (if HasPrefix term NameDim then
        (let g = drop (length NameDim) term in
         case glob_Validate g of
           Some err \<Rightarrow> Inl (SelectorGlob err)
         | None \<Rightarrow> parse_terms (s\<lparr>NameGlobs := NameGlobs s @ [g]\<rparr>) terms)
      else if HasPrefix term MACDim then
        (let g = ToLower (drop (length MACDim) term) in
         case glob_Validate g of
           Some err \<Rightarrow> Inl (SelectorGlob err)
         | None \<Rightarrow> parse_terms (s\<lparr>MACGlobs := MACGlobs s @ [g]\<rparr>) terms)
      else Inl (InvalidTerm term))"

definition ParseSelector :: "string \<Rightarrow> selector_error + Selector" where
  "ParseSelector token =
     (if token = CatchAllKey then Inr (zero_selector\<lparr>All := True\<rparr>)
      else parse_terms zero_selector (Split token (CHR '','')))"

definition Fields :: "string \<Rightarrow> string list" where
  "Fields line = takeWhile (\<lambda>f. \<not> HasPrefix f CommentPrefix) (strings_Fields line)"

subsection \<open>What a parsed selector looks like\<close>

text \<open>
  A selector as the parser builds it: every glob passed the load time check, MAC globs are lower case, and a selector
  that is not the catch-all has at least one glob.
\<close>

definition wf_globs :: "Selector \<Rightarrow> bool" where
  "wf_globs s \<longleftrightarrow>
     (\<forall>g \<in> set (NameGlobs s). glob_Validate g = None) \<and>
     (\<forall>g \<in> set (MACGlobs s). glob_Validate g = None \<and> ToLower g = g)"

definition wf_selector :: "Selector \<Rightarrow> bool" where
  "wf_selector s \<longleftrightarrow> wf_globs s \<and>
     (if All s then NameGlobs s = [] \<and> MACGlobs s = [] else NameGlobs s \<noteq> [] \<or> MACGlobs s \<noteq> [])"

lemma wf_globs_add_name:
  "wf_globs s \<Longrightarrow> glob_Validate g = None \<Longrightarrow> wf_globs (s\<lparr>NameGlobs := NameGlobs s @ [g]\<rparr>)"
  by (auto simp: wf_globs_def)

lemma wf_globs_add_mac:
  "wf_globs s \<Longrightarrow> glob_Validate (ToLower g) = None \<Longrightarrow> wf_globs (s\<lparr>MACGlobs := MACGlobs s @ [ToLower g]\<rparr>)"
  by (auto simp: wf_globs_def)

lemma parse_terms_wf:
  "parse_terms s terms = Inr s' \<Longrightarrow> wf_globs s \<Longrightarrow>
   wf_globs s' \<and> All s' = All s \<and>
   length (NameGlobs s') + length (MACGlobs s') = length (NameGlobs s) + length (MACGlobs s) + length terms"
proof (induction s terms rule: parse_terms.induct)
  case (1 s)
  then show ?case by simp
next
  case (2 s t ts)
  show ?case
  proof (cases "HasPrefix t NameDim")
    case True
    then have ok: "glob_Validate (drop (length NameDim) t) = None"
      using "2.prems"(1) by (simp add: Let_def split: option.splits)
    from "2.IH"(1) [OF True refl ok _ wf_globs_add_name [OF "2.prems"(2) ok]] "2.prems"(1) True ok
    show ?thesis by (simp add: Let_def)
  next
    case name: False
    then have mac: "HasPrefix t MACDim" using "2.prems"(1) by (simp split: if_splits)
    then have ok: "glob_Validate (ToLower (drop (length MACDim) t)) = None"
      using "2.prems"(1) name by (simp add: Let_def split: option.splits)
    from "2.IH"(2) [OF name mac refl ok _ wf_globs_add_mac [OF "2.prems"(2) ok]] "2.prems"(1) name mac ok
    show ?thesis by (simp add: Let_def)
  qed
qed

lemma ParseSelector_wf:
  assumes "ParseSelector token = Inr s"
  shows "wf_selector s"
proof (cases "token = CatchAllKey")
  case True
  with assms show ?thesis by (auto simp: ParseSelector_def wf_selector_def wf_globs_def zero_selector_def)
next
  case False
  let ?terms = "Split token (CHR '','')"
  have "parse_terms zero_selector ?terms = Inr s"
    using assms False by (simp add: ParseSelector_def)
  from parse_terms_wf [OF this] have "wf_globs s" "\<not> All s"
    "length (NameGlobs s) + length (MACGlobs s) = length ?terms"
    by (simp_all add: zero_selector_def wf_globs_def)
  moreover have "0 < length ?terms" by simp
  ultimately show ?thesis by (auto simp: wf_selector_def)
qed

lemma ToLower_lower [simp]: "Selector_Match s name (ToLower mac) = Selector_Match s name mac"
  by (simp add: Selector_Match_def Let_def ToLower_idem)

lemma wf_selector_glob_total:
  assumes "wf_selector s" "g \<in> set (NameGlobs s) \<union> set (MACGlobs s)"
  shows "filepath_Match g t \<noteq> None"
proof -
  have "glob_Validate g = None" using assms by (auto simp: wf_selector_def wf_globs_def)
  then show ?thesis by (rule glob_Validate_total)
qed

lemma Fields_no_comment: "f \<in> set (Fields line) \<Longrightarrow> \<not> HasPrefix f CommentPrefix"
  by (auto simp: Fields_def dest: set_takeWhileD)

definition is_word :: "string \<Rightarrow> bool" where
  "is_word f \<longleftrightarrow> f \<noteq> [] \<and> list_all (\<lambda>c. \<not> is_space c) f"

lemma fields_from_words:
  "list_all (\<lambda>c. \<not> is_space c) acc \<Longrightarrow> list_all is_word (fields_from acc s)"
  by (induction acc s rule: fields_from.induct) (simp_all add: is_word_def)

lemma Fields_words: "f \<in> set (Fields line) \<Longrightarrow> is_word f"
  using fields_from_words [of "[]" line]
  by (auto simp: Fields_def strings_Fields_def list_all_iff dest!: set_takeWhileD)

end
