(* ===== verification/Filewatch.thy ===== *)
theory Filewatch
  imports Go_Strings
begin

text \<open>
  The hot-reload watcher: \<^verbatim>\<open>pkg/filewatch/watch.go\<close>. A watcher holds the last published snapshot and the stat of the
  file it was read from. What the operating system answers during one call (open, stat, read) is an argument of
  the call, and so is whatever the validation hook consults. The poller goroutine and the callers of \<^verbatim>\<open>Reload\<close> and
  \<^verbatim>\<open>Close\<close> are interleaved by a step relation.
\<close>

subsection \<open>Types\<close>

text \<open>\<^verbatim>\<open>os.FileInfo\<close>: identity (device and inode), size and modification time.\<close>

record FileInfo =
  ident :: "nat \<times> nat"
  Size :: int
  ModTime :: int

text \<open>What reading a file delivers: the bytes up to the end or up to a read error, and whether an error came.\<close>

record reader =
  contents :: string
  read_fails :: bool

type_synonym ('a, 'e) Parser = "reader \<Rightarrow> 'e + ('a option \<times> string list)"

text \<open>A validation hook sees whether its context is cancelled, and what it asks the outside world.\<close>

type_synonym ('a, 'e, 'env) Validator = "bool \<Rightarrow> 'env \<Rightarrow> 'a \<Rightarrow> 'e option"

record ('a, 'e, 'env) Config =
  Log :: "unit option"
  Parse :: "('a, 'e) Parser option"
  Validate :: "('a, 'e, 'env) Validator option"
  Describe :: "('a \<Rightarrow> string) option"
  Path :: string
  Name :: string
  Interval :: int

text \<open>The \<^verbatim>\<open>done\<close> channel is nil, open or closed.\<close>

record ('a, 'e, 'env) Watcher =
  snap :: "'a option"
  parse :: "('a, 'e) Parser"
  validate :: "('a, 'e, 'env) Validator option"
  describe :: "('a \<Rightarrow> string) option"
  done_ch :: "bool option"
  lastInfo :: "FileInfo option"
  path :: string
  watch_name :: string
  interval :: int
  pollers :: nat

datatype 'e watch_error =
    ParseRequired string | LogRequired string | ResolvePath string
  | OpenFailed string | StatFailed string | ParseFailed 'e | NilSnapshot string string
  | ChangedDuringReload string string | ValidateFailed 'e

datatype 'e log_entry = Warnf string | Infof string | StatErrorf string | ReloadErrorf "'e watch_error"

text \<open>One access to the file: what open, the stat before, the read and the stat after return.\<close>

record 'env file_io =
  open_ok :: bool
  stat_before :: "FileInfo option"
  read_file :: reader
  stat_after :: "FileInfo option"
  outside :: 'env

subsection \<open>Operations\<close>

definition DefaultPollInterval :: int where
  "DefaultPollInterval = 30 * 1000000000"

definition FileChanged :: "FileInfo \<Rightarrow> FileInfo \<Rightarrow> bool" where
  "FileChanged a b \<longleftrightarrow> ident a \<noteq> ident b \<or> Size a \<noteq> Size b \<or> ModTime a \<noteq> ModTime b"

definition Snapshot :: "('a, 'e, 'env) Watcher \<Rightarrow> 'a option" where
  "Snapshot w = snap w"

text \<open>Whether the context that \<^verbatim>\<open>CloseContext\<close> returns is cancelled.\<close>

definition CloseContext :: "('a, 'e, 'env) Watcher \<Rightarrow> bool" where
  "CloseContext w = (case done_ch w of None \<Rightarrow> False | Some closed \<Rightarrow> closed)"

definition loaded_msg :: "('a, 'e, 'env) Watcher \<Rightarrow> 'a \<Rightarrow> string" where
  "loaded_msg w s =
     watch_name w @ '' loaded from '' @ path w @
     (case describe w of None \<Rightarrow> [] | Some d \<Rightarrow> '' ('' @ d s @ '')'')"

definition Reload ::
  "('a, 'e, 'env) Watcher \<Rightarrow> 'env file_io \<Rightarrow>
   'e watch_error option \<times> ('a, 'e, 'env) Watcher \<times> 'e log_entry list" where
  "Reload w io =
     (if \<not> open_ok io then (Some (OpenFailed (path w)), w, [])
      else case stat_before io of
        None \<Rightarrow> (Some (StatFailed (path w)), w, [])
      | Some info \<Rightarrow>
          (case parse w (read_file io) of
             Inl err \<Rightarrow> (Some (ParseFailed err), w, [])
           | Inr (None, warnings) \<Rightarrow> (Some (NilSnapshot (watch_name w) (path w)), w, [])
           | Inr (Some s, warnings) \<Rightarrow>
               (case stat_after io of
                  None \<Rightarrow> (Some (StatFailed (path w)), w, [])
                | Some after \<Rightarrow>
                    if FileChanged info after
                    then (Some (ChangedDuringReload (watch_name w) (path w)), w, [])
                    else
                      (case (case validate w of
                               None \<Rightarrow> None
                             | Some v \<Rightarrow> v (CloseContext w) (outside io) s) of
                         Some err \<Rightarrow> (Some (ValidateFailed err), w, [])
                       | None \<Rightarrow>
                           (None, w\<lparr>snap := Some s, lastInfo := Some info\<rparr>,
                            map (\<lambda>warn. Warnf (watch_name w @ '': '' @ warn)) warnings @ [Infof (loaded_msg w s)])))))"

text \<open>
  \<^verbatim>\<open>poll\<close> in the two parts that another goroutine can come between: the stat and the comparison with \<^verbatim>\<open>lastInfo\<close>
  (true: go on to \<^verbatim>\<open>Reload\<close>), and the reload with its error message.
\<close>

definition poll_check :: "('a, 'e, 'env) Watcher \<Rightarrow> FileInfo option \<Rightarrow> bool \<times> 'e log_entry list" where
  "poll_check w st =
     (case st of
        None \<Rightarrow> (False, [StatErrorf (path w)])
      | Some info \<Rightarrow>
          (case lastInfo w of
             Some prev \<Rightarrow> (if \<not> FileChanged prev info then (False, []) else (True, []))
           | None \<Rightarrow> (True, [])))"

definition poll_reload ::
  "('a, 'e, 'env) Watcher \<Rightarrow> 'env file_io \<Rightarrow> ('a, 'e, 'env) Watcher \<times> 'e log_entry list" where
  "poll_reload w io =
     (case Reload w io of
        (Some err, w', logs) \<Rightarrow> (w', logs @ [ReloadErrorf err])
      | (None, w', logs) \<Rightarrow> (w', logs))"

definition poll ::
  "('a, 'e, 'env) Watcher \<Rightarrow> FileInfo option \<Rightarrow> 'env file_io \<Rightarrow> ('a, 'e, 'env) Watcher \<times> 'e log_entry list" where
  "poll w st io =
     (case poll_check w st of
        (False, logs) \<Rightarrow> (w, logs)
      | (True, logs) \<Rightarrow> (let (w', logs') = poll_reload w io in (w', logs @ logs')))"

text \<open>\<^verbatim>\<open>filepath.Abs\<close> asks for the working directory, which may fail, so it is an argument.\<close>

definition new_watcher :: "('a, 'e, 'env) Config \<Rightarrow> ('a, 'e) Parser \<Rightarrow> string \<Rightarrow> ('a, 'e, 'env) Watcher" where
  "new_watcher cfg p abspath =
     \<lparr>snap = None, parse = p, validate = Validate cfg, describe = Describe cfg, done_ch = Some False,
      lastInfo = None, path = abspath, watch_name = Name cfg,
      interval = (if Interval cfg \<le> 0 then DefaultPollInterval else Interval cfg), pollers = 0\<rparr>"

definition New ::
  "('a, 'e, 'env) Config \<Rightarrow> (string \<Rightarrow> string option) \<Rightarrow> 'env file_io \<Rightarrow>
   ('e watch_error + ('a, 'e, 'env) Watcher) \<times> 'e log_entry list" where
  "New cfg Abs io =
     (case Parse cfg of
        None \<Rightarrow> (Inl (ParseRequired (Name cfg)), [])
      | Some p \<Rightarrow>
          if Log cfg = None then (Inl (LogRequired (Name cfg)), [])
          else case Abs (Path cfg) of
            None \<Rightarrow> (Inl (ResolvePath (Path cfg)), [])
          | Some abspath \<Rightarrow>
              (case Reload (new_watcher cfg p abspath) io of
                 (Some err, w, logs) \<Rightarrow> (Inl err, logs)
               | (None, w, logs) \<Rightarrow> (Inr (w\<lparr>pollers := 1\<rparr>), logs)))"

text \<open>The first part of \<^verbatim>\<open>Close\<close>: close the \<^verbatim>\<open>done\<close> channel once; the second part waits for \<open>pollers\<close> to be 0.\<close>

definition close_done :: "('a, 'e, 'env) Watcher \<Rightarrow> ('a, 'e, 'env) Watcher" where
  "close_done w = w\<lparr>done_ch := Some True\<rparr>"

subsection \<open>Interleavings\<close>

text \<open>
  The poller goroutine waits in its select, is between the check and the reload of a poll, or has returned. The
  events are a call of \<^verbatim>\<open>Reload\<close> by anyone, the two parts of a poll, the closing of \<^verbatim>\<open>done\<close> and the return of the
  poller. When both \<^verbatim>\<open>done\<close> and the ticker are ready the select takes either.
\<close>

datatype poller_pc = Waiting | Reloading | Returned

datatype 'env event =
  CallReload "'env file_io" | Tick "FileInfo option" | TickReload "'env file_io" | CallClose | PollerReturns

inductive watch_step ::
  "('a, 'e, 'env) Watcher \<times> poller_pc \<Rightarrow> 'env event \<Rightarrow> ('a, 'e, 'env) Watcher \<times> poller_pc \<Rightarrow> bool" where
  call_reload: "Reload w io = (err, w', logs) \<Longrightarrow> watch_step (w, pc) (CallReload io) (w', pc)"
| tick_skip: "poll_check w st = (False, logs) \<Longrightarrow> watch_step (w, Waiting) (Tick st) (w, Waiting)"
| tick_go: "poll_check w st = (True, logs) \<Longrightarrow> watch_step (w, Waiting) (Tick st) (w, Reloading)"
| tick_reload: "poll_reload w io = (w', logs) \<Longrightarrow> watch_step (w, Reloading) (TickReload io) (w', Waiting)"
| call_close: "watch_step (w, pc) CallClose (close_done w, pc)"
| poller_returns: "done_ch w = Some True \<Longrightarrow>
    watch_step (w, Waiting) PollerReturns (w\<lparr>pollers := pollers w - 1\<rparr>, Returned)"

inductive_simps watch_step_returned: "watch_step (w, Returned) ev s'"

inductive watch_steps ::
  "('a, 'e, 'env) Watcher \<times> poller_pc \<Rightarrow> 'env event list \<Rightarrow> ('a, 'e, 'env) Watcher \<times> poller_pc \<Rightarrow> bool" where
  steps_refl: "watch_steps s [] s"
| steps_step: "watch_step s ev s' \<Longrightarrow> watch_steps s' evs s'' \<Longrightarrow> watch_steps s (ev # evs) s''"

subsection \<open>When a file is accepted\<close>

text \<open>
  The condition for publication, said at once: the file opens, both stats succeed and agree, the contents parse to a
  snapshot, and the hook accepts it. The result is the snapshot with the stat it belongs to.
\<close>

definition hook_accepts :: "('a, 'e, 'env) Validator option \<Rightarrow> bool \<Rightarrow> 'env \<Rightarrow> 'a \<Rightarrow> bool" where
  "hook_accepts v cancelled env s \<longleftrightarrow> (case v of None \<Rightarrow> True | Some f \<Rightarrow> f cancelled env s = None)"

definition accepts :: "('a, 'e, 'env) Watcher \<Rightarrow> 'env file_io \<Rightarrow> 'a \<Rightarrow> FileInfo \<Rightarrow> bool" where
  "accepts w io s info \<longleftrightarrow>
     open_ok io \<and> stat_before io = Some info \<and> stat_after io = Some info \<and>
     (\<exists>warnings. parse w (read_file io) = Inr (Some s, warnings)) \<and>
     hook_accepts (validate w) (CloseContext w) (outside io) s"

lemma FileChanged_neq [simp]: "FileChanged a b \<longleftrightarrow> a \<noteq> b"
  by (auto simp: FileChanged_def)

lemma accepts_unique: "accepts w io s info \<Longrightarrow> accepts w io s' info' \<Longrightarrow> s' = s \<and> info' = info"
  by (auto simp: accepts_def)

lemma Reload_accepts:
  assumes "accepts w io s info"
  shows "\<exists>logs. Reload w io = (None, w\<lparr>snap := Some s, lastInfo := Some info\<rparr>, logs)"
  using assms by (auto simp: accepts_def hook_accepts_def Reload_def split: option.splits)

lemma Reload_None: "Reload w io = (None, w', logs) \<Longrightarrow> \<exists>s info. accepts w io s info"
  by (auto simp: Reload_def accepts_def hook_accepts_def split: if_splits option.splits sum.splits)

lemma Reload_Some: "Reload w io = (Some err, w', logs) \<Longrightarrow> w' = w \<and> logs = []"
  by (auto simp: Reload_def split: if_splits option.splits sum.splits)

lemma Reload_rejects:
  assumes "\<And>s info. \<not> accepts w io s info"
  shows "\<exists>err. Reload w io = (Some err, w, [])"
proof -
  obtain err w' logs where r: "Reload w io = (err, w', logs)" by (metis prod_cases3)
  then show ?thesis
    using assms Reload_None Reload_Some by (cases err) blast+
qed

lemma Reload_cases:
  obtains (published) s info logs where "accepts w io s info"
      "Reload w io = (None, w\<lparr>snap := Some s, lastInfo := Some info\<rparr>, logs)"
    | (kept) err where "\<And>s info. \<not> accepts w io s info" "Reload w io = (Some err, w, [])"
  using Reload_accepts Reload_rejects by metis

lemma poll_reload_cases:
  obtains (published) s info logs where "accepts w io s info"
      "poll_reload w io = (w\<lparr>snap := Some s, lastInfo := Some info\<rparr>, logs)"
    | (kept) err where "\<And>s info. \<not> accepts w io s info" "poll_reload w io = (w, [ReloadErrorf err])"
  by (cases rule: Reload_cases [of w io]) (simp_all add: poll_reload_def)

subsection \<open>What every run keeps\<close>

text \<open>The configuration of a watcher never changes, and a published snapshot comes from the parser and the hook.\<close>

definition published_ok :: "('a, 'e) Parser \<Rightarrow> ('a, 'e, 'env) Validator option \<Rightarrow> ('a, 'e, 'env) Watcher \<Rightarrow> bool" where
  "published_ok p v w \<longleftrightarrow>
     parse w = p \<and> validate w = v \<and> lastInfo w \<noteq> None \<and>
     (\<exists>s r ws c env. snap w = Some s \<and> p r = Inr (Some s, ws) \<and> hook_accepts v c env s)"

lemma accepts_published:
  assumes "accepts w io s info"
  shows "published_ok (parse w) (validate w) (w\<lparr>snap := Some s, lastInfo := Some info\<rparr>)"
proof -
  obtain ws where "parse w (read_file io) = Inr (Some s, ws)"
    and "hook_accepts (validate w) (CloseContext w) (outside io) s"
    using assms by (auto simp: accepts_def)
  then show ?thesis by (simp add: published_ok_def) blast
qed

lemma Reload_published:
  assumes "parse w = p" "validate w = v" "Reload w io = (err, w', logs)" "err = None \<or> published_ok p v w"
  shows "published_ok p v w'"
  using assms by (cases rule: Reload_cases [of w io]) (auto dest: accepts_published)

lemma poll_reload_published:
  assumes "published_ok p v w" "poll_reload w io = (w', logs)"
  shows "published_ok p v w'"
proof (cases rule: poll_reload_cases [of w io])
  case (published s info logs)
  then show ?thesis using assms accepts_published [of w io s info] by (auto simp: published_ok_def)
next
  case kept
  then show ?thesis using assms by simp
qed

lemma watch_step_published:
  "watch_step (w, pc) ev (w', pc') \<Longrightarrow> published_ok p v w \<Longrightarrow> published_ok p v w'"
proof (induction "(w, pc)" ev "(w', pc')" arbitrary: w pc w' pc' rule: watch_step.induct)
  case (call_reload w io err w' logs pc)
  then have "parse w = p" "validate w = v" by (simp_all add: published_ok_def)
  from Reload_published [OF this call_reload.hyps] call_reload.prems show ?case by simp
next
  case (tick_reload w io w' logs)
  then show ?case using poll_reload_published by blast
qed (auto simp: published_ok_def close_done_def)

lemma watch_steps_published:
  "watch_steps s evs s' \<Longrightarrow> published_ok p v (fst s) \<Longrightarrow> published_ok p v (fst s')"
  by (induction s evs s' rule: watch_steps.induct) (metis watch_step_published prod.collapse)+

lemma New_published:
  assumes "New cfg Abs io = (Inr w, logs)"
  shows "\<exists>p. Parse cfg = Some p \<and> published_ok p (Validate cfg) w \<and> pollers w = 1"
proof -
  from assms obtain p abspath w0 where p: "Parse cfg = Some p" and w: "w = w0\<lparr>pollers := 1\<rparr>"
    and r: "Reload (new_watcher cfg p abspath) io = (None, w0, logs)"
    by (auto simp: New_def split: option.splits if_splits prod.splits)
  have "published_ok p (Validate cfg) w0"
    by (rule Reload_published [OF _ _ r]) (simp_all add: new_watcher_def)
  with p w show ?thesis by (simp add: published_ok_def)
qed

text \<open>
  The contract between a file format and the watcher: a parse without error gives a snapshot, and a good one. The
  client's guarantee is that readers never see anything else, however reloads, polls and closes interleave.
\<close>

locale snapshot_parser =
  fixes p :: "('a, 'e) Parser"
    and good :: "'a \<Rightarrow> bool"
  assumes parse_good: "p r = Inr (s, ws) \<Longrightarrow> \<exists>t. s = Some t \<and> good t"
begin

lemma no_nil_snapshot:
  assumes "parse w = p" "Reload w io = (Some err, w', logs)"
  shows "err \<noteq> NilSnapshot n f"
proof -
  have "parse w r \<noteq> Inr (None, ws)" for r ws using parse_good assms(1) by blast
  then show ?thesis using assms(2) by (auto simp: Reload_def split: if_splits option.splits sum.splits)
qed

lemma served_good:
  assumes "Parse cfg = Some p" "New cfg Abs io = (Inr w, logs)" "watch_steps (w, Waiting) evs (w', pc)"
  shows "\<exists>s. Snapshot w' = Some s \<and> good s \<and> (\<exists>c env. hook_accepts (Validate cfg) c env s)"
proof -
  have "published_ok p (Validate cfg) w" using New_published [OF assms(2)] assms(1) by auto
  then have "published_ok p (Validate cfg) w'" using watch_steps_published [OF assms(3)] by simp
  then show ?thesis using parse_good by (fastforce simp: published_ok_def Snapshot_def)
qed

end

subsection \<open>Properties\<close>

text \<open>
  C11: one call of \<^verbatim>\<open>Reload\<close> either publishes exactly the snapshot of an acceptable file with its stat, or
  fails, and then the watcher is unchanged and nothing is logged. It succeeds whenever the file is acceptable.
\<close>

theorem Reload_correct:
  "case Reload w io of
     (None, w', logs) \<Rightarrow>
       (\<exists>s info. accepts w io s info \<and> w' = w\<lparr>snap := Some s, lastInfo := Some info\<rparr>)
   | (Some err, w', logs) \<Rightarrow> (\<nexists>s info. accepts w io s info) \<and> w' = w \<and> logs = []"
  by (cases rule: Reload_cases [of w io]) auto

text \<open>
  C29: a poll leaves the watcher alone when the stat fails or equals the one of the published snapshot; otherwise it
  publishes an acceptable file, and a rejected one is reported and tried again by the next poll that still sees a
  change, because the recorded stat is not advanced.
\<close>

theorem poll_correct:
  "case poll w st io of (w', logs) \<Rightarrow>
     (if st = None then w' = w \<and> logs = [StatErrorf (path w)]
      else if lastInfo w = st then w' = w \<and> logs = []
      else (if \<exists>s info. accepts w io s info
            then \<exists>s info. accepts w io s info \<and> Snapshot w' = Some s \<and> lastInfo w' = Some info
            else w' = w \<and> (\<exists>err. logs = [ReloadErrorf err]) \<and>
                 (\<forall>io'. poll w' st io' = poll_reload w io')))"
proof (cases "st = None \<or> lastInfo w = st")
  case True
  then show ?thesis by (auto simp: poll_def poll_check_def split: option.splits)
next
  case False
  then have "poll_check w st = (True, [])" by (auto simp: poll_check_def split: option.splits)
  then have go: "poll w st io' = poll_reload w io'" for io'
    by (simp add: poll_def split: prod.split)
  show ?thesis
    using False go by (cases rule: poll_reload_cases [of w io]) (auto simp: Snapshot_def)
qed


definition sample_info :: FileInfo where
  "sample_info = \<lparr>ident = (1, 2), Size = 10, ModTime = 100\<rparr>"

definition sample_io :: "string \<Rightarrow> 'env \<Rightarrow> 'env file_io" where
  "sample_io text env =
     \<lparr>open_ok = True, stat_before = Some sample_info, read_file = \<lparr>contents = text, read_fails = False\<rparr>,
      stat_after = Some sample_info, outside = env\<rparr>"

definition sample_watcher :: "(nat, unit, unit) Watcher" where
  "sample_watcher =
     \<lparr>snap = Some 7, parse = (\<lambda>r. Inr (Some (length (contents r)), [])), validate = None, describe = None,
      done_ch = Some True, lastInfo = None, path = ''/etc/map'', watch_name = ''map'',
      interval = DefaultPollInterval, pollers = 0\<rparr>"


end
