(* ===== verification/Macpolicy.thy ===== *)
theory Macpolicy
  imports Cfgmatch Filewatch Opt82 "HOL-Library.AList" "HOL-Library.Multiset"
begin

text \<open>
  The per-client policy: \<^verbatim>\<open>pkg/macpolicy/macpolicy.go\<close> and \<^verbatim>\<open>pkg/macpolicy/reply.go\<close>. A policy key is the raw identifier,
  a MAC address or a client identifier, as bytes. The entries are an association list with one pair per key, in
  place of Go's map; where the code iterates over the map, the order is an argument. Name resolution is an
  argument too.
\<close>

subsection \<open>Types\<close>

definition HexPrefix :: string where "HexPrefix = ''0x''"
definition ActionPrefix :: string where "ActionPrefix = ''@''"
definition ActionDefaultKeyword :: string where "ActionDefaultKeyword = ''@default''"
definition ActionBlackholeKeyword :: string where "ActionBlackholeKeyword = ''@blackhole''"

definition fieldKey :: nat where "fieldKey = 0"
definition fieldAction :: nat where "fieldAction = 1"
definition fieldReply :: nat where "fieldReply = 2"
definition maxFields :: nat where "maxFields = 3"

lemmas policy_syntax =
  HexPrefix_def ActionPrefix_def ActionDefaultKeyword_def ActionBlackholeKeyword_def
  CatchAllKey_def fieldKey_def fieldAction_def fieldReply_def maxFields_def

datatype ActionKind = ActionBlackhole | ActionDefault | ActionServer

datatype ReplyActionKind = ReplyIngress | ReplyBlackhole | ReplyMatch

record ReplyAction =
  ReplySelector :: Selector
  ReplyKind :: ReplyActionKind

record Action =
  Server :: string
  Reply :: ReplyAction
  Kind :: ActionKind

definition zero_reply :: ReplyAction where
  "zero_reply = \<lparr>ReplySelector = zero_selector, ReplyKind = ReplyIngress\<rparr>"

definition zero_action :: Action where
  "zero_action = \<lparr>Server = [], Reply = zero_reply, Kind = ActionBlackhole\<rparr>"

definition Action_String :: "Action \<Rightarrow> string" where
  "Action_String a =
     (case Kind a of
        ActionServer \<Rightarrow> ''server '' @ Server a
      | ActionDefault \<Rightarrow> ''default''
      | ActionBlackhole \<Rightarrow> ''blackhole'')"

type_synonym policy_entries = "(bytes \<times> Action) list"

record policy_table =
  entries :: policy_entries
  fallback :: Action

subsection \<open>Lookup\<close>

fun Table_LookupID :: "policy_table \<Rightarrow> u8 slice list \<Rightarrow> Action \<times> u8 slice" where
  "Table_LookupID t [] = (fallback t, None)"
| "Table_LookupID t (i # ids) =
     (if elems i = [] then Table_LookupID t ids
      else (case map_of (entries t) (elems i) of
              Some a \<Rightarrow> (a, i)
            | None \<Rightarrow> Table_LookupID t ids))"

definition Table_Lookup :: "policy_table \<Rightarrow> u8 slice list \<Rightarrow> Action" where
  "Table_Lookup t ids = fst (Table_LookupID t ids)"

subsection \<open>Server validation\<close>

datatype server_error = NotResolvable string

text \<open>The set of servers seen is a Go map, nil or not; a write is visible to the caller of a non-nil one.\<close>

type_synonym serverSet = "string list option"

definition mark_seen :: "string \<Rightarrow> serverSet \<Rightarrow> serverSet" where
  "mark_seen srv seen = map_option ((#) srv) seen"

definition ValidateServerContext ::
  "(string \<Rightarrow> bool) \<Rightarrow> Action \<Rightarrow> serverSet \<Rightarrow> server_error option \<times> serverSet" where
  "ValidateServerContext LookupHost a seen =
     (if Kind a \<noteq> ActionServer then (None, seen)
      else if Server a \<in> set (elems seen) then (None, seen)
      else if ParseIP (Server a) \<noteq> None then (None, mark_seen (Server a) seen)
      else if \<not> LookupHost (Server a) then (Some (NotResolvable (Server a)), seen)
      else (None, mark_seen (Server a) seen))"

definition ValidateServer ::
  "(string \<Rightarrow> bool) \<Rightarrow> Action \<Rightarrow> serverSet \<Rightarrow> server_error option \<times> serverSet" where
  "ValidateServer LookupHost a seen = ValidateServerContext LookupHost a seen"

fun validate_entries ::
  "(string \<Rightarrow> bool) \<Rightarrow> policy_entries \<Rightarrow> serverSet \<Rightarrow> server_error option \<times> serverSet" where
  "validate_entries LookupHost [] seen = (None, seen)"
| "validate_entries LookupHost ((k, a) # es) seen =
     (case ValidateServerContext LookupHost a seen of
        (Some err, seen') \<Rightarrow> (Some err, seen')
      | (None, seen') \<Rightarrow> validate_entries LookupHost es seen')"

text \<open>\<open>iter\<close> is the order in which Go's map iteration visits the entries.\<close>

definition Table_ValidateContext ::
  "(policy_entries \<Rightarrow> policy_entries) \<Rightarrow> (string \<Rightarrow> bool) \<Rightarrow> policy_table \<Rightarrow> server_error option" where
  "Table_ValidateContext iter LookupHost t =
     (case validate_entries LookupHost (iter (entries t)) (Some []) of
        (Some err, seen) \<Rightarrow> Some err
      | (None, seen) \<Rightarrow> fst (ValidateServerContext LookupHost (fallback t) seen))"

definition Table_Validate ::
  "(policy_entries \<Rightarrow> policy_entries) \<Rightarrow> (string \<Rightarrow> bool) \<Rightarrow> policy_table \<Rightarrow> server_error option" where
  "Table_Validate iter LookupHost t = Table_ValidateContext iter LookupHost t"

subsection \<open>Parsing\<close>

datatype policy_error =
    UnknownAction string | UnknownReplyAction string | ReplySelectorError selector_error
  | InvalidHex string | EmptyHex string | HexTooLong string nat | InvalidIdentifier string | NotSixBytes string
  | TooManyFields nat | AtLine nat policy_error | ReadError | ServerError server_error

definition ParseAction :: "string \<Rightarrow> policy_error + Action" where
  "ParseAction token =
     (if token = [] \<or> token = ActionDefaultKeyword then Inr (zero_action\<lparr>Kind := ActionDefault\<rparr>)
      else if token = ActionBlackholeKeyword then Inr (zero_action\<lparr>Kind := ActionBlackhole\<rparr>)
      else if HasPrefix token ActionPrefix then Inl (UnknownAction token)
      else Inr (zero_action\<lparr>Kind := ActionServer, Server := token\<rparr>))"

definition ParseReplyAction :: "string \<Rightarrow> policy_error + ReplyAction" where
  "ParseReplyAction token =
     (if token = [] \<or> token = ActionDefaultKeyword then Inr (zero_reply\<lparr>ReplyKind := ReplyIngress\<rparr>)
      else if token = ActionBlackholeKeyword then Inr (zero_reply\<lparr>ReplyKind := ReplyBlackhole\<rparr>)
      else if HasPrefix token ActionPrefix then Inl (UnknownReplyAction token)
      else (case ParseSelector token of
              Inl err \<Rightarrow> Inl (ReplySelectorError err)
            | Inr sel \<Rightarrow> Inr \<lparr>ReplySelector = sel, ReplyKind = ReplyMatch\<rparr>))"

definition ParseIdentifier :: "string \<Rightarrow> policy_error + bytes" where
  "ParseIdentifier token =
     (if HasPrefix token HexPrefix \<or> HasPrefix token ''0X'' then
        (case hex_DecodeString (drop (length HexPrefix) token) of
           None \<Rightarrow> Inl (InvalidHex token)
         | Some i \<Rightarrow>
             (if length i = 0 then Inl (EmptyHex token)
              else if length i > MaxPolicyTagSize then Inl (HexTooLong token (length i))
              else Inr i))
      else
        (case ParseMAC token of
           None \<Rightarrow> Inl (InvalidIdentifier token)
         | Some i \<Rightarrow>
             (if length i \<noteq> EthernetMACLengthBytes then Inl (NotSixBytes token) else Inr i)))"

text \<open>The loop state: the table, the warnings and whether a catch-all line was seen.\<close>

type_synonym parse_state = "policy_table \<times> string list \<times> bool"

definition line_prefix :: "nat \<Rightarrow> string" where
  "line_prefix lineNum = ''line '' @ FormatUint lineNum @ '': ''"

definition parse_line :: "nat \<Rightarrow> parse_state \<Rightarrow> string \<Rightarrow> policy_error + parse_state" where
  "parse_line lineNum st line =
     (let (t, warnings, sawCatchAll) = st; flds = Fields line in
      if length flds = 0 then Inr st
      else if length flds > maxFields then Inl (AtLine lineNum (TooManyFields (length flds)))
      else
        (let actionToken = (if length flds > fieldAction then flds ! fieldAction else []);
             replyToken = (if length flds > fieldReply then flds ! fieldReply else [])
         in case ParseAction actionToken of
              Inl err \<Rightarrow> Inl (AtLine lineNum err)
            | Inr action0 \<Rightarrow>
                (case ParseReplyAction replyToken of
                   Inl err \<Rightarrow> Inl (AtLine lineNum err)
                 | Inr reply \<Rightarrow>
                     (let action = action0\<lparr>Reply := reply\<rparr>; key = flds ! fieldKey in
                      if key = CatchAllKey then
                        Inr (t\<lparr>fallback := action\<rparr>,
                             warnings @ (if sawCatchAll
                               then [line_prefix lineNum @ ''duplicate \"*\" entry, last one wins''] else []),
                             True)
                      else (case ParseIdentifier key of
                              Inl err \<Rightarrow> Inl (AtLine lineNum err)
                            | Inr i \<Rightarrow>
                                Inr (t\<lparr>entries := AList.update i action (entries t)\<rparr>,
                                     warnings @ (if map_of (entries t) i \<noteq> None
                                       then [line_prefix lineNum @ ''duplicate identifier '' @ key @
                                             '', last entry wins''] else []),
                                     sawCatchAll))))))"

fun parse_lines :: "nat \<Rightarrow> parse_state \<Rightarrow> string list \<Rightarrow> policy_error + parse_state" where
  "parse_lines lineNum st [] = Inr st"
| "parse_lines lineNum st (line # ls) =
     (case parse_line lineNum st line of
        Inl err \<Rightarrow> Inl err
      | Inr st' \<Rightarrow> parse_lines (lineNum + 1) st' ls)"

definition empty_table :: policy_table where
  "empty_table = \<lparr>entries = [], fallback = zero_action\<rparr>"

definition policy_Parse :: "(policy_table, policy_error) Parser" where
  "policy_Parse r =
     (let (ls, too_long) = Scan (contents r) in
      case parse_lines 1 (empty_table, [], False) ls of
        Inl err \<Rightarrow> Inl err
      | Inr (t, warnings, sawCatchAll) \<Rightarrow>
          (if too_long \<or> read_fails r then Inl ReadError
           else Inr (Some t,
                  warnings @ (if length (entries t) = 0 \<and> Kind (fallback t) = ActionBlackhole
                    then [''no relayable entries: every DHCPv4 message will be dropped''] else []))))"

subsection \<open>The live policy\<close>

text \<open>What validation consults: the map iteration order, and the resolver, told whether its context is cancelled.\<close>

record policy_env =
  map_order :: "policy_entries \<Rightarrow> policy_entries"
  LookupHost :: "bool \<Rightarrow> string \<Rightarrow> bool"

definition policy_validate :: "(policy_table, policy_error, policy_env) Validator" where
  "policy_validate cancelled env t =
     map_option ServerError
       (Table_ValidateContext (map_order env) (LookupHost env cancelled) t)"

definition policy_describe :: "policy_table \<Rightarrow> string" where
  "policy_describe t =
     FormatUint (length (entries t)) @ '' entries, default action: '' @ Action_String (fallback t)"

type_synonym policy_map = "(policy_table, policy_error, policy_env) Watcher"

definition policy_config :: "string \<Rightarrow> int \<Rightarrow> unit option \<Rightarrow> (policy_table, policy_error, policy_env) Config" where
  "policy_config p ival lg =
     \<lparr>Log = lg, Parse = Some policy_Parse, Validate = Some policy_validate, Describe = Some policy_describe,
      Path = p, Name = ''MAC policy'', Interval = ival\<rparr>"

definition policy_New ::
  "string \<Rightarrow> int \<Rightarrow> unit option \<Rightarrow> (string \<Rightarrow> string option) \<Rightarrow> policy_env file_io \<Rightarrow>
   (policy_error watch_error + policy_map) \<times> policy_error log_entry list" where
  "policy_New p ival lg Abs io = New (policy_config p ival lg) Abs io"

definition Map_LookupID :: "policy_map \<Rightarrow> u8 slice list \<Rightarrow> Action \<times> u8 slice" where
  "Map_LookupID m ids =
     (case Snapshot m of None \<Rightarrow> (zero_action, None) | Some t \<Rightarrow> Table_LookupID t ids)"

definition Map_Lookup :: "policy_map \<Rightarrow> u8 slice list \<Rightarrow> Action" where
  "Map_Lookup m ids = fst (Map_LookupID m ids)"

definition Map_Reload where
  "Map_Reload (m :: policy_map) io = Reload m io"

definition Map_CloseContext where
  "Map_CloseContext (m :: policy_map) = CloseContext m"

definition Map_Close where
  "Map_Close (m :: policy_map) = close_done m"

subsection \<open>The meaning of a policy file\<close>

text \<open>
  A line on its own says nothing, sets the fallback, or binds an identifier. A file means the list of what its lines
  say: for each identifier the last binding counts, and for the fallback the last catch-all, or else the zero
  action, which drops.
\<close>

datatype rule = NoRule | Fallback Action | Bind bytes Action

definition line_rule :: "string \<Rightarrow> rule option" where
  "line_rule line =
     (case Fields line of
        [] \<Rightarrow> Some NoRule
      | key # rest \<Rightarrow>
          (if length rest > 2 then None
           else case (ParseAction (if rest = [] then [] else rest ! 0),
                      ParseReplyAction (if length rest < 2 then [] else rest ! 1)) of
                  (Inr a, Inr r) \<Rightarrow>
                    (if key = CatchAllKey then Some (Fallback (a\<lparr>Reply := r\<rparr>))
                     else case ParseIdentifier key of
                            Inl _ \<Rightarrow> None
                          | Inr i \<Rightarrow> Some (Bind i (a\<lparr>Reply := r\<rparr>)))
                | _ \<Rightarrow> None))"

fun apply_rule :: "rule \<Rightarrow> policy_table \<Rightarrow> policy_table" where
  "apply_rule NoRule t = t"
| "apply_rule (Fallback a) t = t\<lparr>fallback := a\<rparr>"
| "apply_rule (Bind i a) t = t\<lparr>entries := AList.update i a (entries t)\<rparr>"

definition bindings :: "rule list \<Rightarrow> (bytes \<times> Action) list" where
  "bindings rules = List.map_filter (\<lambda>r. case r of Bind i a \<Rightarrow> Some (i, a) | _ \<Rightarrow> None) rules"

definition fallbacks :: "rule list \<Rightarrow> Action list" where
  "fallbacks rules = List.map_filter (\<lambda>r. case r of Fallback a \<Rightarrow> Some a | _ \<Rightarrow> None) rules"

lemma bindings_simps [simp]:
  "bindings [] = []" "bindings (NoRule # rs) = bindings rs" "bindings (Fallback a # rs) = bindings rs"
  "bindings (Bind i a # rs) = (i, a) # bindings rs"
  by (simp_all add: bindings_def List.map_filter_simps)

lemma fallbacks_simps [simp]:
  "fallbacks [] = []" "fallbacks (NoRule # rs) = fallbacks rs" "fallbacks (Fallback a # rs) = a # fallbacks rs"
  "fallbacks (Bind i b # rs) = fallbacks rs"
  by (simp_all add: fallbacks_def List.map_filter_simps)

lemma parse_line_rule:
  "(\<exists>r. line_rule line = Some r \<and>
      (\<exists>ws' saw'. parse_line n (t, ws, saw) line = Inr (apply_rule r t, ws', saw'))) \<or>
   (line_rule line = None \<and> (\<exists>err. parse_line n (t, ws, saw) line = Inl err))"
proof (cases "Fields line")
  case Nil
  then show ?thesis by (simp add: parse_line_def line_rule_def)
next
  case (Cons key rest)
  show ?thesis
  proof (cases "length rest > 2")
    case True
    then show ?thesis using Cons by (simp add: parse_line_def line_rule_def policy_syntax)
  next
    case False
    then show ?thesis
      using Cons
      by (auto simp: parse_line_def line_rule_def policy_syntax Let_def nth_Cons' numeral_2_eq_2
               split: sum.splits)
  qed
qed

lemma parse_lines_rules:
  "parse_lines n (t, ws, saw) ls = Inr (t', ws', saw') \<Longrightarrow>
   \<exists>rules. map line_rule ls = map Some rules \<and> t' = fold apply_rule rules t"
proof (induction ls arbitrary: n t ws saw)
  case Nil
  then show ?case by simp
next
  case (Cons l ls)
  from Cons.prems parse_line_rule [of l n t ws saw] obtain r ws1 saw1
    where r: "line_rule l = Some r" "parse_line n (t, ws, saw) l = Inr (apply_rule r t, ws1, saw1)"
    by (auto split: sum.splits)
  then obtain rules where "map line_rule ls = map Some rules" "t' = fold apply_rule rules (apply_rule r t)"
    using Cons.IH Cons.prems by fastforce
  with r show ?case by (intro exI [of _ "r # rules"]) simp
qed

lemma map_of_fold_apply:
  "map_of (entries (fold apply_rule rules t)) = map_of (entries t) ++ map_of (rev (bindings rules))"
proof (induction rules arbitrary: t)
  case Nil
  then show ?case by simp
next
  case (Cons r rules)
  then show ?case by (cases r) (simp_all add: update_conv' map_add_def fun_eq_iff split: option.splits)
qed

lemma fallback_fold_apply:
  "fallback (fold apply_rule rules t) = last (fallback t # fallbacks rules)"
proof (induction rules arbitrary: t)
  case Nil
  then show ?case by simp
next
  case (Cons r rules)
  then show ?case by (cases r) simp_all
qed

subsection \<open>Well-formed tables\<close>

definition wf_reply :: "ReplyAction \<Rightarrow> bool" where
  "wf_reply r \<longleftrightarrow>
     (if ReplyKind r = ReplyMatch then wf_selector (ReplySelector r) else ReplySelector r = zero_selector)"

definition wf_action :: "Action \<Rightarrow> bool" where
  "wf_action a \<longleftrightarrow> wf_reply (Reply a) \<and>
     (if Kind a = ActionServer then is_word (Server a) \<and> \<not> HasPrefix (Server a) ActionPrefix else Server a = [])"

definition wf_key :: "bytes \<Rightarrow> bool" where
  "wf_key k \<longleftrightarrow> 0 < length k \<and> length k \<le> MaxPolicyTagSize"

definition wf_table :: "policy_table \<Rightarrow> bool" where
  "wf_table t \<longleftrightarrow>
     distinct (map fst (entries t)) \<and>
     list_all (\<lambda>(k, a). wf_key k \<and> wf_action a) (entries t) \<and> wf_action (fallback t)"

fun wf_rule :: "rule \<Rightarrow> bool" where
  "wf_rule NoRule = True"
| "wf_rule (Fallback a) = wf_action a"
| "wf_rule (Bind i a) = (wf_key i \<and> wf_action a)"

lemma wf_zero_action [simp]: "wf_action zero_action"
  by (simp add: wf_action_def wf_reply_def zero_action_def zero_reply_def)

lemma ParseReplyAction_wf: "ParseReplyAction token = Inr r \<Longrightarrow> wf_reply r"
  by (auto simp: ParseReplyAction_def wf_reply_def zero_reply_def ParseSelector_wf split: if_splits sum.splits)

lemma ParseAction_wf:
  assumes "ParseAction token = Inr a" "token = [] \<or> is_word token" "wf_reply r"
  shows "wf_action (a\<lparr>Reply := r\<rparr>)"
  using assms by (auto simp: ParseAction_def wf_action_def zero_action_def is_word_def split: if_splits)

lemma ParseIdentifier_wf: "ParseIdentifier token = Inr i \<Longrightarrow> wf_key i"
  by (auto simp: ParseIdentifier_def wf_key_def MaxPolicyTagSize_def MaxAgentCircuitIDSize_def specs_defs
           split: if_splits option.splits)

lemma line_rule_wf:
  assumes "line_rule line = Some r"
  shows "wf_rule r"
proof (cases "Fields line")
  case Nil
  with assms show ?thesis by (auto simp: line_rule_def)
next
  case (Cons key rest)
  have word: "is_word w" if "w \<in> set rest" for w
    using Fields_words [of w line] Cons that by simp
  define atok where "atok = (if rest = [] then [] else rest ! 0)"
  define rtok where "rtok = (if length rest < 2 then [] else rest ! 1)"
  have atok: "atok = [] \<or> is_word atok" using word by (auto simp: atok_def)
  from assms Cons obtain a rp where p: "ParseAction atok = Inr a" "ParseReplyAction rtok = Inr rp"
    and r: "r = Fallback (a\<lparr>Reply := rp\<rparr>) \<or> (\<exists>i. ParseIdentifier key = Inr i \<and> r = Bind i (a\<lparr>Reply := rp\<rparr>))"
    by (auto simp: line_rule_def atok_def [symmetric] rtok_def [symmetric] split: if_splits sum.splits)
  from ParseAction_wf [OF p(1) atok ParseReplyAction_wf [OF p(2)]] r show ?thesis
    using ParseIdentifier_wf by auto
qed

lemma wf_update:
  assumes "list_all (\<lambda>(k, a). wf_key k \<and> wf_action a) es" "wf_key i" "wf_action a"
  shows "list_all (\<lambda>(k, a). wf_key k \<and> wf_action a) (AList.update i a es)"
  using assms by (induction es) auto

lemma apply_rule_wf: "wf_rule r \<Longrightarrow> wf_table t \<Longrightarrow> wf_table (apply_rule r t)"
  by (cases r) (simp_all add: wf_table_def wf_update distinct_update)

lemma fold_apply_wf: "list_all wf_rule rules \<Longrightarrow> wf_table t \<Longrightarrow> wf_table (fold apply_rule rules t)"
  by (induction rules arbitrary: t) (auto intro: apply_rule_wf)

lemma wf_empty_table [simp]: "wf_table empty_table"
  by (simp add: wf_table_def empty_table_def)

text \<open>What a successful parse returns, in terms of the rules of the lines.\<close>

lemma policy_Parse_rules:
  assumes "policy_Parse r = Inr (s, ws)"
  shows "\<exists>rules. map line_rule (fst (Scan (contents r))) = map Some rules \<and>
           list_all wf_rule rules \<and> s = Some (fold apply_rule rules empty_table) \<and>
           \<not> snd (Scan (contents r)) \<and> \<not> read_fails r"
proof -
  obtain ls long where sc: "Scan (contents r) = (ls, long)" by fastforce
  from assms sc obtain t w saw where pl: "parse_lines 1 (empty_table, [], False) ls = Inr (t, w, saw)"
    and rest: "s = Some t" "\<not> long" "\<not> read_fails r"
    by (auto simp: policy_Parse_def split: sum.splits if_splits)
  from parse_lines_rules [OF pl] obtain rules
    where rules: "map line_rule ls = map Some rules" "t = fold apply_rule rules empty_table" by blast
  have "list_all wf_rule rules"
  proof -
    have "wf_rule x" if x: "x \<in> set rules" for x
    proof -
      have "Some x \<in> set (map line_rule ls)" using x rules(1) by simp
      then show ?thesis using line_rule_wf by fastforce
    qed
    then show ?thesis by (simp add: list_all_iff)
  qed
  with rules rest sc show ?thesis by auto
qed

lemma all_lines_rules: "\<not> list_ex (\<lambda>l. line_rule l = None) ls \<Longrightarrow> \<exists>rules. map line_rule ls = map Some rules"
  by (rule exI [of _ "map (the \<circ> line_rule) ls"]) (auto simp: list_ex_iff)

lemma parse_lines_complete:
  "map line_rule ls = map Some rules \<Longrightarrow> \<exists>st. parse_lines n (t, w, saw) ls = Inr st"
proof (induction ls arbitrary: n t w saw rules)
  case (Cons l ls)
  then obtain ru rus where ru: "rules = ru # rus" "line_rule l = Some ru" by (cases rules) auto
  from parse_line_rule [of l n t w saw] ru(2) obtain w' saw'
    where "parse_line n (t, w, saw) l = Inr (apply_rule ru t, w', saw')" by auto
  with Cons.IH [of rus "n + 1"] Cons.prems ru show ?case by auto
qed simp

lemma policy_Parse_complete:
  assumes "map line_rule (fst (Scan (contents r))) = map Some rules" "\<not> snd (Scan (contents r))" "\<not> read_fails r"
  shows "\<exists>x. policy_Parse r = Inr x"
proof -
  obtain t w saw where "parse_lines 1 (empty_table, [], False) (fst (Scan (contents r))) = Inr (t, w, saw)"
    using parse_lines_complete [OF assms(1)] by (metis prod_cases3)
  with assms show ?thesis by (cases "Scan (contents r)") (simp add: policy_Parse_def)
qed

interpretation policy_file: snapshot_parser policy_Parse wf_table
proof
  fix r s ws
  assume "policy_Parse r = Inr (s, ws)"
  from policy_Parse_rules [OF this] show "\<exists>t. s = Some t \<and> wf_table t"
    using fold_apply_wf wf_empty_table by blast
qed

subsection \<open>Lemmas for the properties\<close>

text \<open>Lookup by the meaning of the file: the first identifier that some line binds, with its last binding.\<close>

definition rules_lookup :: "rule list \<Rightarrow> u8 slice list \<Rightarrow> Action \<times> u8 slice" where
  "rules_lookup rules ids =
     (case find (\<lambda>i. elems i \<noteq> [] \<and> elems i \<in> fst ` set (bindings rules)) ids of
        Some i \<Rightarrow> (last (map snd (filter (\<lambda>(k, a). k = elems i) (bindings rules))), i)
      | None \<Rightarrow> (last (zero_action # fallbacks rules), None))"

lemma map_of_rev_last:
  "map_of (rev xs) k =
     (if k \<in> fst ` set xs then Some (last (map snd (filter (\<lambda>(k', a). k' = k) xs))) else None)"
proof (induction xs)
  case Nil
  then show ?case by simp
next
  case (Cons x xs)
  obtain k' a where x: "x = (k', a)" by fastforce
  show ?case
  proof (cases "k \<in> fst ` set xs")
    case True
    then have "filter (\<lambda>(k', a). k' = k) xs \<noteq> []" by (auto simp: filter_empty_conv)
    with True Cons.IH x show ?thesis by (auto simp: map_add_def)
  next
    case False
    then have "filter (\<lambda>(k', a). k' = k) xs = []" by (auto simp: filter_empty_conv image_iff)
    with False Cons.IH x show ?thesis by (auto simp: map_add_def)
  qed
qed

lemma Table_LookupID_rules:
  assumes "map_of (entries t) = map_of (rev (bindings rules))" "fallback t = last (zero_action # fallbacks rules)"
  shows "Table_LookupID t ids = rules_lookup rules ids"
  using assms by (induction ids) (simp_all add: rules_lookup_def map_of_rev_last)

lemma Table_LookupID_matched:
  "Table_LookupID t ids = (a, Some k) \<Longrightarrow>
   k \<noteq> [] \<and> map_of (entries t) k = Some a \<and> Some k \<in> set ids \<and> (\<forall>rest. Table_LookupID t (Some k # rest) = (a, Some k))"
  by (induction ids) (auto split: if_splits option.splits)

text \<open>
  What a lookup by identifiers promises whoever keeps the key it matched: the key is one of the identifiers, is not empty, and
  finds the same entry again on its own and before any other identifier.
\<close>

locale keyed_lookup =
  fixes look :: "'m \<Rightarrow> u8 slice list \<Rightarrow> 'a \<times> bytes option"
  assumes matched: "look m ids = (a, Some k) \<Longrightarrow> k \<noteq> [] \<and> Some k \<in> set ids \<and> (\<forall>rest. look m (Some k # rest) = (a, Some k))"
begin

lemma reapplied: "look m ids = (a, Some k) \<Longrightarrow> look m [Some k] = (a, Some k)"
  using matched by blast

lemma key_stable: "look m ids = (a, Some k) \<Longrightarrow> look m (Some k # ids) = look m ids"
  using matched by fastforce

end

interpretation table_lookup: keyed_lookup Table_LookupID
  by unfold_locales (use Table_LookupID_matched in blast)

lemma Table_LookupID_unmatched:
  "Table_LookupID t ids = (a, None) \<Longrightarrow> a = fallback t \<and> (\<forall>i \<in> set ids. elems i \<noteq> [] \<longrightarrow> map_of (entries t) (elems i) = None)"
  by (induction ids) (auto split: if_splits option.splits)

definition server_ok :: "(string \<Rightarrow> bool) \<Rightarrow> Action \<Rightarrow> bool" where
  "server_ok resolves a \<longleftrightarrow> Kind a \<noteq> ActionServer \<or> ParseIP (Server a) \<noteq> None \<or> resolves (Server a)"

definition seen_ok :: "(string \<Rightarrow> bool) \<Rightarrow> serverSet \<Rightarrow> bool" where
  "seen_ok resolves seen \<longleftrightarrow> list_all (\<lambda>srv. ParseIP srv \<noteq> None \<or> resolves srv) (elems seen)"

lemma seen_ok_mark:
  "seen_ok resolves seen \<Longrightarrow> ParseIP srv \<noteq> None \<or> resolves srv \<Longrightarrow> seen_ok resolves (mark_seen srv seen)"
  by (cases seen) (auto simp: seen_ok_def mark_seen_def)

lemma ValidateServerContext_ok:
  assumes "seen_ok resolves seen"
  shows "(fst (ValidateServerContext resolves a seen) = None) = server_ok resolves a \<and>
         seen_ok resolves (snd (ValidateServerContext resolves a seen))"
proof -
  have "server_ok resolves a" if "Server a \<in> set (elems seen)"
    using assms that by (auto simp: seen_ok_def server_ok_def list_all_iff)
  then show ?thesis
    using assms seen_ok_mark [OF assms, of "Server a"]
    by (auto simp: ValidateServerContext_def server_ok_def)
qed

lemma validate_entries_ok:
  assumes "seen_ok resolves seen"
  shows "(fst (validate_entries resolves es seen) = None) = list_all (\<lambda>e. server_ok resolves (snd e)) es \<and>
         seen_ok resolves (snd (validate_entries resolves es seen))"
  using assms
proof (induction es arbitrary: seen)
  case Nil
  then show ?case by simp
next
  case (Cons e es)
  obtain k a where e: "e = (k, a)" by fastforce
  obtain err seen' where v: "ValidateServerContext resolves a seen = (err, seen')" by fastforce
  with ValidateServerContext_ok [OF Cons.prems, of a]
  have *: "(err = None) = server_ok resolves a" "seen_ok resolves seen'" by simp_all
  show ?case
    using * v e Cons.IH [OF *(2)] by (cases err) auto
qed

lemma Table_ValidateContext_ok:
  assumes "mset (iter (entries t)) = mset (entries t)"
  shows "Table_ValidateContext iter resolves t = None \<longleftrightarrow>
         list_all (\<lambda>e. server_ok resolves (snd e)) (entries t) \<and> server_ok resolves (fallback t)"
proof -
  obtain err seen where v: "validate_entries resolves (iter (entries t)) (Some []) = (err, seen)" by fastforce
  have "seen_ok resolves (Some [])" by (simp add: seen_ok_def)
  from validate_entries_ok [OF this, of "iter (entries t)"] v
  have *: "(err = None) = list_all (\<lambda>e. server_ok resolves (snd e)) (iter (entries t))" "seen_ok resolves seen"
    by simp_all
  have "set (iter (entries t)) = set (entries t)" using assms by (rule mset_eq_setD)
  then have "list_all (\<lambda>e. server_ok resolves (snd e)) (iter (entries t)) =
             list_all (\<lambda>e. server_ok resolves (snd e)) (entries t)"
    by (simp add: list_all_iff)
  with * v ValidateServerContext_ok [OF *(2), of "fallback t"] show ?thesis
    by (cases err) (simp_all add: Table_ValidateContext_def)
qed

lemma ParseIdentifier_MAC:
  assumes "length mac = 6"
  shows "ParseIdentifier (HardwareAddr_String (Some mac)) = Inr mac"
proof -
  obtain a rest where mac: "mac = a # rest" using assms by (cases mac) auto
  obtain b c where "rest = b # c" using assms mac by (cases rest) auto
  then obtain tl where s: "HardwareAddr_String (Some mac) = hex_byte a @ CHR '':'' # tl"
    using mac by (auto simp: HardwareAddr_String_def)
  have "hex_digit n \<noteq> CHR ''x'' \<and> hex_digit n \<noteq> CHR ''X''" if "n < 16" for n
  proof -
    have "hex_val (hex_digit n) = Some n" using that by simp
    moreover have "hex_val (CHR ''x'') = None" "hex_val (CHR ''X'') = None" by (simp_all add: hex_val_def)
    ultimately show ?thesis by auto
  qed
  then have "\<not> HasPrefix (HardwareAddr_String (Some mac)) HexPrefix"
    "\<not> HasPrefix (HardwareAddr_String (Some mac)) ''0X''"
    unfolding s by (auto simp: HasPrefix_def HexPrefix_def hex_byte_def)
  then show ?thesis
    using assms by (simp add: ParseIdentifier_def ParseMAC_String specs_defs)
qed

lemma ParseIdentifier_hex:
  assumes "wf_key i"
  shows "ParseIdentifier (HexPrefix @ concat (map hex_byte i)) = Inr i"
  using assms
  by (auto simp: ParseIdentifier_def HasPrefix_def HexPrefix_def hex_DecodeString_hex_bytes wf_key_def)

subsection \<open>Properties\<close>

text \<open>
  C14: a policy file is accepted exactly when every line has a meaning and the file was read to its end. The table
  then answers every lookup the way the lines say, the last binding of the first bound identifier or the last
  catch-all, and without a catch-all line the zero action, which drops; and the table is well-formed.
\<close>

theorem policy_Parse_correct:
  "case policy_Parse r of
     Inl err \<Rightarrow> list_ex (\<lambda>l. line_rule l = None) (fst (Scan (contents r))) \<or> snd (Scan (contents r)) \<or> read_fails r
   | Inr (s, ws) \<Rightarrow>
       (\<exists>rules t. s = Some t \<and> map line_rule (fst (Scan (contents r))) = map Some rules \<and>
          \<not> snd (Scan (contents r)) \<and> \<not> read_fails r \<and> wf_table t \<and>
          Table_LookupID t = rules_lookup rules)"
proof (cases "policy_Parse r")
  case (Inl err)
  then have "list_ex (\<lambda>l. line_rule l = None) (fst (Scan (contents r)))"
    if "\<not> snd (Scan (contents r))" "\<not> read_fails r"
    using that policy_Parse_complete all_lines_rules by force
  with Inl show ?thesis by auto
next
  case (Inr x)
  obtain s ws where x: "x = (s, ws)" by fastforce
  from policy_Parse_rules Inr x obtain rules
    where rules: "map line_rule (fst (Scan (contents r))) = map Some rules" "list_all wf_rule rules"
      "s = Some (fold apply_rule rules empty_table)" "\<not> snd (Scan (contents r))" "\<not> read_fails r" by blast
  have "Table_LookupID (fold apply_rule rules empty_table) = rules_lookup rules"
    by (rule ext, rule Table_LookupID_rules)
      (simp_all add: map_of_fold_apply fallback_fold_apply empty_table_def)
  with rules Inr x fold_apply_wf [OF rules(2) wf_empty_table] show ?thesis by auto
qed

text \<open>
  C35: validation passes exactly when every server named by an entry or by the fallback is a literal IP address or
  resolves. The order in which the map is visited and the memory of servers already seen make no difference.
\<close>

theorem Table_ValidateContext_correct:
  assumes "mset (iter (entries t)) = mset (entries t)"
  shows "Table_ValidateContext iter resolves t = None \<longleftrightarrow>
         list_all (server_ok resolves) (fallback t # map snd (entries t))"
  using Table_ValidateContext_ok [of iter t, OF assms] by (auto simp: list_all_iff)

definition sample_action :: "string \<Rightarrow> Action" where
  "sample_action srv = zero_action\<lparr>Kind := ActionServer, Server := srv\<rparr>"

definition sample_table :: policy_table where
  "sample_table =
     \<lparr>entries = [([1], sample_action ''dhcp1''), ([2], sample_action ''10.0.0.2''), ([3], sample_action ''dhcp1'')],
      fallback = zero_action\<rparr>"

theorem Table_ValidateContext_correct_witness:
  "mset (rev (entries sample_table)) = mset (entries sample_table) \<and>
   Table_ValidateContext rev (\<lambda>h. h = ''dhcp1'') sample_table = None \<and>
   Table_ValidateContext rev (\<lambda>h. False) sample_table \<noteq> None"
proof -
  have iter: "mset (rev (entries sample_table)) = mset (entries sample_table)" by simp
  have ip: "ParseIP ''10.0.0.2'' \<noteq> None" "ParseIP ''dhcp1'' = None" by code_simp+
  have "list_all (server_ok (\<lambda>h. h = ''dhcp1'')) (fallback sample_table # map snd (entries sample_table))"
    using ip by (simp add: sample_table_def sample_action_def zero_action_def server_ok_def)
  moreover have "\<not> list_all (server_ok (\<lambda>h. False)) (fallback sample_table # map snd (entries sample_table))"
    using ip by (simp add: sample_table_def sample_action_def zero_action_def server_ok_def)
  ultimately show ?thesis
    using iter Table_ValidateContext_correct [of rev sample_table, OF iter, of "\<lambda>h. h = ''dhcp1''"]
      Table_ValidateContext_correct [of rev sample_table, OF iter, of "\<lambda>h. False"] by blast
qed

text \<open>
  C36: the two spellings of an identifier round trip: a six byte address in colon notation and any identifier of 1 to
  241 bytes in hexadecimal parse to the bytes they print, so a client can be named by what its packets carry.
\<close>

theorem ParseIdentifier_roundtrip:
  assumes "wf_key i"
  shows "ParseIdentifier (HexPrefix @ concat (map hex_byte i)) = Inr i \<and>
         (length i = EthernetMACLengthBytes \<longrightarrow> ParseIdentifier (HardwareAddr_String (Some i)) = Inr i)"
  using ParseIdentifier_hex [OF assms] ParseIdentifier_MAC by (simp add: specs_defs)

theorem ParseIdentifier_roundtrip_witness:
  "wf_key [2, 0, 0, 0, 0, 0xab] \<and> ParseIdentifier ''02:00:00:00:00:ab'' = Inr [2, 0, 0, 0, 0, 0xab] \<and>
   ParseIdentifier ''0x0200000000ab'' = Inr [2, 0, 0, 0, 0, 0xab]"
proof -
  have wf: "wf_key [2, 0, 0, 0, 0, 0xab]"
    by (simp add: wf_key_def MaxPolicyTagSize_def MaxAgentCircuitIDSize_def specs_defs)
  have print: "HardwareAddr_String (Some [2, 0, 0, 0, 0, 0xab]) = ''02:00:00:00:00:ab''"
    "HexPrefix @ concat (map hex_byte [2, 0, 0, 0, 0, 0xab]) = ''0x0200000000ab''" by code_simp+
  have "length ([2, 0, 0, 0, 0, 0xab] :: bytes) = EthernetMACLengthBytes" by (simp add: specs_defs)
  with wf ParseIdentifier_roundtrip [OF wf] show ?thesis unfolding print by blast
qed


definition sample_policy_env :: policy_env where
  "sample_policy_env = \<lparr>map_order = id, LookupHost = (\<lambda>c h. False)\<rparr>"

lemma sample_policy_parse:
  "policy_Parse \<lparr>contents = ''* @default'', read_fails = False\<rparr> =
     Inr (Some \<lparr>entries = [], fallback = zero_action\<lparr>Kind := ActionDefault\<rparr>\<rparr>, [])"
proof -
  have "Scan ''* @default'' = ([''* @default''], False)"
    by (simp add: Scan_def MaxScanTokenSize_def drop_cr_def)
  moreover have "parse_lines 1 (empty_table, [], False) [''* @default''] =
    Inr (\<lparr>entries = [], fallback = zero_action\<lparr>Kind := ActionDefault\<rparr>\<rparr>, [], True)" by code_simp
  ultimately show ?thesis by (simp add: policy_Parse_def zero_action_def)
qed

lemma sample_policy_New:
  "\<exists>m logs. policy_New ''/etc/p'' 0 (Some ()) Some (sample_io ''* @default'' sample_policy_env) = (Inr m, logs) \<and>
     Map_Lookup m [] = zero_action\<lparr>Kind := ActionDefault\<rparr>"
  by (simp add: policy_New_def New_def policy_config_def Reload_def new_watcher_def sample_io_def
      sample_policy_parse policy_validate_def Table_ValidateContext_def ValidateServerContext_def
      sample_policy_env_def zero_action_def Map_Lookup_def Map_LookupID_def Snapshot_def)


end
