(* ===== verification/Relay.thy ===== *)
theory Relay
  imports Macpolicy Handle_Types
begin

text \<open>
  The policy decision per packet: \<^verbatim>\<open>pkg/relay/relay.go\<close>.
\<close>

definition RequestConfig :: "Action \<Rightarrow> u8 slice \<Rightarrow> Decision" where
  "RequestConfig action key =
     (let dec = zero_decision\<lparr>PolicyTag := key\<rparr> in
      if Kind action = ActionServer then dec\<lparr>ServerAddress := Server action\<rparr> else dec)"

definition ReplyConfig :: "Action \<Rightarrow> Decision" where
  "ReplyConfig action =
     (case ReplyKind (Reply action) of
        ReplyBlackhole \<Rightarrow> zero_decision\<lparr>DropReply := True\<rparr>
      | ReplyMatch \<Rightarrow> zero_decision\<lparr>ReplyNICMatch := Some (Selector_Match (ReplySelector (Reply action)))\<rparr>
      | ReplyIngress \<Rightarrow> zero_decision)"

definition lookupReplyActionFromSubOpts ::
  "policy_map \<Rightarrow> dhcpv4 \<Rightarrow> u8 slice \<Rightarrow> dhcp_option slice \<Rightarrow> Action" where
  "lookupReplyActionFromSubOpts policy layer clientID subOpts =
     (let base = Map_Lookup policy [clientID, ClientHWAddr layer] in
      if Kind base = ActionBlackhole then base
      else
        (let tag = ExtractPolicyTagSubOptionData (elems subOpts) in
         if length (elems tag) > 0 then
           (case Map_LookupID policy [tag] of (action, i) \<Rightarrow> if i \<noteq> None then action else base)
         else base))"

definition LookupReplyAction :: "policy_map \<Rightarrow> dhcpv4 \<Rightarrow> u8 slice \<Rightarrow> Action \<times> dhcp_option slice" where
  "LookupReplyAction policy layer clientID =
     (let opt82 = GetRelayAgentInformationOption layer;
          subOpts = (if IsOption opt82 then DecodeRelayAgentInformationOption opt82 else None)
      in (lookupReplyActionFromSubOpts policy layer clientID subOpts, subOpts))"

definition client_id :: "dhcpv4 \<Rightarrow> u8 slice" where
  "client_id layer =
     (let opt = GetOption layer DHCPOptClientID in if IsOption opt then Some (opt_Data opt) else None)"

text \<open>The decision, \<open>None\<close> beside the verdict to drop the packet.\<close>

definition PolicyForPacket :: "policy_map \<Rightarrow> dhcpv4 \<Rightarrow> Decision option \<times> bool" where
  "PolicyForPacket policy layer =
     (let clientID = client_id layer in
      if Operation layer = DHCPOpReply then
        (case LookupReplyAction policy layer clientID of (action, subOpts) \<Rightarrow>
           if Kind action = ActionBlackhole then (None, True)
           else (Some ((ReplyConfig action)\<lparr>ReplySubOpts := subOpts\<rparr>), False))
      else
        (case Map_LookupID policy [clientID, ClientHWAddr layer] of (action, key) \<Rightarrow>
           if Kind action = ActionBlackhole then (None, True)
           else (Some (RequestConfig action key), False)))"

subsection \<open>Lemmas\<close>

text \<open>The action the forward path picks for the identifiers of a packet.\<close>

definition base_action :: "policy_map \<Rightarrow> dhcpv4 \<Rightarrow> Action" where
  "base_action policy layer = Map_Lookup policy [client_id layer, ClientHWAddr layer]"

definition packet_subopts :: "dhcpv4 \<Rightarrow> dhcp_option slice" where
  "packet_subopts layer = (let opt82 = GetRelayAgentInformationOption layer in
     if IsOption opt82 then DecodeRelayAgentInformationOption opt82 else None)"

definition packet_tag :: "dhcpv4 \<Rightarrow> u8 slice" where
  "packet_tag layer = ExtractPolicyTagSubOptionData (elems (packet_subopts layer))"

text \<open>The action a tag selects, when it names an entry of the current table.\<close>

definition tag_action :: "policy_map \<Rightarrow> dhcpv4 \<Rightarrow> Action option" where
  "tag_action policy layer =
     (if elems (packet_tag layer) = [] then None
      else case Map_LookupID policy [packet_tag layer] of (a, None) \<Rightarrow> None | (a, Some _) \<Rightarrow> Some a)"

lemma LookupReplyAction_eq:
  "LookupReplyAction policy layer (client_id layer) =
     (if Kind (base_action policy layer) = ActionBlackhole then base_action policy layer
      else (case tag_action policy layer of Some a \<Rightarrow> a | None \<Rightarrow> base_action policy layer),
      packet_subopts layer)"
  by (simp add: LookupReplyAction_def lookupReplyActionFromSubOpts_def base_action_def tag_action_def
      packet_tag_def packet_subopts_def Let_def split: option.splits prod.splits)

text \<open>The live policy keeps the promise of its table, before the first load included.\<close>

interpretation policy_lookup: keyed_lookup Map_LookupID
proof unfold_locales
  fix m ids a k
  assume look: "Map_LookupID m ids = (a, Some k)"
  then obtain t where t: "Snapshot m = Some t" by (auto simp: Map_LookupID_def split: option.splits)
  with look have "Table_LookupID t ids = (a, Some k)" by (simp add: Map_LookupID_def)
  from table_lookup.matched [OF this] t
  show "k \<noteq> [] \<and> Some k \<in> set ids \<and> (\<forall>rest. Map_LookupID m (Some k # rest) = (a, Some k))"
    by (simp add: Map_LookupID_def del: Table_LookupID.simps)
qed

lemma PolicyForPacket_request:
  assumes "Operation layer \<noteq> DHCPOpReply" "Map_LookupID policy [client_id layer, ClientHWAddr layer] = (a, key)"
  shows "PolicyForPacket policy layer =
           (if Kind a = ActionBlackhole then (None, True) else (Some (RequestConfig a key), False))"
  using assms by (simp add: PolicyForPacket_def Let_def)

lemma policy_blackholed:
  assumes "Kind (base_action policy layer) = ActionBlackhole"
  shows "PolicyForPacket policy layer = (None, True)"
  using assms
  by (auto simp: PolicyForPacket_def LookupReplyAction_eq base_action_def Map_Lookup_def Let_def split: prod.splits)

text \<open>A table with one Option 61 entry, the watcher that serves it, and a request and a reply of that client.\<close>

definition sample_live :: "policy_table \<Rightarrow> policy_map" where
  "sample_live t = (new_watcher (policy_config ''/etc/p'' 0 (Some ())) policy_Parse ''/etc/p'')\<lparr>snap := Some t\<rparr>"

definition sample_entry_table :: "Action \<Rightarrow> policy_table" where
  "sample_entry_table fb =
     \<lparr>entries = [([1, 0xaa], zero_action\<lparr>Kind := ActionDefault, Reply := zero_reply\<lparr>ReplyKind := ReplyBlackhole\<rparr>\<rparr>)],
      fallback = fb\<rparr>"

definition sample_request :: dhcpv4 where
  "sample_request = sample_dhcpv4\<lparr>Options := [\<lparr>opt_Type = 61, opt_Length = 2, opt_Data = [1, 0xaa]\<rparr>]\<rparr>"

definition sample_tagged_reply :: dhcpv4 where
  "sample_tagged_reply = sample_dhcpv4\<lparr>Operation := 2, RelayHops := 1,
     Options := [\<lparr>opt_Type = 82, opt_Length = 7, opt_Data = [1, 1, 55, 224, 2, 1, 0xaa]\<rparr>]\<rparr>"

lemma Snapshot_sample_live [simp]: "Snapshot (sample_live t) = Some t"
  by (simp add: sample_live_def Snapshot_def)

lemma sample_client_ids:
  "client_id sample_request = Some [1, 0xaa]" "client_id sample_tagged_reply = None"
  by (simp_all add: client_id_def sample_request_def sample_tagged_reply_def GetOption_def IsOption_def layers_defs Let_def)

lemma sample_request_op: "Operation sample_request \<noteq> DHCPOpReply"
  by (simp add: sample_request_def sample_dhcpv4_def layers_defs)

lemma sample_reply_tag: "packet_tag sample_tagged_reply = Some [1, 0xaa]"
  by code_simp

subsection \<open>Properties\<close>

text \<open>
  C12: a packet is dropped by policy exactly when its own identifiers are denied, in either direction and whatever a tag
  says, or when it is a reply whose tag names a denied entry. A forged tag can thus never let a denied client through.
\<close>

theorem policy_drop_exact:
  "snd (PolicyForPacket policy layer) =
     (Kind (base_action policy layer) = ActionBlackhole \<or>
      Operation layer = DHCPOpReply \<and> (\<exists>a. tag_action policy layer = Some a \<and> Kind a = ActionBlackhole))
   \<and> (fst (PolicyForPacket policy layer) = None) = snd (PolicyForPacket policy layer)"
proof (cases "Operation layer = DHCPOpReply")
  case True
  then show ?thesis
    by (auto simp: PolicyForPacket_def LookupReplyAction_eq Let_def split: option.splits)
next
  case False
  then show ?thesis
    by (auto simp: PolicyForPacket_def base_action_def Map_Lookup_def Let_def split: prod.splits)
qed

text \<open>
  The entry that let a request through is the one that decides where its reply goes: when the reply brings the tag of
  the request back and its own identifiers are not denied, the reverse action is that of the entry matched on the way out.
\<close>

lemma tag_reapplies:
  assumes "PolicyForPacket policy req = (Some dec, False)" and "Operation req = DHCPOpRequest"
    and "PolicyTag dec = Some tag" and "Operation rep = DHCPOpReply"
    and "packet_tag rep = Some tag" and "Kind (base_action policy rep) \<noteq> ActionBlackhole"
  shows "\<exists>action. Map_LookupID policy [client_id req, ClientHWAddr req] = (action, Some tag) \<and>
           PolicyForPacket policy rep = (Some ((ReplyConfig action)\<lparr>ReplySubOpts := packet_subopts rep\<rparr>), False)"
proof -
  obtain action key where look: "Map_LookupID policy [client_id req, ClientHWAddr req] = (action, key)" by fastforce
  with assms(1,2) have allowed: "Kind action \<noteq> ActionBlackhole" and dec: "dec = RequestConfig action key"
    by (auto simp: PolicyForPacket_def Let_def layers_defs split: if_splits)
  then have key: "key = Some tag" using assms(3) by (simp add: RequestConfig_def Let_def zero_decision_def split: if_splits)
  from policy_lookup.matched [OF look [unfolded key]] policy_lookup.reapplied [OF look [unfolded key]] assms(5)
  have "tag_action policy rep = Some action" by (simp add: tag_action_def)
  with assms(4,6) allowed look key show ?thesis
    by (simp add: PolicyForPacket_def LookupReplyAction_eq Let_def)
qed

text \<open>
  C39: a reply whose own identifiers match no entry of a table without a catch-all is dropped before its tag is read,
  even when the tag names an entry that relays. A client listed by an Option 61 identifier only, whose server does not
  echo Option 61, thus loses its replies under a strict allow-list.
\<close>

theorem allow_list_drops_tagged_reply:
  assumes "Snapshot policy = Some t" and "fallback t = zero_action" and "client_id rep = None"
    and "map_of (entries t) (elems (ClientHWAddr rep)) = None"
  shows "PolicyForPacket policy rep = (None, True)"
proof -
  have "base_action policy rep = zero_action"
    using assms by (simp add: base_action_def Map_Lookup_def Map_LookupID_def)
  then show ?thesis
    by (intro policy_blackholed) (simp add: zero_action_def)
qed

theorem allow_list_drops_tagged_reply_witness:
  "snd (PolicyForPacket (sample_live (sample_entry_table zero_action)) sample_request) = False \<and>
   packet_tag sample_tagged_reply = Some [1, 0xaa] \<and>
   PolicyForPacket (sample_live (sample_entry_table zero_action)) sample_tagged_reply = (None, True)"
proof -
  let ?m = "sample_live (sample_entry_table zero_action)"
  have look: "Map_LookupID ?m [client_id sample_request, ClientHWAddr sample_request] =
    (zero_action\<lparr>Kind := ActionDefault, Reply := zero_reply\<lparr>ReplyKind := ReplyBlackhole\<rparr>\<rparr>, Some [1, 0xaa])"
    by (simp add: Map_LookupID_def sample_client_ids sample_entry_table_def)
  have "snd (PolicyForPacket ?m sample_request) = False"
    using PolicyForPacket_request [OF sample_request_op look] by (simp add: zero_action_def)
  moreover have "PolicyForPacket ?m sample_tagged_reply = (None, True)"
    by (rule allow_list_drops_tagged_reply [OF Snapshot_sample_live _ sample_client_ids(2)])
      (simp_all add: sample_entry_table_def sample_tagged_reply_def sample_dhcpv4_def)
  ultimately show ?thesis using sample_reply_tag by blast
qed

end
