(* ===== verification/Linkmap.thy ===== *)
theory Linkmap
  imports Cfgmatch Filewatch Handle_Types
begin

text \<open>
  The link map: \<^verbatim>\<open>pkg/linkmap/linkmap.go\<close>, from an ingress NIC to the client subnet that RFC 3527 link selection
  carries. The first matching line of the file wins.
\<close>

subsection \<open>Table and parser\<close>

definition numFields :: nat where "numFields = 2"

record Entry =
  Subnet :: ip
  Sel :: Selector

type_synonym link_table = "Entry list"

definition link_Lookup :: "link_table \<Rightarrow> string \<Rightarrow> string \<Rightarrow> ip \<times> bool" where
  "link_Lookup t name mac =
     (case find (\<lambda>e. Selector_Match (Sel e) name mac) t of
        Some e \<Rightarrow> (Subnet e, True)
      | None \<Rightarrow> (None, False))"

datatype link_error =
    InvalidSubnet string | NotIPv4 string | LinkSelectorError selector_error
  | WrongFieldCount nat | LinkAtLine nat link_error | LinkReadError

definition ParseSubnet :: "string \<Rightarrow> link_error + ip" where
  "ParseSubnet token =
     (case ParseCIDR token of
        None \<Rightarrow> Inl (InvalidSubnet token)
      | Some ipnet \<Rightarrow>
          (case To4 (IP ipnet) of
             None \<Rightarrow> Inl (NotIPv4 token)
           | Some v4 \<Rightarrow> Inr (Some v4)))"

fun link_parse_lines :: "nat \<Rightarrow> link_table \<Rightarrow> string list \<Rightarrow> link_error + link_table" where
  "link_parse_lines lineNum t [] = Inr t"
| "link_parse_lines lineNum t (line # ls) =
     (let flds = Fields line in
      if length flds = 0 then link_parse_lines (lineNum + 1) t ls
      else if length flds \<noteq> numFields then Inl (LinkAtLine lineNum (WrongFieldCount (length flds)))
      else (case ParseSelector (flds ! 0) of
              Inl err \<Rightarrow> Inl (LinkAtLine lineNum (LinkSelectorError err))
            | Inr sel \<Rightarrow>
                (case ParseSubnet (flds ! 1) of
                   Inl err \<Rightarrow> Inl (LinkAtLine lineNum err)
                 | Inr subnet \<Rightarrow>
                     link_parse_lines (lineNum + 1) (t @ [\<lparr>Subnet = subnet, Sel = sel\<rparr>]) ls)))"

definition link_Parse :: "(link_table, link_error) Parser" where
  "link_Parse r =
     (let (ls, too_long) = Scan (contents r) in
      case link_parse_lines 1 [] ls of
        Inl err \<Rightarrow> Inl err
      | Inr t \<Rightarrow>
          (if too_long \<or> read_fails r then Inl LinkReadError
           else Inr (Some t,
                  (if length t = 0 then [''no entries: every unnumbered ingress request will be dropped''] else []))))"

subsection \<open>The live link map\<close>

type_synonym link_map = "(link_table, link_error, unit) Watcher"

definition link_describe :: "link_table \<Rightarrow> string" where
  "link_describe t = FormatUint (length t) @ '' entries''"

definition link_config :: "string \<Rightarrow> int \<Rightarrow> unit option \<Rightarrow> (link_table, link_error, unit) Config" where
  "link_config p ival lg =
     \<lparr>Log = lg, Parse = Some link_Parse, Validate = None, Describe = Some link_describe,
      Path = p, Name = ''link map'', Interval = ival\<rparr>"

definition link_New ::
  "string \<Rightarrow> int \<Rightarrow> unit option \<Rightarrow> (string \<Rightarrow> string option) \<Rightarrow> unit file_io \<Rightarrow>
   (link_error watch_error + link_map) \<times> link_error log_entry list" where
  "link_New p ival lg Abs io = New (link_config p ival lg) Abs io"

definition link_Map_Lookup :: "link_map \<Rightarrow> string \<Rightarrow> string \<Rightarrow> ip \<times> bool" where
  "link_Map_Lookup m name mac =
     (case Snapshot m of None \<Rightarrow> (None, False) | Some t \<Rightarrow> link_Lookup t name mac)"

definition link_Map_Reload where
  "link_Map_Reload (m :: link_map) io = Reload m io"

definition link_Map_Close where
  "link_Map_Close (m :: link_map) = close_done m"

subsection \<open>Well-formed link maps\<close>

definition wf_entry :: "Entry \<Rightarrow> bool" where
  "wf_entry e \<longleftrightarrow> wf_selector (Sel e) \<and> (\<exists>b. Subnet e = Some b \<and> length b = 4)"

text \<open>What a line on its own says: nothing or one entry; \<open>None\<close> when it is malformed.\<close>

definition line_entry :: "string \<Rightarrow> Entry list option" where
  "line_entry line =
     (case Fields line of
        [] \<Rightarrow> Some []
      | [sel, net] \<Rightarrow>
          (case (ParseSelector sel, ParseSubnet net) of
             (Inr s, Inr n) \<Rightarrow> Some [\<lparr>Subnet = n, Sel = s\<rparr>]
           | _ \<Rightarrow> None)
      | _ \<Rightarrow> None)"

lemma ParseSubnet_four:
  assumes "ParseSubnet token = Inr n"
  shows "\<exists>b. n = Some b \<and> length b = 4"
proof (cases "ParseCIDR token")
  case (Some net)
  with assms show ?thesis by (cases "To4 (IP net)") (auto simp: ParseSubnet_def To4_length)
qed (use assms in \<open>simp add: ParseSubnet_def\<close>)

lemma line_entry_wf: "line_entry line = Some es \<Longrightarrow> list_all wf_entry es"
  by (auto simp: line_entry_def wf_entry_def ParseSelector_wf dest: ParseSubnet_four
           split: list.splits sum.splits)

lemma link_parse_line:
  "link_parse_lines n t (line # ls) =
     (case line_entry line of
        Some es \<Rightarrow> link_parse_lines (n + 1) (t @ es) ls
      | None \<Rightarrow> link_parse_lines n t [line])
   \<and> (line_entry line = None \<longrightarrow> (\<exists>err. link_parse_lines n t [line] = Inl err))"
  by (auto simp: line_entry_def Let_def numFields_def split: list.splits sum.splits)

lemma link_parse_lines_entries:
  "link_parse_lines n t ls = Inr t' \<longleftrightarrow>
     (\<exists>ess. map line_entry ls = map Some ess \<and> t' = t @ concat ess)"
proof (induction ls arbitrary: n t)
  case Nil
  then show ?case by auto
next
  case (Cons l ls)
  show ?case
  proof (cases "line_entry l")
    case None
    then show ?thesis using link_parse_line [of n t l ls] by (auto simp del: link_parse_lines.simps)
  next
    case (Some es)
    then have "link_parse_lines n t (l # ls) = link_parse_lines (n + 1) (t @ es) ls"
      using link_parse_line [of n t l ls] by (simp del: link_parse_lines.simps)
    moreover have "(\<exists>ess. map line_entry (l # ls) = map Some ess \<and> t' = t @ concat ess) \<longleftrightarrow>
      (\<exists>ess. map line_entry ls = map Some ess \<and> t' = (t @ es) @ concat ess)" (is "?L \<longleftrightarrow> ?R")
    proof
      assume ?L
      then obtain ess where ess: "map line_entry (l # ls) = map Some ess" "t' = t @ concat ess" by blast
      then obtain ess' where "ess = es # ess'" using Some by (cases ess) auto
      with ess show ?R by auto
    next
      assume ?R
      then obtain ess where "map line_entry ls = map Some ess" "t' = (t @ es) @ concat ess" by blast
      with Some show ?L by (intro exI [of _ "es # ess"]) simp
    qed
    ultimately show ?thesis using Cons.IH [of "n + 1" "t @ es"] by simp
  qed
qed

lemma link_Parse_entries:
  "link_Parse r = Inr (s, ws) \<longleftrightarrow>
     (\<exists>ess. map line_entry (fst (Scan (contents r))) = map Some ess \<and> \<not> snd (Scan (contents r)) \<and> \<not> read_fails r \<and>
        s = Some (concat ess) \<and>
        ws = (if concat ess = [] then [''no entries: every unnumbered ingress request will be dropped''] else []))"
proof -
  obtain ls long where sc: "Scan (contents r) = (ls, long)" by fastforce
  show ?thesis
  proof (cases "link_parse_lines 1 [] ls")
    case (Inl err)
    then have "\<nexists>ess. map line_entry ls = map Some ess"
      using link_parse_lines_entries [of 1 "[]" ls] by auto
    with Inl sc show ?thesis by (simp add: link_Parse_def)
  next
    case (Inr t)
    then obtain ess where ess: "map line_entry ls = map Some ess" "t = concat ess"
      using link_parse_lines_entries [of 1 "[]" ls t] by auto
    have uniq: "ess' = ess" if "map line_entry ls = map Some ess'" for ess'
      using that ess(1) by (simp add: inj_map_eq_map)
    from Inr sc ess show ?thesis by (auto simp: link_Parse_def dest: uniq)
  qed
qed

lemma entries_wf:
  assumes "map line_entry ls = map Some ess"
  shows "list_all wf_entry (concat ess)"
proof -
  have "list_all wf_entry es" if "es \<in> set ess" for es
  proof -
    have "Some es \<in> set (map line_entry ls)" using that assms by simp
    then show ?thesis using line_entry_wf by fastforce
  qed
  then show ?thesis by (auto simp: list_all_iff)
qed

interpretation link_file: snapshot_parser link_Parse "list_all wf_entry"
  by unfold_locales (auto simp: link_Parse_entries entries_wf)

definition live_links :: "link_map \<Rightarrow> bool" where
  "live_links m \<longleftrightarrow> pred_option (list_all wf_entry) (Snapshot m)"

interpretation link_provider: link_subnets link_Map_Lookup live_links
proof
  fix m :: link_map and name mac n
  assume "live_links m" "link_Map_Lookup m name mac = (n, True)"
  then obtain t e where "list_all wf_entry t" "find (\<lambda>e. Selector_Match (Sel e) name mac) t = Some e" "n = Subnet e"
    by (auto simp: live_links_def link_Map_Lookup_def link_Lookup_def split: option.splits)
  then show "\<exists>b. n = Some b \<and> length b = 4"
    by (auto simp: find_Some_iff list_all_length wf_entry_def)
qed

subsection \<open>Properties\<close>

text \<open>
  C23: a link map file is accepted exactly when every line is empty or one well-formed entry, and then a lookup answers
  with the subnet of the first line, in file order, whose selector accepts the NIC.
\<close>

theorem link_Parse_correct:
  "case link_Parse r of
     Inl err \<Rightarrow> list_ex (\<lambda>l. line_entry l = None) (fst (Scan (contents r))) \<or> snd (Scan (contents r)) \<or> read_fails r
   | Inr (s, ws) \<Rightarrow>
       (\<exists>ess. map line_entry (fst (Scan (contents r))) = map Some ess \<and> \<not> snd (Scan (contents r)) \<and> \<not> read_fails r \<and>
          (\<forall>name mac. link_Lookup (the s) name mac =
             (case filter (\<lambda>e. Selector_Match (Sel e) name mac) (concat ess) of
                [] \<Rightarrow> (None, False) | e # _ \<Rightarrow> (Subnet e, True))))"
proof (cases "link_Parse r")
  case (Inl err)
  have "\<exists>x. link_Parse r = Inr x"
    if "\<not> list_ex (\<lambda>l. line_entry l = None) (fst (Scan (contents r)))" "\<not> snd (Scan (contents r))" "\<not> read_fails r"
  proof -
    let ?ls = "fst (Scan (contents r))"
    have "map line_entry ?ls = map Some (map (the \<circ> line_entry) ?ls)" using that(1) by (auto simp: list_ex_iff)
    with that show ?thesis using link_Parse_entries [of r] by blast
  qed
  with Inl show ?thesis by auto
next
  case (Inr x)
  obtain s ws where x: "x = (s, ws)" by fastforce
  have first: "find P xs = (case filter P xs of [] \<Rightarrow> None | e # _ \<Rightarrow> Some e)" for P and xs :: "Entry list"
    by (induction xs) auto
  from Inr x link_Parse_entries [of r s ws] show ?thesis
    by (auto simp: link_Lookup_def first split: list.split)
qed

text \<open>
  C24: from its creation on and through every interleaving of reloads, polls and a close, the live link map answers every
  lookup either with nothing or with a four byte subnet, which is what the request path needs of it.
\<close>

theorem link_served:
  assumes "link_New f ival lg Abs io = (Inr m, logs)" and "watch_steps (m, Waiting) evs (m', pc)"
  shows "four_byte_lookup (link_Map_Lookup m') \<and> Snapshot m' \<noteq> None"
proof -
  have "Parse (link_config f ival lg) = Some link_Parse" by (simp add: link_config_def)
  from link_file.served_good [OF this _ assms(2)] assms(1) obtain t
    where "Snapshot m' = Some t" "list_all wf_entry t" unfolding link_New_def by blast
  then show ?thesis using link_provider.live_four_byte [of m'] by (simp add: live_links_def)
qed

lemma sample_link_parse:
  "link_Parse \<lparr>contents = ''* 10.1.2.3/16'', read_fails = False\<rparr> =
     Inr (Some [\<lparr>Subnet = Some [10, 1, 0, 0], Sel = zero_selector\<lparr>All := True\<rparr>\<rparr>], [])"
proof -
  have "Scan ''* 10.1.2.3/16'' = ([''* 10.1.2.3/16''], False)"
    by (simp add: Scan_def MaxScanTokenSize_def drop_cr_def)
  moreover have "link_parse_lines 1 [] [''* 10.1.2.3/16''] =
    Inr [\<lparr>Subnet = Some [10, 1, 0, 0], Sel = zero_selector\<lparr>All := True\<rparr>\<rparr>]" by code_simp
  ultimately show ?thesis by (simp add: link_Parse_def)
qed

theorem link_served_witness:
  "\<exists>m logs. link_New ''/etc/l'' 0 (Some ()) Some (sample_io ''* 10.1.2.3/16'' ()) = (Inr m, logs) \<and>
     watch_steps (m, Waiting) [CallClose] (close_done m, Waiting) \<and>
     link_Map_Lookup (close_done m) ''eth0'' [] = (Some [10, 1, 0, 0], True) \<and>
     four_byte_lookup (link_Map_Lookup (close_done m))"
proof -
  have "\<exists>m logs. link_New ''/etc/l'' 0 (Some ()) Some (sample_io ''* 10.1.2.3/16'' ()) = (Inr m, logs) \<and>
     link_Map_Lookup (close_done m) ''eth0'' [] = (Some [10, 1, 0, 0], True)"
    by (simp add: link_New_def New_def link_config_def Reload_def new_watcher_def sample_io_def sample_link_parse
        link_Map_Lookup_def close_done_def Snapshot_def link_Lookup_def Selector_Match_def)
  then obtain m logs where m: "link_New ''/etc/l'' 0 (Some ()) Some (sample_io ''* 10.1.2.3/16'' ()) = (Inr m, logs)"
    and look: "link_Map_Lookup (close_done m) ''eth0'' [] = (Some [10, 1, 0, 0], True)" by blast
  have run: "watch_steps (m, Waiting) [CallClose] (close_done m, Waiting)"
    by (rule steps_step [OF call_close steps_refl])
  from link_served [OF m run] m run look show ?thesis by blast
qed

end
