(* ===== verification/Validate.thy ===== *)
theory Validate
  imports Dhcp_Options Go_Net
begin

text \<open>
  Packet validation: \<^verbatim>\<open>pkg/dhcp4/validate.go\<close>. The checks run in the order of the code and the first that fails names the
  error; an absent layer is a nil pointer.
\<close>

record ValidateOptions =
  MTU :: u16
  VerifyChecksums :: bool

datatype validate_error =
    MTUBelowMinimum | NoEthernet | NoIPv4 | Fragmented | HasIPOptions
  | SrcNotIPv4 | SrcMulticast | DstNotIPv4 | DstMulticast
  | NoUDP | UnexpectedPort nat | NoDHCPv4 | UnexpectedHardwareType | UnexpectedHardwareLen | UnexpectedSize
  | BadIPv4Checksum | ChecksumBinding | BadUDPChecksum

definition verify_checksums :: "gopacket \<Rightarrow> ipv4 \<Rightarrow> udp \<Rightarrow> validate_error option" where
  "verify_checksums gp layerIPv4 layerUDP =
     (if \<not> IPv4_VerifyChecksum gp layerIPv4 then Some BadIPv4Checksum
      else if \<not> bind_udp_checksum gp layerUDP layerIPv4 then Some ChecksumBinding
      else if \<not> UDP_VerifyChecksum gp layerUDP then Some BadUDPChecksum
      else None)"

definition ValidateLayers ::
  "gopacket \<Rightarrow> ValidateOptions \<Rightarrow> ethernet option \<Rightarrow> ipv4 option \<Rightarrow> udp option \<Rightarrow> dhcpv4 option \<Rightarrow>
   validate_error option" where
  "ValidateLayers gp opts layerEthernet layerIPv4 layerUDP layerDHCPv4 =
     (if MTU opts \<noteq> 0 \<and> unat (MTU opts) < DHCPv4MinMessageSize then Some MTUBelowMinimum
      else if layerEthernet = None then Some NoEthernet
      else case layerIPv4 of
        None \<Rightarrow> Some NoIPv4
      | Some i4 \<Rightarrow>
          (if IPFlags i4 AND IPv4MoreFragments \<noteq> 0 \<or> FragOffset i4 > 0 then Some Fragmented
           else if unat (IHL i4) > IPv4FieldIHLValueMinHeaderNoOptions then Some HasIPOptions
           else if SrcIP i4 = None \<or> To4 (SrcIP i4) = None then Some SrcNotIPv4
           else if IsMulticast (SrcIP i4) \<or> IsLinkLocalMulticast (SrcIP i4) then Some SrcMulticast
           else if DstIP i4 = None \<or> To4 (DstIP i4) = None then Some DstNotIPv4
           else if IsMulticast (DstIP i4) \<or> IsLinkLocalMulticast (DstIP i4) then Some DstMulticast
           else case layerUDP of
             None \<Rightarrow> Some NoUDP
           | Some u \<Rightarrow>
               (if unat (DstPort u) \<noteq> DHCPv4ServerPort then Some (UnexpectedPort (unat (DstPort u)))
                else case layerDHCPv4 of
                  None \<Rightarrow> Some NoDHCPv4
                | Some d \<Rightarrow>
                    (if HardwareType d \<noteq> LinkTypeEthernet then Some UnexpectedHardwareType
                     else if unat (HardwareLen d) \<noteq> EthernetMACLengthBytes then Some UnexpectedHardwareLen
                     else if unat (DHCPv4_Len gp d) < DHCPv4MinMessageSize \<or>
                             (MTU opts > 0 \<and> DHCPv4_Len gp d > MTU opts) then Some UnexpectedSize
                     else if VerifyChecksums opts then verify_checksums gp i4 u
                     else None))))"

subsection \<open>What is accepted\<close>

text \<open>An IPv4 address outside 224.0.0.0/4, the class D range.\<close>

definition unicast_ipv4 :: "ip \<Rightarrow> bool" where
  "unicast_ipv4 a \<longleftrightarrow> (\<exists>b. To4 a = Some b \<and> \<not> (224 \<le> unat (b ! 0) \<and> unat (b ! 0) < 240))"

definition valid_packet :: "gopacket \<Rightarrow> ValidateOptions \<Rightarrow> ipv4 \<Rightarrow> udp \<Rightarrow> dhcpv4 \<Rightarrow> bool" where
  "valid_packet gp opts i u d \<longleftrightarrow>
     \<not> bit (IPFlags i) 0 \<and> FragOffset i = 0 \<and> IHL i \<le> 5 \<and> unicast_ipv4 (SrcIP i) \<and> unicast_ipv4 (DstIP i) \<and>
     DstPort u = 67 \<and> HardwareType d = 1 \<and> HardwareLen d = 6 \<and>
     244 \<le> DHCPv4_Len gp d \<and> (MTU opts = 0 \<or> 244 \<le> MTU opts \<and> DHCPv4_Len gp d \<le> MTU opts) \<and>
     (VerifyChecksums opts \<longrightarrow> IPv4_VerifyChecksum gp i \<and> bind_udp_checksum gp u i \<and> UDP_VerifyChecksum gp u)"

lemma high_nibble_e: "(x :: u8) AND 0xf0 = 0xe0 \<longleftrightarrow> 224 \<le> unat x \<and> unat x < 240"
proof -
  have "x AND 0xf0 = 0xe0 \<longleftrightarrow> (\<forall>n < 8. bit (x AND 0xf0) n = bit (0xe0 :: u8) n)"
    by (auto intro: bit_word_eqI)
  also have "\<dots> \<longleftrightarrow> (\<forall>n < 8. bit (drop_bit 4 x) n = bit (0xe :: u8) n)"
    using bit_imp_le_length [of x] by (simp add: bit_simps numeral_eq_Suc All_less_Suc) fastforce
  also have "\<dots> \<longleftrightarrow> drop_bit 4 x = 0xe"
    by (auto intro: bit_word_eqI)
  also have "\<dots> \<longleftrightarrow> unat x div 16 = 14"
    unfolding word_unat_eq_iff unat_drop_bit_eq by (simp add: drop_bit_eq_div)
  also have "(unat x div 16 = 14) \<longleftrightarrow> 224 \<le> unat x \<and> unat x < 240" by linarith
  finally show ?thesis .
qed

text \<open>For an IPv4 address the link local multicast range is part of class D, so the second test adds nothing.\<close>

lemma multicast_checks:
  "\<not> (a = None \<or> To4 a = None) \<and> \<not> (IsMulticast a \<or> IsLinkLocalMulticast a) \<longleftrightarrow> unicast_ipv4 a"
proof (cases "To4 a")
  case (Some b)
  then have "a \<noteq> None" by (cases a) (simp_all add: To4_def)
  then show ?thesis using Some
    by (auto simp: IsMulticast_def IsLinkLocalMulticast_def unicast_ipv4_def high_nibble_e)
qed (simp add: unicast_ipv4_def)

lemma verify_checksums_None:
  "verify_checksums gp i u = None \<longleftrightarrow>
     IPv4_VerifyChecksum gp i \<and> bind_udp_checksum gp u i \<and> UDP_VerifyChecksum gp u"
  by (simp add: verify_checksums_def)

lemma more_fragments_bit: "f AND IPv4MoreFragments \<noteq> 0 \<longleftrightarrow> bit f 0"
  by (simp add: IPv4MoreFragments_def and_one_eq odd_iff_mod_2_eq_one bit_0)

lemma first_error: "(if c then Some e else r) = None \<longleftrightarrow> \<not> c \<and> r = None"
  by simp

text \<open>C19: \<^verbatim>\<open>ValidateLayers\<close> accepts exactly the packets that have all four layers, are not
  fragments, carry no IP options, go from and to an IPv4 address outside 224.0.0.0/4, are addressed to UDP
  port 67, carry an Ethernet hardware address of six bytes and a message of at least 244 bytes that fits
  the MTU when one is set (and then the MTU is at least 244 itself), and, when asked for, have valid
  checksums.\<close>

theorem ValidateLayers_exact:
  "ValidateLayers gp opts le li lu ld = None \<longleftrightarrow>
     (\<exists>e i u d. le = Some e \<and> li = Some i \<and> lu = Some u \<and> ld = Some d \<and> valid_packet gp opts i u d)"
proof (cases "le = None \<or> li = None \<or> lu = None \<or> ld = None")
  case True
  then show ?thesis
    by (cases le; cases li; cases lu; cases ld) (simp_all only: ValidateLayers_def first_error option.case, simp_all)
next
  case False
  then obtain e i u d where ls: "le = Some e" "li = Some i" "lu = Some u" "ld = Some d" by auto
  have small: "unat w < 244 \<longleftrightarrow> \<not> 244 \<le> w" for w :: u16 by (simp add: word_le_nat_alt not_le)
  have fields: "unat (DstPort u) = 67 \<longleftrightarrow> DstPort u = 67" "unat (HardwareLen d) = 6 \<longleftrightarrow> HardwareLen d = 6"
    "5 < unat (IHL i) \<longleftrightarrow> \<not> IHL i \<le> 5"
    by (simp_all add: word_unat_eq_iff word_le_nat_alt not_le)
  show ?thesis
    unfolding ls ValidateLayers_def valid_packet_def multicast_checks [symmetric] verify_checksums_None [symmetric]
      more_fragments_bit [symmetric]
    by (simp only: first_error option.case specs_defs small fields LinkTypeEthernet_def) (auto simp: word_gt_0)
qed

end
