(* ===== verification/Logger.thy ===== *)
theory Logger
  imports Net_Host
begin

text \<open>
  The logger: \<^verbatim>\<open>pkg/logger/logger.go\<close>, over the part of the standard \<^verbatim>\<open>log\<close> package it uses. A configuration holds five
  loggers, each with its output, prefix and flags. Printing appends a line to the output it goes to; \<^verbatim>\<open>Fatalf\<close> then ends
  the process. The formatting of the arguments is not modelled: the message of a line is its format.
\<close>

subsection \<open>\<^verbatim>\<open>log.Logger\<close>\<close>

datatype writer = Stderr | Discard

record log_Logger =
  log_out :: writer
  log_prefix :: string
  log_flag :: nat

definition Ldate :: nat where "Ldate = 1"
definition Ltime :: nat where "Ltime = 2"
definition LUTC :: nat where "LUTC = 32"
definition Lmsgprefix :: nat where "Lmsgprefix = 64"

lemmas log_flags = Ldate_def Ltime_def LUTC_def Lmsgprefix_def

definition log_New :: "writer \<Rightarrow> string \<Rightarrow> nat \<Rightarrow> log_Logger" where
  "log_New w prefix flag = \<lparr>log_out = w, log_prefix = prefix, log_flag = flag\<rparr>"

text \<open>
  A printed line: the prefix at the start of the line, the time stamp if the flags ask for a date or a time, the prefix before the
  message if \<^verbatim>\<open>Lmsgprefix\<close> is set, the message, and a newline unless the message ends in one. The other header flags are not used.
\<close>

definition formatHeader :: "string \<Rightarrow> log_Logger \<Rightarrow> string" where
  "formatHeader stamp l =
     (if and (log_flag l) Lmsgprefix = 0 then log_prefix l else []) @
     (if and (log_flag l) (or Ldate Ltime) \<noteq> 0 then stamp else []) @
     (if and (log_flag l) Lmsgprefix \<noteq> 0 then log_prefix l else [])"

definition log_Printf :: "string \<Rightarrow> log_Logger \<Rightarrow> string \<Rightarrow> string list" where
  "log_Printf stamp l s =
     (case log_out l of
        Discard \<Rightarrow> []
      | Stderr \<Rightarrow> [formatHeader stamp l @ s @ (if s = [] \<or> last s \<noteq> CHR 0x0A then [CHR 0x0A] else [])])"

subsection \<open>The configuration\<close>

record log_Config =
  debugLogger :: log_Logger
  infoLogger :: log_Logger
  warnLogger :: log_Logger
  errorLogger :: log_Logger
  fatalLogger :: log_Logger

definition NewWithDatetime :: log_Config where
  "NewWithDatetime =
     (let flag = or (or (or Ldate Ltime) LUTC) Lmsgprefix in
      \<lparr>debugLogger = log_New Discard ''DBG | '' flag, infoLogger = log_New Stderr ''INF | '' flag,
       warnLogger = log_New Stderr ''WRN | '' flag, errorLogger = log_New Stderr ''ERR | '' flag,
       fatalLogger = log_New Stderr ''FTL | '' flag\<rparr>)"

definition NewWithoutDatetime :: log_Config where
  "NewWithoutDatetime =
     \<lparr>debugLogger = log_New Discard ''DBG | '' Lmsgprefix, infoLogger = log_New Stderr ''INF | '' Lmsgprefix,
      warnLogger = log_New Stderr ''WRN | '' Lmsgprefix, errorLogger = log_New Stderr ''ERR | '' Lmsgprefix,
      fatalLogger = log_New Stderr ''FTL | '' Lmsgprefix\<rparr>"

definition EnableVerbose :: "log_Config \<Rightarrow> log_Config" where
  "EnableVerbose c = c\<lparr>debugLogger := (debugLogger c)\<lparr>log_out := Stderr\<rparr>\<rparr>"

definition DisableVerbose :: "log_Config \<Rightarrow> log_Config" where
  "DisableVerbose c = c\<lparr>debugLogger := (debugLogger c)\<lparr>log_out := Discard\<rparr>\<rparr>"

definition Debugf :: "string \<Rightarrow> log_Config \<Rightarrow> string \<Rightarrow> string list" where
  "Debugf stamp c format = log_Printf stamp (debugLogger c) format"

definition Infof :: "string \<Rightarrow> log_Config \<Rightarrow> string \<Rightarrow> string list" where
  "Infof stamp c format = log_Printf stamp (infoLogger c) format"

definition Warnf :: "string \<Rightarrow> log_Config \<Rightarrow> string \<Rightarrow> string list" where
  "Warnf stamp c format = log_Printf stamp (warnLogger c) format"

definition Errorf :: "string \<Rightarrow> log_Config \<Rightarrow> string \<Rightarrow> string list" where
  "Errorf stamp c format = log_Printf stamp (errorLogger c) format"

text \<open>\<^verbatim>\<open>Fatalf\<close>: the lines, and the status the process exits with.\<close>

definition Fatalf :: "string \<Rightarrow> log_Config \<Rightarrow> string \<Rightarrow> string list \<times> nat" where
  "Fatalf stamp c format = (log_Printf stamp (fatalLogger c) format, 1)"

subsection \<open>What a run prints\<close>

fun print_effect :: "string \<Rightarrow> log_Config \<Rightarrow> effect \<Rightarrow> string list" where
  "print_effect stamp c (Logf Debug s) = Debugf stamp c s"
| "print_effect stamp c (Logf Info s) = Infof stamp c s"
| "print_effect stamp c (Logf Warn s) = Warnf stamp c s"
| "print_effect stamp c (Logf Error s) = Errorf stamp c s"
| "print_effect stamp c _ = []"

definition stderr_of :: "string \<Rightarrow> log_Config \<Rightarrow> effect list \<Rightarrow> string list" where
  "stderr_of stamp c es = concat (map (print_effect stamp c) es)"

text \<open>The log lines of a run that a configuration lets through: all but debug lines, and those too when it is verbose.\<close>

definition shown :: "bool \<Rightarrow> effect list \<Rightarrow> effect list" where
  "shown verbose es = filter (\<lambda>e. case e of Logf l _ \<Rightarrow> verbose \<or> l \<noteq> Debug | _ \<Rightarrow> False) es"

definition config_ok :: "log_Config \<Rightarrow> bool" where
  "config_ok c \<longleftrightarrow>
     log_out (infoLogger c) = Stderr \<and> log_out (warnLogger c) = Stderr \<and> log_out (errorLogger c) = Stderr \<and>
     log_out (fatalLogger c) = Stderr"

definition verbose :: "log_Config \<Rightarrow> bool" where
  "verbose c \<longleftrightarrow> log_out (debugLogger c) = Stderr"

lemma config_ok_new [simp]:
  "config_ok NewWithDatetime" "config_ok NewWithoutDatetime" "\<not> verbose NewWithDatetime" "\<not> verbose NewWithoutDatetime"
  by (simp_all add: config_ok_def verbose_def NewWithDatetime_def NewWithoutDatetime_def log_New_def Let_def)

lemma config_ok_verbose [simp]:
  "config_ok (EnableVerbose c) = config_ok c" "config_ok (DisableVerbose c) = config_ok c"
  "verbose (EnableVerbose c)" "\<not> verbose (DisableVerbose c)"
  by (simp_all add: config_ok_def verbose_def EnableVerbose_def DisableVerbose_def)

lemma print_effect_shown:
  assumes "config_ok c"
  shows "length (print_effect stamp c e) = length (shown (verbose c) [e])"
proof (cases e)
  case (Logf l s)
  with assms show ?thesis
    by (cases l) (simp_all add: shown_def config_ok_def verbose_def Debugf_def Infof_def Warnf_def Errorf_def log_Printf_def split: writer.split)
qed (simp_all add: shown_def)

lemma shown_Cons: "shown v (e # es) = shown v [e] @ shown v es"
  by (simp add: shown_def)

lemma stderr_of_lines:
  "config_ok c \<Longrightarrow> length (stderr_of stamp c es) = length (shown (verbose c) es)"
proof (induction es)
  case Nil
  show ?case by (simp add: stderr_of_def shown_def)
next
  case (Cons e es)
  then show ?case
    using print_effect_shown [of c stamp e] shown_Cons [of "verbose c" e es] by (simp add: stderr_of_def)
qed

lemma log_line_ends: "x \<in> set (log_Printf stamp l s) \<Longrightarrow> x \<noteq> [] \<and> last x = CHR 0x0A"
  by (auto simp: log_Printf_def split: writer.splits if_splits)

end
