(* ===== verification/Version.thy ===== *)
theory Version
  imports Glob
begin

text \<open>
  The version string: \<^verbatim>\<open>pkg/version/version.go\<close>. The build information is an argument: None if the binary has none, else the list of its
  settings. \<^verbatim>\<open>time.Parse\<close> with the layout RFC 3339 first takes the fast path of the standard library, which is modelled; what it falls
  back to, the parser for any layout, is the argument \<open>lenient\<close>.
\<close>

subsection \<open>Runes of a string\<close>

text \<open>
  The conversion of a string to runes, each kept as its UTF-8 encoding. An invalid byte becomes U+FFFD, so that joining the list is the
  conversion back.
\<close>

definition RuneError_bytes :: string where
  "RuneError_bytes = [CHR 0xEF, CHR 0xBF, CHR 0xBD]"

function to_runes :: "string \<Rightarrow> string list" where
  "to_runes s =
     (if s = [] then []
      else (let (r, n) = DecodeRune s in (if r = RuneError \<and> n = 1 then RuneError_bytes else take n s) # to_runes (drop n s)))"
  by pat_completeness auto

termination to_runes
proof (relation "measure length")
  fix s :: string and p r n
  assume "s \<noteq> []" "p = DecodeRune s" "(r, n) = p"
  then show "(drop n s, s) \<in> measure length"
    using DecodeRune_width [of s] by (cases "DecodeRune s") simp
qed simp

declare to_runes.simps [simp del]

lemma to_runes_ascii:
  "list_all (\<lambda>c. byte_of c < 0x80) s \<Longrightarrow> to_runes s = map (\<lambda>c. [c]) s"
proof (induction s)
  case Nil
  show ?case by (simp add: to_runes.simps)
next
  case (Cons c s)
  then have "DecodeRune (c # s) = (byte_of c, 1)" "byte_of c \<noteq> RuneError"
    by (simp_all add: DecodeRune_def Let_def RuneError_def)
  with Cons show ?case by (simp add: to_runes.simps [of "c # s"])
qed

lemma to_runes_Nil_iff: "to_runes s = [] \<longleftrightarrow> s = []"
  by (simp add: to_runes.simps [of s] split: prod.split)

subsection \<open>\<^verbatim>\<open>time.Parse(time.RFC3339, s)\<close>\<close>

text \<open>The fields of a time in the zone it was written in: the ones the version uses.\<close>

record civil =
  Year :: nat
  Month :: nat
  Day :: nat
  Hour :: nat
  Minute :: nat
  Second :: nat

definition isLeap :: "nat \<Rightarrow> bool" where
  "isLeap year \<longleftrightarrow> year mod 4 = 0 \<and> (year mod 100 \<noteq> 0 \<or> year mod 400 = 0)"

definition daysIn :: "nat \<Rightarrow> nat \<Rightarrow> nat" where
  "daysIn m year = (if m = 2 then (if isLeap year then 29 else 28) else if m \<in> {4, 6, 9, 11} then 30 else 31)"

definition slice_str :: "nat \<Rightarrow> nat \<Rightarrow> string \<Rightarrow> string" where
  "slice_str lo hi s = take (hi - lo) (drop lo s)"

definition parseUint :: "string \<Rightarrow> nat \<Rightarrow> nat \<Rightarrow> nat option" where
  "parseUint s lo hi =
     (case dec_value 0 s of None \<Rightarrow> None | Some x \<Rightarrow> if x < lo \<or> hi < x then None else Some x)"

definition is_digit :: "char \<Rightarrow> bool" where
  "is_digit c \<longleftrightarrow> digit_val c \<noteq> None"

text \<open>The zone after the seconds, once a fraction is skipped.\<close>

definition zone_ok :: "string \<Rightarrow> bool" where
  "zone_ok s \<longleftrightarrow>
     s = ''Z'' \<or>
     length s = 6 \<and> parseUint (slice_str 1 3 s) 0 23 \<noteq> None \<and> parseUint (slice_str 4 6 s) 0 59 \<noteq> None \<and>
     (s ! 0 = CHR ''-'' \<or> s ! 0 = CHR ''+'') \<and> s ! 3 = CHR '':''"

definition skip_fraction :: "string \<Rightarrow> string" where
  "skip_fraction s =
     (if 2 \<le> length s \<and> s ! 0 = CHR ''.'' \<and> is_digit (s ! 1) then dropWhile is_digit (tl s) else s)"

definition parseRFC3339 :: "string \<Rightarrow> civil option" where
  "parseRFC3339 s =
     (if length s < 19 then None
      else case (parseUint (slice_str 0 4 s) 0 9999, parseUint (slice_str 5 7 s) 1 12) of
        (Some y, Some m) \<Rightarrow>
          (case (parseUint (slice_str 8 10 s) 1 (daysIn m y), parseUint (slice_str 11 13 s) 0 23,
                 parseUint (slice_str 14 16 s) 0 59, parseUint (slice_str 17 19 s) 0 59) of
             (Some d, Some hh, Some mm, Some ss) \<Rightarrow>
               (if s ! 4 = CHR ''-'' \<and> s ! 7 = CHR ''-'' \<and> s ! 10 = CHR ''T'' \<and> s ! 13 = CHR '':'' \<and> s ! 16 = CHR '':'' \<and>
                   zone_ok (skip_fraction (drop 19 s))
                then Some \<lparr>Year = y, Month = m, Day = d, Hour = hh, Minute = mm, Second = ss\<rparr> else None)
           | _ \<Rightarrow> None)
      | _ \<Rightarrow> None)"

definition time_Parse :: "(string \<Rightarrow> civil option) \<Rightarrow> string \<Rightarrow> civil option" where
  "time_Parse lenient s = (case parseRFC3339 s of Some t \<Rightarrow> Some t | None \<Rightarrow> lenient s)"

subsection \<open>\<^verbatim>\<open>VCS\<close>\<close>

definition baseVersion :: string where "baseVersion = ''0.0.0''"
definition revPrefix :: string where "revPrefix = ''r''"

record vcs_info =
  vcsRevision :: "string list"
  vcsModified :: string
  vcsTime :: string

text \<open>The loop over the settings; a later setting of a key replaces an earlier one.\<close>

fun vcs_setting :: "vcs_info \<Rightarrow> string \<times> string \<Rightarrow> vcs_info" where
  "vcs_setting v (key, value) =
     (if key = ''vcs.revision'' then v\<lparr>vcsRevision := to_runes value\<rparr>
      else if key = ''vcs.modified'' then v\<lparr>vcsModified := value\<rparr>
      else if key = ''vcs.time'' then v\<lparr>vcsTime := value\<rparr>
      else v)"

definition vcs_settings :: "(string \<times> string) list \<Rightarrow> vcs_info" where
  "vcs_settings settings = foldl vcs_setting \<lparr>vcsRevision = [], vcsModified = [], vcsTime = []\<rparr> settings"

text \<open>No letter outside ASCII folds to a letter of \<open>true\<close>, so folding the ASCII letters decides the comparison.\<close>

definition VCS :: "(string \<Rightarrow> civil option) \<Rightarrow> (string \<times> string) list option \<Rightarrow> u8 \<Rightarrow> string" where
  "VCS lenient buildInfo abbRevisionNum =
     (case buildInfo of
        None \<Rightarrow> baseVersion @ ''-unknown''
      | Some settings \<Rightarrow>
          (let v = vcs_settings settings in
           if vcsRevision v = [] \<or> vcsTime v = [] then baseVersion @ ''-unknown''
           else if ToLower (vcsModified v) = ''true'' then baseVersion @ ''-dirty''
           else case time_Parse lenient (vcsTime v) of
             None \<Rightarrow> baseVersion @ ''-unknown''
           | Some t \<Rightarrow>
               (if abbRevisionNum = 0 then baseVersion @ ''-unknown''
                else
                  (let abbRevision =
                         (if length (vcsRevision v) \<le> unat abbRevisionNum then concat (vcsRevision v)
                          else concat (take (unat abbRevisionNum) (vcsRevision v)));
                       secondsSinceMidnight = Hour t * 3600 + Minute t * 60 + Second t
                   in FormatUint (Year t mod 100) @ ''.'' @ FormatUint (Month t) @ ''.'' @ FormatUint (Day t) @ ''-'' @
                      FormatUint secondsSinceMidnight @ ''.'' @ revPrefix @ abbRevision))))"

subsection \<open>Properties\<close>

definition civil_ok :: "civil \<Rightarrow> bool" where
  "civil_ok t \<longleftrightarrow>
     Year t \<le> 9999 \<and> 1 \<le> Month t \<and> Month t \<le> 12 \<and> 1 \<le> Day t \<and> Day t \<le> daysIn (Month t) (Year t) \<and>
     Hour t \<le> 23 \<and> Minute t \<le> 59 \<and> Second t \<le> 59"

lemma parseUint_range: "parseUint s lo hi = Some x \<Longrightarrow> lo \<le> x \<and> x \<le> hi"
  by (auto simp: parseUint_def split: option.splits if_splits)

lemma parseRFC3339_ok: "parseRFC3339 s = Some t \<Longrightarrow> civil_ok t"
  by (auto simp: parseRFC3339_def civil_ok_def split: if_splits option.splits dest!: parseUint_range)

lemma seconds_of_day: "civil_ok t \<Longrightarrow> Hour t * 3600 + Minute t * 60 + Second t < 86400"
  by (simp add: civil_ok_def)

text \<open>The abbreviation of the revision never exceeds the number of characters asked for.\<close>

lemma abbreviation_take: "(if length xs \<le> n then concat xs else concat (take n xs)) = concat (take n xs)"
  by simp

text \<open>The last setting of the revision is the one used, whatever the other settings are.\<close>

lemma foldl_vcs_setting_revision:
  "vcsRevision (foldl vcs_setting v settings) =
   (case map_of (rev settings) ''vcs.revision'' of None \<Rightarrow> vcsRevision v | Some r \<Rightarrow> to_runes r)"
  by (induction settings rule: rev_induct) (auto split: option.split)

lemma foldl_vcs_setting_modified:
  "vcsModified (foldl vcs_setting v settings) =
   (case map_of (rev settings) ''vcs.modified'' of None \<Rightarrow> vcsModified v | Some r \<Rightarrow> r)"
  by (induction settings rule: rev_induct) (auto split: option.split)

lemma foldl_vcs_setting_time:
  "vcsTime (foldl vcs_setting v settings) = (case map_of (rev settings) ''vcs.time'' of None \<Rightarrow> vcsTime v | Some r \<Rightarrow> r)"
  by (induction settings rule: rev_induct) (auto split: option.split)

lemmas vcs_settings_last = foldl_vcs_setting_revision foldl_vcs_setting_modified foldl_vcs_setting_time

definition setting :: "(string \<times> string) list \<Rightarrow> string \<Rightarrow> string" where
  "setting settings key = (case map_of (rev settings) key of None \<Rightarrow> [] | Some v \<Rightarrow> v)"

lemma vcs_settings_setting:
  "vcsRevision (vcs_settings settings) = to_runes (setting settings ''vcs.revision'')"
  "vcsModified (vcs_settings settings) = setting settings ''vcs.modified''"
  "vcsTime (vcs_settings settings) = setting settings ''vcs.time''"
  by (simp_all add: vcs_settings_def vcs_settings_last setting_def to_runes.simps [of "[]"] split: option.split)

text \<open>
  A clean build at a time \<open>t\<close> with a revision of ASCII characters: the version is the date, the second of the day and the first
  characters of the revision.
\<close>

lemma VCS_clean:
  assumes "setting settings ''vcs.revision'' = rv" "rv \<noteq> []" "list_all (\<lambda>c. byte_of c < 0x80) rv"
    and "ToLower (setting settings ''vcs.modified'') \<noteq> ''true''"
    and "parseRFC3339 (setting settings ''vcs.time'') = Some t" "setting settings ''vcs.time'' \<noteq> []" "n \<noteq> 0"
  shows "VCS lenient (Some settings) n =
     FormatUint (Year t mod 100) @ ''.'' @ FormatUint (Month t) @ ''.'' @ FormatUint (Day t) @ ''-'' @
     FormatUint (Hour t * 3600 + Minute t * 60 + Second t) @ ''.r'' @ take (unat n) rv"
proof -
  have "concat (take k (map (\<lambda>c. [c]) rv)) = take k rv" for k
    by (simp add: take_map concat_map_singleton)
  with assms show ?thesis
    by (simp add: VCS_def Let_def abbreviation_take vcs_settings_setting to_runes_ascii time_Parse_def revPrefix_def
        del: FormatUint.simps)
qed

end
