(* ===== verification/Debug_Server.thy ===== *)
theory Debug_Server
  imports Go_Strings Net_Host
begin

text \<open>
  The debug server: \<^verbatim>\<open>pkg/debug/debug.go\<close>. What the HTTP package keeps for the process is the list of routes of the default mux; a second
  registration of a route panics, which is None here. The listener, the run of the server and its graceful stop are arguments.
\<close>

definition ServerReadHeaderTimeout :: int where "ServerReadHeaderTimeout = 5 * 1000000000"
definition ServerShutdownTimeout :: int where "ServerShutdownTimeout = 5 * 1000000000"

subsection \<open>\<^verbatim>\<open>Serve\<close> and \<^verbatim>\<open>Shutdown\<close>\<close>

record http_Server =
  srv_Addr :: string
  srv_ReadHeaderTimeout :: int

text \<open>\<open>registerMetrics\<close> is the state of the once: whether its function was called.\<close>

record debug_state =
  registerMetrics :: bool
  DefaultServeMux :: "string list"

definition HandleFunc :: "string \<Rightarrow> string list \<Rightarrow> string list option" where
  "HandleFunc pattern mux = (if pattern \<in> set mux then None else Some (mux @ [pattern]))"

definition register_once :: "debug_state \<Rightarrow> debug_state option" where
  "register_once s =
     (if registerMetrics s then Some s
      else map_option (\<lambda>mux. s\<lparr>registerMetrics := True, DefaultServeMux := mux\<rparr>)
             (HandleFunc ''/debug/metrics'' (DefaultServeMux s)))"

definition Serve ::
  "(string \<Rightarrow> string option) \<Rightarrow> string \<Rightarrow> debug_state \<Rightarrow> (http_Server option \<times> debug_state \<times> effect list) option" where
  "Serve Listen addr s =
     (if addr = [] then Some (None, s, [])
      else case register_once s of
        None \<Rightarrow> None
      | Some s1 \<Rightarrow>
          (case Listen addr of
             None \<Rightarrow> Some (None, s1, [Logf Error ''Failed to start `/debug` web server: %s''])
           | Some bound \<Rightarrow> Some (Some \<lparr>srv_Addr = bound, srv_ReadHeaderTimeout = ServerReadHeaderTimeout\<rparr>, s1, [])))"

text \<open>The background goroutine, once the server returned: with no error, closed, or with another error.\<close>

datatype serve_error = ErrServerClosed | ServeError

definition server_returned :: "serve_error option \<Rightarrow> effect list" where
  "server_returned err =
     (if err \<noteq> None \<and> err \<noteq> Some ErrServerClosed then [Logf Error ''`/debug` web server stopped: %s''] else [])"

definition debug_Shutdown :: "(http_Server \<Rightarrow> int \<Rightarrow> bool) \<Rightarrow> http_Server option \<Rightarrow> effect list" where
  "debug_Shutdown Shutdown_ok server =
     (case server of
        None \<Rightarrow> []
      | Some srv \<Rightarrow>
          (if \<not> Shutdown_ok srv ServerShutdownTimeout then [Logf Warn ''Error shutting down `/debug` web server: %s''] else []))"

subsection \<open>\<^verbatim>\<open>RuntimeMetricsHandler\<close>\<close>

text \<open>
  A metric value by kind; \<open>OtherKind\<close> is a kind this code does not know. A float carries its text in the format of \<^verbatim>\<open>%f\<close>, and of a
  histogram only the number of its buckets is printed.
\<close>

datatype metric_value = KindBad | KindUint64 nat | KindFloat64 string | KindFloat64Histogram "string list" | OtherKind nat

record metric_desc =
  desc_Name :: string
  desc_Description :: string

definition metric_line :: "metric_desc \<Rightarrow> metric_value \<Rightarrow> string" where
  "metric_line d v =
     desc_Name d @
     (case v of
        KindUint64 n \<Rightarrow> '' '' @ FormatUint n
      | KindFloat64 text \<Rightarrow> '' '' @ text
      | KindFloat64Histogram buckets \<Rightarrow> '' histogram buckets='' @ FormatUint (length buckets)
      | KindBad \<Rightarrow> '' unsupported ('' @ desc_Description d @ '')''
      | OtherKind k \<Rightarrow> '' unsupported (unknown kind '' @ FormatUint k @ '')'') @ [CHR 0x0A]"

text \<open>\<open>metrics_Read\<close> fills the value of every sample from its name; a name the runtime does not know has the bad kind.\<close>

definition RuntimeMetricsHandler :: "metric_desc list \<Rightarrow> (string \<Rightarrow> metric_value) \<Rightarrow> (string \<times> string) list \<times> string" where
  "RuntimeMetricsHandler descs metrics_Read =
     (let samples = map (\<lambda>d. (desc_Name d, metrics_Read (desc_Name d))) descs in
      ([(''Content-Type'', ''text/plain; charset=utf-8'')],
       concat (map (\<lambda>(d, s). metric_line d (snd s)) (zip descs samples))))"

subsection \<open>Properties\<close>

text \<open>
  The route of the metrics is in the mux exactly when the once ran. With that, no call of \<^verbatim>\<open>Serve\<close> panics, however many there are and
  whether or not their listeners could be opened.
\<close>

definition debug_inv :: "debug_state \<Rightarrow> bool" where
  "debug_inv s \<longleftrightarrow> (''/debug/metrics'' \<in> set (DefaultServeMux s) \<longleftrightarrow> registerMetrics s) \<and> distinct (DefaultServeMux s)"

fun serve_all :: "((string \<Rightarrow> string option) \<times> string) list \<Rightarrow> debug_state \<Rightarrow> debug_state option" where
  "serve_all [] s = Some s"
| "serve_all ((Listen, addr) # calls) s =
     (case Serve Listen addr s of None \<Rightarrow> None | Some (_, s1, _) \<Rightarrow> serve_all calls s1)"

lemma register_once_inv:
  assumes "debug_inv s"
  obtains s1 where "register_once s = Some s1" "debug_inv s1" "registerMetrics s1"
  using assms by (cases "registerMetrics s") (auto simp: register_once_def HandleFunc_def debug_inv_def)

lemma Serve_inv:
  assumes "debug_inv s"
  shows "\<exists>r s1 es. Serve Listen addr s = Some (r, s1, es) \<and> debug_inv s1 \<and> (r \<noteq> None \<longrightarrow> registerMetrics s1)"
proof -
  obtain s1 where "register_once s = Some s1" "debug_inv s1" "registerMetrics s1"
    using register_once_inv [OF assms] .
  with assms show ?thesis
    by (cases "addr = []"; cases "Listen addr") (simp_all add: Serve_def)
qed

lemma serve_all_total: "debug_inv s \<Longrightarrow> \<exists>s1. serve_all calls s = Some s1 \<and> debug_inv s1"
proof (induction calls arbitrary: s)
  case (Cons c calls)
  obtain Listen addr where c: "c = (Listen, addr)" by fastforce
  obtain r s1 es where "Serve Listen addr s = Some (r, s1, es)" "debug_inv s1"
    using Serve_inv [OF Cons.prems] by blast
  with Cons.IH c show ?case by simp
qed simp

text \<open>The handler writes one line for every metric, in the order of the descriptions.\<close>

lemma RuntimeMetricsHandler_lines:
  "snd (RuntimeMetricsHandler descs read) = concat (map (\<lambda>d. metric_line d (read (desc_Name d))) descs)"
proof -
  have "map (\<lambda>(d, s). metric_line d (snd s)) (zip ds (map (\<lambda>d. (desc_Name d, read (desc_Name d))) ds)) =
        map (\<lambda>d. metric_line d (read (desc_Name d))) ds" for ds
    by (induction ds) simp_all
  then show ?thesis by (simp add: RuntimeMetricsHandler_def Let_def)
qed

end
