(* ===== verification/Relay_Main.thy ===== *)
theory Relay_Main
  imports Handle Relay Linkmap Validate Logger Version Debug_Server
begin

text \<open>
  The program: \<^verbatim>\<open>main.go\<close>. The flags are those of the command line after parsing. \<open>main_start\<close> is the start up to the receive loop,
  \<open>handlePacket\<close> takes one frame up to the start of its handler, and a step relation runs the loop, the handlers, the
  reloads, the signals and the drain in any order. A handler is one step of it; what it shares with others, the interface
  cache, has its own interleaving in the theory of the cache. Log lines of the start are left out.
\<close>

type_synonym u64 = "64 word"

subsection \<open>Flags\<close>

record flags =
  flagUpstreamDHCPServerAddr :: string
  flagMACPolicy :: string
  flagMACPolicyInterval :: int
  flagLinkMap :: string
  flagLinkMapInterval :: int
  flagGiaddr :: string
  flagReplyTTL :: u64
  flagMTU :: u64
  flagVerifyChecksums :: bool
  flagBroadcastReplyL2Unicast :: bool
  flagReplyNICCacheTTL :: int
  flagMaxHandlers :: u64
  flagMaxHops :: u64
  flagVersion :: bool
  flagDebug :: bool
  flagDebugServerAddr :: string
  flagLogWithoutDatetime :: bool

definition dhcpLayerChainDepth :: nat where "dhcpLayerChainDepth = 4"
definition DefaultMaxHandlers :: nat where "DefaultMaxHandlers = 65535"
definition shutdownGracePeriod :: int where "shutdownGracePeriod = 5 * 1000000000"

definition default_flags :: flags where
  "default_flags =
     \<lparr>flagUpstreamDHCPServerAddr = [], flagMACPolicy = [], flagMACPolicyInterval = DefaultPollInterval, flagLinkMap = [],
      flagLinkMapInterval = DefaultPollInterval, flagGiaddr = [], flagReplyTTL = 1, flagMTU = of_nat EthernetCommonMTU,
      flagVerifyChecksums = False, flagBroadcastReplyL2Unicast = False, flagReplyNICCacheTTL = DefaultInterfaceCacheTTL,
      flagMaxHandlers = of_nat DefaultMaxHandlers, flagMaxHops = of_nat DHCPv4MaxHops, flagVersion = False,
      flagDebug = False, flagDebugServerAddr = ''localhost:8080'', flagLogWithoutDatetime = False\<rparr>"

text \<open>
  The logger of the run, and the debug server: it starts with the debug log only. The version flag ends the program before either
  is set up.
\<close>

definition main_logger :: "flags \<Rightarrow> log_Config" where
  "main_logger f =
     (let cl = (if flagLogWithoutDatetime f then NewWithoutDatetime else NewWithDatetime) in
      if flagVersion f then cl else if flagDebug f then EnableVerbose cl else DisableVerbose cl)"

definition main_debug_server ::
  "(string \<Rightarrow> string option) \<Rightarrow> flags \<Rightarrow> debug_state \<Rightarrow> (http_Server option \<times> debug_state \<times> effect list) option" where
  "main_debug_server Listen f s =
     (if \<not> flagVersion f \<and> flagDebug f then Serve Listen (flagDebugServerAddr f) s else Some (None, s, []))"

datatype flag_error = NoUpstream | BadReplyTTL | BadMTU | BadMaxHandlers | BadMaxHops | BadGiaddr string

definition MaxUint8 :: u64 where "MaxUint8 = 255"
definition MaxUint16 :: u64 where "MaxUint16 = 65535"
definition MaxInt32 :: u64 where "MaxInt32 = 2147483647"

text \<open>The checks of the flag values; the result is the giaddr override. Each failure ends the program.\<close>

definition check_flags :: "flags \<Rightarrow> flag_error + ip" where
  "check_flags f =
     (if flagUpstreamDHCPServerAddr f = [] then Inl NoUpstream
      else if flagReplyTTL f < 1 \<or> flagReplyTTL f > MaxUint8 then Inl BadReplyTTL
      else if flagMTU f < of_nat DHCPv4MinMessageSize \<or> flagMTU f > MaxUint16 then Inl BadMTU
      else if flagMaxHandlers f < 1 \<or> flagMaxHandlers f > MaxInt32 then Inl BadMaxHandlers
      else if flagMaxHops f < 1 \<or> flagMaxHops f > MaxUint8 then Inl BadMaxHops
      else if flagGiaddr f \<noteq> [] then
        (let giaddr = To4 (ParseIP (flagGiaddr f)) in
         if \<not> IsGlobalUnicastIPv4 giaddr then Inl (BadGiaddr (flagGiaddr f)) else Inr giaddr)
      else Inr None)"

definition relay_options :: "flags \<Rightarrow> ip \<Rightarrow> link_map option \<Rightarrow> InterfaceCache option \<Rightarrow> HandleOptions" where
  "relay_options f giaddr links cache =
     \<lparr>ReplyInterfaceCache = cache, LinkMap = map_option link_Map_Lookup links,
      DHCPServerAddress = flagUpstreamDHCPServerAddr f, Giaddr = giaddr, MaxHops = ucast (flagMaxHops f),
      BroadcastReplyL2Unicast = flagBroadcastReplyL2Unicast f, ReplyTTL = ucast (flagReplyTTL f)\<rparr>"

definition validate_options :: "flags \<Rightarrow> ValidateOptions" where
  "validate_options f = \<lparr>MTU = ucast (flagMTU f), VerifyChecksums = flagVerifyChecksums f\<rparr>"

subsection \<open>Start\<close>

text \<open>What the operating system answers during the start. The connection of the UDP listener has no content here.\<close>

record startup_env =
  start_kernel :: kernel
  start_Abs :: "string \<Rightarrow> string option"
  start_policy_io :: "policy_env file_io"
  start_link_io :: "unit file_io"
  ListenPacket :: "(errno + int \<Rightarrow> errno option \<times> nat list) \<Rightarrow> string \<Rightarrow> string \<Rightarrow> unit option"
  SetBPF_ok :: bool

datatype start_error =
    BadFlags flag_error | PolicyLoad "policy_error watch_error" | LinkLoad "link_error watch_error"
  | CreateFailed raw_error | AttachFailed raw_error | BindFailed listen_error | UDPFilterFailed

record serving =
  srv_giaddr :: ip
  srv_policy :: "policy_map option"
  srv_links :: "link_map option"
  srv_raw :: Raw

text \<open>
  \<open>Fatal\<close> ends the process at once. \<open>Stopped\<close> returns from \<^verbatim>\<open>main\<close>, so the deferred calls run: the raw socket and the watchers
  are closed.
\<close>

datatype start_result =
    VersionPrinted | Fatal start_error | Stopped start_error "policy_map option" "link_map option" | Serving serving

definition load_policy :: "flags \<Rightarrow> startup_env \<Rightarrow> policy_error watch_error + policy_map option" where
  "load_policy f env =
     (if flagMACPolicy f \<noteq> [] then
        (case fst (policy_New (flagMACPolicy f) (flagMACPolicyInterval f) (Some ()) (start_Abs env) (start_policy_io env)) of
           Inl err \<Rightarrow> Inl err
         | Inr m \<Rightarrow> Inr (Some m))
      else Inr None)"

definition load_links :: "flags \<Rightarrow> startup_env \<Rightarrow> link_error watch_error + link_map option" where
  "load_links f env =
     (if flagLinkMap f \<noteq> [] then
        (case fst (link_New (flagLinkMap f) (flagLinkMapInterval f) (Some ()) (start_Abs env) (start_link_io env)) of
           Inl err \<Rightarrow> Inl err
         | Inr lm \<Rightarrow> Inr (Some lm))
      else Inr None)"

definition open_sockets :: "flags \<Rightarrow> startup_env \<Rightarrow> start_result \<times> Raw \<times> effect list" where
  "open_sockets f env =
     (let k = start_kernel env in
      case raw_Create k (Htons (little_endian k) ETH_P_IP) new_Raw of
        (Some err, rs, es) \<Rightarrow> (Fatal (CreateFailed err), rs, es)
      | (None, rs, es) \<Rightarrow>
          (let stop = (\<lambda>err es'. (Stopped err None None, rs, es @ es' @ snd (snd (raw_Close k rs)))) in
           case raw_AttachBPF k rs (GetBPFSockFilterForDHCPv4Messages (ucast (flagMTU f))) of
             (Some err, es1) \<Rightarrow> stop (AttachFailed err) es1
           | (None, es1) \<Rightarrow>
               (case ListenPacketConn4 k (ListenPacket env) ''udp4'' IPv4zero (of_nat DHCPv4ServerPort) of
                  Inl err \<Rightarrow> stop (BindFailed err) es1
                | Inr conn \<Rightarrow>
                    (if \<not> SetBPF_ok env then stop UDPFilterFailed es1
                     else (Serving \<lparr>srv_giaddr = None, srv_policy = None, srv_links = None, srv_raw = rs\<rparr>, rs, es @ es1)))))"

definition main_start :: "flags \<Rightarrow> startup_env \<Rightarrow> start_result \<times> effect list" where
  "main_start f env =
     (if flagVersion f then (VersionPrinted, [])
      else case check_flags f of
        Inl err \<Rightarrow> (Fatal (BadFlags err), [])
      | Inr giaddr \<Rightarrow>
          (case load_policy f env of
             Inl err \<Rightarrow> (Fatal (PolicyLoad err), [])
           | Inr policy \<Rightarrow>
               (case load_links f env of
                  Inl err \<Rightarrow> (Fatal (LinkLoad err), [])
                | Inr links \<Rightarrow>
                    (case open_sockets f env of
                       (Stopped err _ _, rs, es) \<Rightarrow>
                         (Stopped err (map_option Map_Close policy) (map_option link_Map_Close links), es)
                     | (Serving _, rs, es) \<Rightarrow>
                         (Serving \<lparr>srv_giaddr = giaddr, srv_policy = policy, srv_links = links, srv_raw = rs\<rparr>, es)
                     | (r, rs, es) \<Rightarrow> (r, es)))))"

subsection \<open>One frame\<close>

text \<open>
  The result of the decoding parser of the packet library: the types of the layers it decoded, in order, and the four structures it
  decodes into.
\<close>

datatype layer_type = TypeEthernet | TypeIPv4 | TypeUDP | TypeDHCPv4 | TypeOther

record decoded =
  dec_types :: "layer_type list"
  dec_Ethernet :: ethernet
  dec_IPv4 :: ipv4
  dec_UDP :: udp
  dec_DHCPv4 :: dhcpv4

record job =
  job_dec :: "Decision option"
  job_ifindex :: int
  job_layer :: dhcpv4

definition packet_job ::
  "gopacket \<Rightarrow> (bytes \<Rightarrow> decoded option) \<Rightarrow> flags \<Rightarrow> policy_map option \<Rightarrow> int \<Rightarrow> bytes \<Rightarrow> job option \<times> effect list" where
  "packet_job gp DecodeLayers f policy ifIndex data =
     (if ifIndex < 1 then (None, [Logf Debug ''Invalid IfIndex value: %d''])
      else case DecodeLayers data of
        None \<Rightarrow> (None, [Logf Debug ''Packet decode error: %s''])
      | Some p \<Rightarrow>
          (if length (dec_types p) \<noteq> dhcpLayerChainDepth \<or> last (dec_types p) \<noteq> TypeDHCPv4
           then (None, [Logf Debug ''Incomplete DHCPv4 layer chain: %v''])
           else if ValidateLayers gp (validate_options f) (Some (dec_Ethernet p)) (Some (dec_IPv4 p)) (Some (dec_UDP p)) (Some (dec_DHCPv4 p)) \<noteq> None
           then (None, [Logf Debug ''Packet validation error: %s''])
           else
             (let layer = (dec_DHCPv4 p)\<lparr>Options := DeleteSplitOptions (Options (dec_DHCPv4 p))\<rparr> in
              case policy of
                None \<Rightarrow> (Some \<lparr>job_dec = None, job_ifindex = ifIndex, job_layer = layer\<rparr>, [])
              | Some m \<Rightarrow>
                  (case PolicyForPacket m layer of
                     (d, True) \<Rightarrow> (None, [Logf Debug ''Dropping DHCPv4 message: client %s (blackhole)''])
                   | (d, False) \<Rightarrow> (Some \<lparr>job_dec = d, job_ifindex = ifIndex, job_layer = layer\<rparr>, [])))))"

text \<open>The handlers that run hold one slot of the semaphore each; \<open>cap\<close> is its size.\<close>

definition handlePacket ::
  "gopacket \<Rightarrow> (bytes \<Rightarrow> decoded option) \<Rightarrow> flags \<Rightarrow> policy_map option \<Rightarrow> nat \<Rightarrow> job list \<Rightarrow> int \<Rightarrow> bytes \<Rightarrow>
   job list \<times> effect list" where
  "handlePacket gp DecodeLayers f policy cap handlers ifIndex data =
     (case packet_job gp DecodeLayers f policy ifIndex data of
        (None, es) \<Rightarrow> (handlers, es)
      | (Some j, es) \<Rightarrow>
          (if length handlers < cap then (handlers @ [j], es)
           else (handlers, es @ [Logf Warn ''Dropping DHCPv4 message from client %s handler pool full''])))"

subsection \<open>The loop\<close>

datatype drainResult = drainCompleted | drainForced | drainTimedOut

text \<open>
  \<^verbatim>\<open>waitForHandlers\<close> selects among three channels: the wait group reached zero, a second signal came, the grace period expired. It may
  take any that is ready.
\<close>

definition waitForHandlers :: "bool \<Rightarrow> bool \<Rightarrow> bool \<Rightarrow> drainResult \<Rightarrow> bool" where
  "waitForHandlers waitDone forceQuit expired r =
     (case r of drainCompleted \<Rightarrow> waitDone | drainForced \<Rightarrow> forceQuit | drainTimedOut \<Rightarrow> expired)"

fun drain_log :: "drainResult \<Rightarrow> effect list" where
  "drain_log drainForced = [Logf Warn ''Second shutdown signal received, exiting with handler(s) in flight'']"
| "drain_log drainTimedOut = [Logf Warn ''Shutdown grace period expired, handler(s) still in flight'']"
| "drain_log drainCompleted = []"

datatype phase = Receiving | Draining | Exited drainResult

text \<open>
  \<open>cancelled\<close> is the state of the signal context. The wait group counts the handlers that run, so the drain completes when there is
  none.
\<close>

record relay_state =
  rs_policy :: "policy_map option"
  rs_links :: "link_map option"
  rs_cache :: "InterfaceCache option"
  handlers :: "job list"
  cancelled :: bool
  phase :: phase
  out :: "effect list"

datatype relay_event = Frame int bytes | ReadError | Signal | Reloaded | Handled nat | Shutdown | Drain drainResult

text \<open>
  The steps: a frame or a read error in the loop, a signal, a reload of either file, the run of the \<open>n\<close>-th handler under
  the answers of some host, the read error that ends the loop after a signal, and the end of the drain.
\<close>

inductive relay_step ::
  "gopacket \<Rightarrow> (bytes \<Rightarrow> decoded option) \<Rightarrow> option_sort \<Rightarrow> flags \<Rightarrow> ip \<Rightarrow> relay_state \<Rightarrow> relay_event \<Rightarrow> relay_state \<Rightarrow> bool"
  for gp DecodeLayers SortFunc f giaddr where
  frame: "phase s = Receiving \<Longrightarrow>
    handlePacket gp DecodeLayers f (rs_policy s) (unat (flagMaxHandlers f)) (handlers s) i data = (js, es) \<Longrightarrow>
    relay_step gp DecodeLayers SortFunc f giaddr s (Frame i data)
      (s\<lparr>handlers := js, out := out s @ [Logf Debug ''Received %d bytes of data from socket''] @ es\<rparr>)"
| read_error: "phase s = Receiving \<Longrightarrow> \<not> cancelled s \<Longrightarrow>
    relay_step gp DecodeLayers SortFunc f giaddr s ReadError (s\<lparr>out := out s @ [Logf Error ''Error reading from socket: %v'']\<rparr>)"
| signal: "phase s = Receiving \<or> phase s = Draining \<Longrightarrow> relay_step gp DecodeLayers SortFunc f giaddr s Signal (s\<lparr>cancelled := True\<rparr>)"
| reloaded: "phase s = Receiving \<or> phase s = Draining \<Longrightarrow>
    relay_step gp DecodeLayers SortFunc f giaddr s Reloaded (s\<lparr>rs_policy := policy, rs_links := links\<rparr>)"
| handled: "phase s = Receiving \<or> phase s = Draining \<Longrightarrow> n < length (handlers s) \<Longrightarrow> j = handlers s ! n \<Longrightarrow>
    Handle gp SortFunc h (relay_options f giaddr (rs_links s) (rs_cache s)) (job_dec j) (job_ifindex j) (job_layer j) = Some (l, c, es) \<Longrightarrow>
    relay_step gp DecodeLayers SortFunc f giaddr s (Handled n)
      (s\<lparr>handlers := take n (handlers s) @ drop (Suc n) (handlers s), rs_cache := c, out := out s @ es\<rparr>)"
| shutdown: "phase s = Receiving \<Longrightarrow> cancelled s \<Longrightarrow>
    relay_step gp DecodeLayers SortFunc f giaddr s Shutdown
      (s\<lparr>phase := Draining, out := out s @ [Logf Info ''Shutdown signal received, exiting.'']\<rparr>)"
| drain: "phase s = Draining \<Longrightarrow> waitForHandlers (handlers s = []) forceQuit expired r \<Longrightarrow>
    relay_step gp DecodeLayers SortFunc f giaddr s (Drain r) (s\<lparr>phase := Exited r, out := out s @ drain_log r\<rparr>)"

inductive relay_run ::
  "gopacket \<Rightarrow> (bytes \<Rightarrow> decoded option) \<Rightarrow> option_sort \<Rightarrow> flags \<Rightarrow> ip \<Rightarrow> relay_state \<Rightarrow> relay_event list \<Rightarrow> relay_state \<Rightarrow> bool"
  for gp DecodeLayers SortFunc f giaddr where
  run_nil: "relay_run gp DecodeLayers SortFunc f giaddr s [] s"
| run_cons: "relay_step gp DecodeLayers SortFunc f giaddr s e s1 \<Longrightarrow> relay_run gp DecodeLayers SortFunc f giaddr s1 es s2 \<Longrightarrow>
    relay_run gp DecodeLayers SortFunc f giaddr s (e # es) s2"

definition relay_init :: "flags \<Rightarrow> serving \<Rightarrow> relay_state" where
  "relay_init f srv =
     \<lparr>rs_policy = srv_policy srv, rs_links = srv_links srv, rs_cache = Some (NewInterfaceCache (flagReplyNICCacheTTL f)),
      handlers = [], cancelled = False, phase = Receiving, out = []\<rparr>"

subsection \<open>Properties\<close>

text \<open>Every information, warning and error of a run is one line on standard error; the debug lines are there with the flag only.\<close>

lemma main_log_lines:
  "length (stderr_of stamp (main_logger f) es) = length (shown (flagDebug f \<and> \<not> flagVersion f) es)"
proof -
  have "config_ok (main_logger f)" "verbose (main_logger f) \<longleftrightarrow> flagDebug f \<and> \<not> flagVersion f"
    by (simp_all add: main_logger_def Let_def)
  with stderr_of_lines [of "main_logger f" stamp es] show ?thesis by simp
qed

text \<open>A packet with a handler: received on a NIC, validated, without split options and not dropped by the policy, if there is one.\<close>

definition job_ok :: "gopacket \<Rightarrow> flags \<Rightarrow> job \<Rightarrow> bool" where
  "job_ok gp f j \<longleftrightarrow>
     1 \<le> job_ifindex j \<and> distinct (map opt_Type (Options (job_layer j))) \<and>
     (\<exists>e i u d. ValidateLayers gp (validate_options f) (Some e) (Some i) (Some u) (Some d) = None \<and>
        job_layer j = d\<lparr>Options := DeleteSplitOptions (Options d)\<rparr>) \<and>
     (job_dec j = None \<or> (\<exists>m. PolicyForPacket m (job_layer j) = (job_dec j, False)))"

definition pool_inv :: "gopacket \<Rightarrow> flags \<Rightarrow> relay_state \<Rightarrow> bool" where
  "pool_inv gp f s \<longleftrightarrow>
     length (handlers s) \<le> unat (flagMaxHandlers f) \<and> list_all (job_ok gp f) (handlers s) \<and>
     (phase s \<noteq> Receiving \<longrightarrow> cancelled s) \<and> (phase s = Exited drainCompleted \<longrightarrow> handlers s = [])"

lemma packet_job_ok:
  assumes "packet_job gp DecodeLayers f policy ifIndex data = (Some j, es)"
  shows "job_ok gp f j"
proof -
  obtain p where p: "DecodeLayers data = Some p" "1 \<le> ifIndex"
    and v: "ValidateLayers gp (validate_options f) (Some (dec_Ethernet p)) (Some (dec_IPv4 p)) (Some (dec_UDP p)) (Some (dec_DHCPv4 p)) = None"
    using assms by (auto simp: packet_job_def split: if_splits option.splits)
  have "job_ifindex j = ifIndex" "job_layer j = (dec_DHCPv4 p)\<lparr>Options := DeleteSplitOptions (Options (dec_DHCPv4 p))\<rparr>"
    "job_dec j = None \<or> (\<exists>m. PolicyForPacket m (job_layer j) = (job_dec j, False))"
    using assms p by (auto simp: packet_job_def Let_def split: if_splits option.splits prod.splits bool.splits)
  with p v show ?thesis by (auto simp: job_ok_def DeleteSplitOptions_distinct)
qed

lemma handlePacket_keeps:
  assumes "handlePacket gp DecodeLayers f policy cap hs ifIndex data = (js, es)"
    and "length hs \<le> cap" "list_all (job_ok gp f) hs"
  shows "length js \<le> cap \<and> list_all (job_ok gp f) js"
  using assms packet_job_ok [of gp DecodeLayers f policy ifIndex data]
  by (auto simp: handlePacket_def split: prod.splits option.splits if_splits)

lemma relay_step_inv:
  assumes "relay_step gp DecodeLayers SortFunc f giaddr s e s'" "pool_inv gp f s"
  shows "pool_inv gp f s'"
  using assms
proof cases
  case (frame i data js es)
  with handlePacket_keeps [OF frame(4)] assms(2) show ?thesis by (simp add: pool_inv_def)
next
  case (handled n j h l c es)
  then show ?thesis using assms(2)
    by (auto simp: pool_inv_def list_all_iff dest: in_set_takeD in_set_dropD)
qed (auto simp: pool_inv_def waitForHandlers_def split: drainResult.splits)

lemma relay_run_inv:
  "relay_run gp DecodeLayers SortFunc f giaddr s evs s' \<Longrightarrow> pool_inv gp f s \<Longrightarrow> pool_inv gp f s'"
  by (induction rule: relay_run.induct) (auto intro: relay_step_inv)


lemma drain_one:
  assumes "phase s = Draining" "handlers s = j # js" "answers h"
  obtains c es where "relay_step gp DecodeLayers SortFunc f giaddr s (Handled 0) (s\<lparr>handlers := js, rs_cache := c, out := out s @ es\<rparr>)"
proof -
  have "\<exists>res. handle_reply gp' h' cfg d l = Some res" if "answers h'" for gp' h' cfg d l using that by (rule handle_reply_returns)
  then obtain l c es where "Handle gp SortFunc h (relay_options f giaddr (rs_links s) (rs_cache s)) (job_dec j) (job_ifindex j) (job_layer j) = Some (l, c, es)"
    using assms(3) by (fastforce simp: Handle_def Let_def split: prod.splits)
  from relay_step.handled [where n = 0, OF _ _ _ this] assms(1,2) show thesis by (intro that) fastforce
qed


lemma check_flags_ranges:
  "(\<exists>giaddr. check_flags f = Inr giaddr) \<longleftrightarrow>
     flagUpstreamDHCPServerAddr f \<noteq> [] \<and> unat (flagReplyTTL f) \<in> {1..255} \<and> unat (flagMTU f) \<in> {244..65535} \<and>
     unat (flagMaxHandlers f) \<in> {1..2147483647} \<and> unat (flagMaxHops f) \<in> {1..255} \<and>
     (flagGiaddr f = [] \<or> IsGlobalUnicastIPv4 (To4 (ParseIP (flagGiaddr f))))"
  by (auto simp: check_flags_def Let_def specs_defs MaxUint8_def MaxUint16_def MaxInt32_def word_less_nat_alt
      split: if_splits)

lemma check_flags_giaddr: "check_flags f = Inr giaddr \<Longrightarrow> giaddr = None \<or> IsGlobalUnicastIPv4 giaddr"
  by (auto simp: check_flags_def Let_def split: if_splits)

lemma unat_narrow:
  "unat (w :: u64) < 256 \<Longrightarrow> unat (ucast w :: u8) = unat w"
  "unat (w :: u64) < 65536 \<Longrightarrow> unat (ucast w :: u16) = unat w"
  "unat (w :: u64) < 65536 \<Longrightarrow> unat (ucast w :: u32) = unat w"
  by (simp_all add: unsigned_ucast_eq take_bit_nat_eq_self)

text \<open>C37: The flags are accepted exactly when an upstream is named, the numbers are in their ranges, and the giaddr
  override, if there is one, is a global unicast IPv4 address. Then the conversions to narrower words lose nothing: hop limit, TTL
  and MTU reach the handlers, the validation and the filter with their values, and a giaddr is global unicast.\<close>

theorem check_flags_exact:
  "((\<exists>giaddr. check_flags f = Inr giaddr) \<longleftrightarrow>
     flagUpstreamDHCPServerAddr f \<noteq> [] \<and> unat (flagReplyTTL f) \<in> {1..255} \<and> unat (flagMTU f) \<in> {244..65535} \<and>
     unat (flagMaxHandlers f) \<in> {1..2147483647} \<and> unat (flagMaxHops f) \<in> {1..255} \<and>
     (flagGiaddr f = [] \<or> IsGlobalUnicastIPv4 (To4 (ParseIP (flagGiaddr f))))) \<and>
   (check_flags f = Inr giaddr \<longrightarrow>
     unat (MaxHops (relay_options f giaddr links cache)) = unat (flagMaxHops f) \<and>
     unat (ReplyTTL (relay_options f giaddr links cache)) = unat (flagReplyTTL f) \<and>
     unat (MTU (validate_options f)) = unat (flagMTU f) \<and> unat (ucast (flagMTU f) :: u32) = unat (flagMTU f) \<and>
     (giaddr = None \<or> IsGlobalUnicastIPv4 giaddr))"
  using check_flags_ranges [of f] check_flags_giaddr [of f giaddr] unat_narrow
  by (auto simp: relay_options_def validate_options_def)

definition sample_flags :: flags where
  "sample_flags = default_flags\<lparr>flagUpstreamDHCPServerAddr := ''192.0.2.1'', flagMaxHandlers := 1\<rparr>"

theorem check_flags_exact_witness:
  "check_flags sample_flags = Inr None \<and> unat (MaxHops (relay_options sample_flags None None None)) = 16 \<and>
   unat (MTU (validate_options sample_flags)) = 1500"
proof -
  have "check_flags sample_flags = Inr None"
    by (simp add: check_flags_def sample_flags_def default_flags_def specs_defs MaxUint8_def MaxUint16_def MaxInt32_def word_less_nat_alt)
  with check_flags_exact [of sample_flags None None None] show ?thesis
    by (simp add: sample_flags_def default_flags_def specs_defs)
qed

subsection \<open>The start\<close>

lemma open_sockets_fds:
  assumes "socket_ok (start_kernel env)" "open_sockets f env = (r, rs, es)"
  shows "case r of
      Stopped err p l \<Rightarrow> fds_after fds es = fds
    | Serving _ \<Rightarrow> fds_after fds es = owned_fds rs @ fds \<and>
        (\<exists>file. raw_f rs = Some file \<and> FdFilter (file_fd file) (GetBPFSockFilterForDHCPv4Messages (ucast (flagMTU f))) \<in> set es)
    | Fatal _ \<Rightarrow> fds_after fds es = fds
    | VersionPrinted \<Rightarrow> False"
proof -
  let ?k = "start_kernel env" and ?prog = "GetBPFSockFilterForDHCPv4Messages (ucast (flagMTU f))"
  obtain e0 rs0 es0 where c: "raw_Create ?k (Htons (little_endian ?k) ETH_P_IP) new_Raw = (e0, rs0, es0)" by (metis prod_cases3)
  obtain e1 es1 where a: "raw_AttachBPF ?k rs0 ?prog = (e1, es1)" by force
  obtain e2 rs2 es2 where cl: "raw_Close ?k rs0 = (e2, rs2, es2)" by (metis prod_cases3)
  have es0: "fds_after fds es0 = owned_fds rs0 @ fds" and opened: "e0 = None \<Longrightarrow> \<exists>f. raw_f rs0 = Some f \<and> \<not> file_closed f"
    using raw_Create_fds [OF assms(1) c, of fds] by (simp_all add: owned_fds_def new_Raw_def)
  have es1: "fds_after fs es1 = fs" for fs using raw_quiet(3) [OF a] by blast
  have es2: "fds_after (owned_fds rs0 @ fds) es2 = fds" using raw_Close_fds [OF cl] by blast
  show ?thesis
  proof (cases e0)
    case None
    have "?prog \<noteq> []" by (simp add: filter_program)
    then have "FdFilter (file_fd g) ?prog \<in> set es1" if "e1 = None" "raw_f rs0 = Some g" for g
      using a that by (auto simp: raw_AttachBPF_def Let_def split: option.splits)
    with None assms(2) c a cl es0 es1 es2 opened show ?thesis
      by (auto simp: open_sockets_def Let_def split: option.splits sum.splits if_splits)
  next
    case (Some e)
    with assms(2) c raw_socket.failed_clean [OF assms(1)] show ?thesis by (auto simp: open_sockets_def Let_def)
  qed
qed


definition sample_env :: startup_env where
  "sample_env =
     \<lparr>start_kernel = sample_kernel, start_Abs = Some, start_policy_io = sample_io [] sample_policy_env, start_link_io = sample_io [] (),
      ListenPacket = (\<lambda>_ _ _. Some ()), SetBPF_ok = True\<rparr>"

lemma sample_start:
  "main_start sample_flags sample_env =
     (Serving \<lparr>srv_giaddr = None, srv_policy = None, srv_links = None, srv_raw = \<lparr>raw_f = Some \<lparr>file_fd = 3, file_closed = False\<rparr>\<rparr>\<rparr>,
      [FdOpen 3, FdFilter 3 (GetBPFSockFilterForDHCPv4Messages 1500)])"
proof -
  have flags: "check_flags sample_flags = Inr None" "\<not> flagVersion sample_flags" "load_policy sample_flags e = Inr None"
    "load_links sample_flags e = Inr None" "ucast (flagMTU sample_flags) = (1500 :: u32)" for e
    by (simp_all add: check_flags_def sample_flags_def default_flags_def specs_defs MaxUint8_def MaxUint16_def MaxInt32_def
        word_less_nat_alt load_policy_def load_links_def)
  have "raw_Create sample_kernel p new_Raw = (None, \<lparr>raw_f = Some \<lparr>file_fd = 3, file_closed = False\<rparr>\<rparr>, [FdOpen 3])" for p
    by (simp add: raw_Create_def sample_kernel_def new_Raw_def NewFile_def)
  moreover have "raw_AttachBPF sample_kernel \<lparr>raw_f = Some \<lparr>file_fd = 3, file_closed = False\<rparr>\<rparr> (GetBPFSockFilterForDHCPv4Messages 1500) =
      (None, [FdFilter 3 (GetBPFSockFilterForDHCPv4Messages 1500)])"
    by (simp add: raw_AttachBPF_def raw_control_def sample_kernel_def filter_program)
  moreover have "ListenPacketConn4 sample_kernel (\<lambda>_ _ _. Some ()) n IPv4zero p = Inr ()" for n p
    by (simp add: ListenPacketConn4_def IPv4zero_def IPv4_def To4_def v4InV6Prefix_def)
  ultimately show ?thesis
    by (simp add: main_start_def flags open_sockets_def sample_env_def)
qed


subsection \<open>A sample run\<close>

text \<open>A frame that decodes to a client request.\<close>

definition sample_decoded :: decoded where
  "sample_decoded =
     \<lparr>dec_types = [TypeEthernet, TypeIPv4, TypeUDP, TypeDHCPv4],
      dec_Ethernet = \<lparr>SrcMAC = Some [2, 0, 0, 0, 0, 9], DstMAC = EthernetBroadcast, EthernetType = EthernetTypeIPv4\<rparr>,
      dec_IPv4 = \<lparr>Version = 4, IHL = 5, Id = 0, IPFlags = 0, FragOffset = 0, TTL = 64, Protocol = 17,
        SrcIP = Some [0, 0, 0, 0], DstIP = Some [255, 255, 255, 255]\<rparr>,
      dec_UDP = \<lparr>SrcPort = 68, DstPort = 67\<rparr>, dec_DHCPv4 = sample_dhcpv4\<rparr>"

definition sample_serving :: serving where
  "sample_serving = \<lparr>srv_giaddr = None, srv_policy = None, srv_links = None, srv_raw = new_Raw\<rparr>"

lemma sample_packet_job:
  "\<exists>j. packet_job sample_gopacket (\<lambda>_. Some sample_decoded) sample_flags None 7 data = (Some j, [])"
proof -
  have "ValidateLayers sample_gopacket (validate_options sample_flags) (Some (dec_Ethernet sample_decoded)) (Some (dec_IPv4 sample_decoded))
      (Some (dec_UDP sample_decoded)) (Some (dec_DHCPv4 sample_decoded)) = None"
    by (simp add: ValidateLayers_def validate_options_def sample_flags_def default_flags_def sample_decoded_def sample_dhcpv4_def
        sample_gopacket_def specs_defs ip_defs layers_defs word_less_nat_alt)
  then show ?thesis by (simp add: packet_job_def Let_def) (simp add: sample_decoded_def dhcpLayerChainDepth_def)
qed



end
