(* ===== verification/Roundtrip.thy ===== *)
theory Roundtrip
  imports Handle Relay
begin

text \<open>
  The request and the reply path together: what the relay writes into a request, its giaddr and its Option 82, is what its own
  reply path needs to find its way back to the client's segment.
\<close>

subsection \<open>Addresses\<close>

lemma global_unicast_four:
  assumes "IsGlobalUnicastIPv4 a"
  obtains b where "To4 a = Some b" "length b = 4" "b ! 0 \<noteq> 127" "b \<noteq> [0, 0, 0, 0]" "b \<noteq> [255, 255, 255, 255]"
proof -
  obtain b where b: "To4 a = Some b" using assms by (auto simp: IsGlobalUnicastIPv4_def)
  have "To4 IPv4zero = Some [0, 0, 0, 0]" "To4 IPv4bcast = Some [255, 255, 255, 255]"
    by (simp_all add: ip_defs)
  then have "b \<noteq> [0, 0, 0, 0]" "b \<noteq> [255, 255, 255, 255]" "b ! 0 \<noteq> 127"
    using assms b IP_Equal_To4 [OF b]
    by (auto simp: IsGlobalUnicastIPv4_def IsGlobalUnicast_def IsUnspecified_def IsLoopback_def)
  with b To4_length [OF b] show thesis by (intro that)
qed

text \<open>A four byte address with these properties passes the checks of the reply path.\<close>

lemma four_accepted:
  assumes "length b = 4" "b ! 0 \<noteq> 127" "b \<noteq> [0, 0, 0, 0]" "b \<noteq> [255, 255, 255, 255]"
  shows "\<not> IsLoopback (Some b)" "\<not> IP_Equal (Some b) IPv4zero" "\<not> IP_Equal (Some b) IPv4bcast" "\<not> IsUnspecified (Some b)"
proof -
  obtain w x y z where b: "b = [w, x, y, z]" using list4_cases [OF assms(1)] .
  show "\<not> IsLoopback (Some b)" "\<not> IP_Equal (Some b) IPv4zero" "\<not> IP_Equal (Some b) IPv4bcast" "\<not> IsUnspecified (Some b)"
    using assms by (simp_all add: b ip_defs)
qed

text \<open>Whether an address is global unicast depends on its four bytes only, not on the form it is kept in.\<close>

lemma IsGlobalUnicastIPv4_To4: "IsGlobalUnicastIPv4 (To4 a) = IsGlobalUnicastIPv4 a"
proof (cases "To4 a")
  case None
  then show ?thesis by (simp add: IsGlobalUnicastIPv4_def)
next
  case (Some b)
  have len: "length b = 4" "length (elems a) = 4 \<or> length (elems a) = 16"
    using Some To4_length [OF Some] by (auto simp: To4_def Let_def split: if_splits)
  have "To4 IPv4zero = Some [0, 0, 0, 0]" "To4 IPv4bcast = Some [255, 255, 255, 255]" by (simp_all add: ip_defs)
  note eq = IP_Equal_To4 [OF Some this(1)] IP_Equal_To4 [OF Some this(2)]
    IP_Equal_To4 [OF To4_four [OF len(1)] this(1)] IP_Equal_To4 [OF To4_four [OF len(1)] this(2)]
  have "\<not> IP_Equal x IPv6unspecified" if "To4 x = Some b" for x
    using that by (auto simp: To4_def IP_Equal_def IPv6unspecified_def v4InV6Prefix_def Let_def split: if_splits)
  with Some len eq show ?thesis
    by (simp add: IsGlobalUnicastIPv4_def IsGlobalUnicast_def IsUnspecified_def IsLoopback_def IsMulticast_def IsLinkLocalUnicast_def)
qed

text \<open>
  What the operating system promises: the list of all addresses holds those of every interface, and the local address of a dialled
  connection is among them.
\<close>

definition addresses_listed :: "host \<Rightarrow> bool" where
  "addresses_listed h \<longleftrightarrow>
     (\<exists>known. InterfaceAddrs h = Some known \<and>
        (\<forall>i ifi as. InterfaceByIndex h i = Some ifi \<longrightarrow> Interface_Addrs h ifi = Some as \<longrightarrow>
           (\<forall>n. IPNet n \<in> set as \<longrightarrow> IPNet n \<in> set known)) \<and>
        (\<forall>srv a port. DialContext h srv = Some (UDPAddr a port) \<longrightarrow>
           To4 a \<noteq> None \<longrightarrow> (\<exists>n. IPNet n \<in> set known \<and> To4 (IP n) = To4 a)))"

definition giaddr_ok :: "HandleOptions \<Rightarrow> bool" where
  "giaddr_ok cfg \<longleftrightarrow> Giaddr cfg = None \<or> IsGlobalUnicastIPv4 (Giaddr cfg)"

definition giaddr_choices :: "ipnet list \<Rightarrow> ip \<Rightarrow> ip list" where
  "giaddr_choices addrs override = (if addrs = [] then [override] else map IP addrs)"

lemma listed_is_local:
  assumes "InterfaceAddrs h = Some known" "IPNet n \<in> set known" "IsGlobalUnicastIPv4 (IP n)"
  shows "IsRelayLocalAddr h (To4 (IP n))"
proof -
  obtain b where b: "To4 (IP n) = Some b" "length b = 4" "b ! 0 \<noteq> 127" "b \<noteq> [0, 0, 0, 0]" "b \<noteq> [255, 255, 255, 255]"
    using global_unicast_four [OF assms(3)] .
  have "local_addr_loop (Some b) known"
    unfolding local_addr_loop_iff using assms(2,3) b(1,2) IP_Equal_four [of b b] by auto
  with assms(1) b four_accepted [OF b(2-5)] show ?thesis
    by (simp add: IsRelayLocalAddr_def)
qed

lemma resolved_giaddr:
  assumes "addresses_listed h" "giaddr_ok cfg"
    and "ResolveGiaddr h cfg dec ifIndex = Inr (addrs, override, linkSubnet)" "g \<in> set (giaddr_choices addrs override)"
  shows "IsGlobalUnicastIPv4 g \<and> GiaddrIsLocal h cfg (To4 g)"
proof -
  obtain known where known: "InterfaceAddrs h = Some known"
    and listed: "\<And>i ifi as. InterfaceByIndex h i = Some ifi \<Longrightarrow> Interface_Addrs h ifi = Some as \<Longrightarrow>
      (\<forall>n. IPNet n \<in> set as \<longrightarrow> IPNet n \<in> set known)"
    and dialled: "\<And>srv a port. DialContext h srv = Some (UDPAddr a port) \<Longrightarrow> To4 a \<noteq> None \<Longrightarrow>
      \<exists>n. IPNet n \<in> set known \<and> To4 (IP n) = To4 a"
    using assms(1) unfolding addresses_listed_def by blast
  have net: "IsGlobalUnicastIPv4 (IP n) \<and> GiaddrIsLocal h cfg (To4 (IP n))" if "IPNet n \<in> set known" "IsGlobalUnicastIPv4 (IP n)" for n
    using that listed_is_local [OF known that] by (simp add: GiaddrIsLocal_def)
  from assms(3) show ?thesis
  proof (cases rule: ResolveGiaddr_Inr)
    case (numbered ifi)
    obtain n where n: "n \<in> set addrs" "g = IP n" using assms(4) numbered(2) by (auto simp: giaddr_choices_def)
    from InterfaceGlobalUnicastAddrs4_set [OF numbered(3)] listed [OF numbered(1)] n net show ?thesis by blast
  next
    case (unnumbered ifi look)
    then have g: "g = override" "override \<noteq> None" using assms(4) by (simp_all add: giaddr_choices_def)
    from unnumbered(7) show ?thesis
    proof
      assume "override = Giaddr cfg"
      moreover from this g have gl: "IsGlobalUnicastIPv4 g" using assms(2) by (auto simp: giaddr_ok_def)
      moreover obtain b where "To4 g = Some b" "length b = 4" using global_unicast_four [OF gl] by metis
      ultimately show ?thesis
        using g IP_Equal_To4 [of g b "To4 g" b] by (simp add: GiaddrIsLocal_def)
    next
      assume sf: "Giaddr cfg = None \<and> ServerFacingAddr h (EffectiveServerAddress cfg dec) = Some override"
      then obtain a port where d: "DialContext h (server_hostport (EffectiveServerAddress cfg dec)) = Some (UDPAddr a port)"
        "IsGlobalUnicastIPv4 a" "override = To4 a"
        by (auto simp: ServerFacingAddr_def split: option.splits net_addr.splits if_splits)
      moreover obtain n where "IPNet n \<in> set known" "To4 (IP n) = To4 a"
        using dialled [OF d(1)] d(2) by (auto simp: IsGlobalUnicastIPv4_def)
      ultimately show ?thesis
        using net [of n] g IsGlobalUnicastIPv4_To4 [of a] IsGlobalUnicastIPv4_To4 [of "IP n"] by (simp add: To4_idem)
    qed
  qed
qed

subsection \<open>The ingress\<close>

text \<open>A reply brings the giaddr of the request back, in its four bytes, and its Option 82.\<close>

definition echoes :: "dhcpv4 \<Rightarrow> dhcpv4 \<Rightarrow> bool" where
  "echoes request reply \<longleftrightarrow>
     RelayAgentIP reply = To4 (RelayAgentIP request) \<and>
     GetOption reply RelayAgentInformation = GetOption request RelayAgentInformation"

text \<open>The sub-options of a decision are those of the packet, when it has some: the policy decodes them once for both.\<close>

definition decision_for :: "dhcpv4 \<Rightarrow> Decision \<Rightarrow> bool" where
  "decision_for reply d \<longleftrightarrow> ReplySubOpts d = None \<or> ReplySubOpts d = packet_subopts reply"

lemma PolicyForPacket_decision:
  "Operation reply = DHCPOpReply \<Longrightarrow> PolicyForPacket policy reply = (Some d, False) \<Longrightarrow> decision_for reply d"
  by (auto simp: decision_for_def PolicyForPacket_def LookupReplyAction_eq Let_def split: if_splits option.splits)

lemma echoed_subopts:
  fixes dec :: "Decision option"
  assumes "gopacket_ok gp" and "option_sort_ok SortFunc"
    and "0 < ifIndex" and "ifIndex < 2 ^ 32" and "linkSubnet = None \<or> To4 linkSubnet \<noteq> None"
    and "echoes (relayed gp SortFunc dec (request_routing ifIndex linkSubnet) layer g) reply"
  shows "packet_subopts reply = Some (chosen_subopts dec (request_routing ifIndex linkSubnet))"
    and "decision_for reply d \<Longrightarrow> reply_subopts d reply = chosen_subopts dec (request_routing ifIndex linkSubnet)"
proof -
  let ?subs = "chosen_subopts dec (request_routing ifIndex linkSubnet)"
  note r = relayed_option82(2,3) [OF assms(1-5), where dec = dec]
  have "GetOption reply RelayAgentInformation = EncodeRelayAgentInformationOption gp ?subs"
    using assms(6) relayed_option82(1) [OF assms(1-5)] by (simp add: echoes_def)
  note echo = Get_encoded [OF assms(1) r(1) this] reply_subopts_echo [OF assms(1) r this]
  show packet: "packet_subopts reply = Some ?subs"
    using r echo(1) Decode_Encode [OF assms(1) r] by (simp add: packet_subopts_def)
  show "decision_for reply d \<Longrightarrow> reply_subopts d reply = ?subs"
    using packet echo(2) by (auto simp: decision_for_def reply_subopts_def)
qed

lemma reply_finds_ingress:
  assumes "gopacket_ok gp" and "option_sort_ok SortFunc"
    and "0 < ifIndex" and "ifIndex < 2 ^ 32" and "linkSubnet = None \<or> To4 linkSubnet \<noteq> None"
    and echo: "echoes (relayed gp SortFunc dec (request_routing ifIndex linkSubnet) layer g) reply"
    and "IsGlobalUnicastIPv4 g" and "decision_for reply d"
    and "InterfaceByIndex h ifIndex = Some ifi" "bit (IfFlags ifi) 0" "elems (HardwareAddr ifi) \<noteq> []"
  shows "fst (reply_ingress h d reply) = Inr (To4 g, ifi)"
proof -
  obtain b where b: "To4 g = Some b" "length b = 4" "b ! 0 \<noteq> 127" "b \<noteq> [0, 0, 0, 0]" "b \<noteq> [255, 255, 255, 255]"
    using global_unicast_four [OF assms(7)] .
  have ip: "To4 (RelayAgentIP reply) = Some b" using echo b by (simp add: echoes_def relayed_def)
  have up: "IfFlags ifi AND FlagUp \<noteq> 0" using assms(10) by (simp add: FlagUp_def and_one_eq odd_iff_mod_2_eq_one bit_0)
  have "ExtractAgentCircuitIDSubOptionData (reply_subopts d reply) = ifIndex"
    using echoed_subopts(2) [OF assms(1-5) echo assms(8)] relayed_option82(4) [OF assms(1-5)] by simp
  with assms(3,9,11) up b(1) ip four_accepted [OF b(2-5)] show ?thesis
    unfolding reply_ingress_Inr by simp
qed

text \<open>The whole handler on such a reply.\<close>

lemma handled_locally:
  assumes "Operation reply = DHCPOpReply" "GetMessageType gp reply \<noteq> []" "RelayHops reply \<noteq> 0" "RelayHops reply \<le> MaxHops cfg"
    and "\<not> DropReply d" "GiaddrIsLocal h cfg (RelayAgentIP reply)"
    and "Handle gp SortFunc h cfg (Some d) i reply = Some (l, c, es)"
  obtains err es' where
    "HandleGenericReply gp h cfg (Some d) reply (if bit (Flags reply) 15 then BroadcastReply else UnicastReply) = Some (err, l, c, es')"
    "frames es = frames es'" "datagrams es = []" "err \<noteq> None \<longrightarrow> (\<exists>m. Logf Warn m \<in> set es)"
proof -
  have op: "DHCPOpReply \<noteq> DHCPOpRequest" by (simp add: layers_defs)
  have boot: "datagrams (if b then [Logf Debug m] else []) = []" "frames (if b then [Logf Debug m] else []) = []" for b m by simp_all
  have run: "handle_reply gp h cfg d reply = Some (l, c, es)"
    using assms(1,2,7) op by (simp add: Handle_def decision_or_zero_def)
  have "\<exists>err es'. HandleGenericReply gp h cfg (Some d) reply (if bit (Flags reply) 15 then BroadcastReply else UnicastReply) = Some (err, l, c, es') \<and>
      frames es = frames es' \<and> datagrams es = datagrams es' \<and> (err \<noteq> None \<longrightarrow> (\<exists>m. Logf Warn m \<in> set es))"
    using run assms(3-6)
    by (auto simp: handle_reply_def Let_def IsUnicast_bit IsBroadcast_bit boot log_error_def split: option.splits if_splits)
  with HandleGenericReply_no_datagrams that show thesis by metis
qed

lemma reply_one_copy:
  assumes "HandleGenericReply gp h cfg (Some d) reply rt = Some (err, l, c, es)"
    and "\<not> DropReply d" "ReplyNICMatch d = None" "fst (reply_ingress h d reply) = Inr (srcIP, ifi)"
  shows "map fst (frames es) = [Index ifi] \<or> frames es = [] \<and> err \<noteq> None"
  using assms(1)
proof (cases rule: HandleGenericReply_cases)
  case dropped
  with assms(2) show ?thesis by (simp add: decision_or_zero_def)
next
  case (refused e)
  then show ?thesis by simp
next
  case (sent srcIP' ifi' logs ident targets logs1 out)
  have ifi: "ifi' = ifi" using sent(2) assms(4) by (simp add: decision_or_zero_def)
  have targets: "targets = [ifi]" using sent(5) assms(3) ifi by (simp add: decision_or_zero_def ReplyTargets_def)
  have "frames es = frames out"
    using sent(8) reply_ingress_logs [OF sent(2)] ReplyTargets_logs [OF sent(5)] by simp
  moreover have "frames out = []" if "err = Some (CopiesFailed errs)" for errs
    using socket_frames(4) [OF sent(7)] that targets by (cases errs) auto
  ultimately show ?thesis
    using socket_frames(4) [OF sent(7)] targets by (auto split: option.splits reply_error.splits)
qed

subsection \<open>The policy tag\<close>

lemma request_tag_wf:
  assumes "Snapshot policy = Some t" "wf_table t" "Operation req = DHCPOpRequest" "PolicyForPacket policy req = (Some dec, False)"
    and "PolicyTag dec = Some tag"
  shows "wf_key tag"
proof -
  obtain action key where look: "Map_LookupID policy [client_id req, ClientHWAddr req] = (action, key)" by fastforce
  have op: "Operation req \<noteq> DHCPOpReply" using assms(3) by (simp add: layers_defs)
  have "dec = RequestConfig action key"
    using PolicyForPacket_request [OF op look] assms(4) by (simp split: if_splits)
  then have "key = Some tag" using assms(5) by (simp add: RequestConfig_def Let_def zero_decision_def split: if_splits)
  with look assms(1) have "Table_LookupID t [client_id req, ClientHWAddr req] = (action, Some tag)" by (simp add: Map_LookupID_def)
  from Table_LookupID_matched [OF this] have "(tag, action) \<in> set (entries t)" by (blast dest: map_of_SomeD)
  with assms(2) show ?thesis by (auto simp: wf_table_def list_all_iff)
qed

lemma request_routing_size: "subopts_size (request_routing ifIndex None) \<le> 12"
  using length_circuit_id [of "word_of_int ifIndex"] by (simp add: request_routing_def routing_subopts_def MaxAgentCircuitIDSize_def)

end
