(* ===== verification/Spec2Isabelle.thy ===== *)
theory Spec2Isabelle
  imports Relay_Main Roundtrip
begin

text \<open>
  Verification of the DHCPv4 relay agent, a Go program for Linux. It receives DHCP frames on a raw socket, relays client requests to
  DHCP servers over UDP and delivers the servers' replies to the clients as raw frames.

  \<^bold>\<open>The program.\<close> \<^verbatim>\<open>main.go\<close> checks the flags, loads a per-client policy (\<^verbatim>\<open>pkg/macpolicy\<close>) and a link map (\<^verbatim>\<open>pkg/linkmap\<close>), both kept
  up to date by a file watcher (\<^verbatim>\<open>pkg/filewatch\<close>), opens the sockets (\<^verbatim>\<open>pkg/sockets\<close>) behind a BPF filter (\<^verbatim>\<open>pkg/bytecode\<close>), and runs a receive
  loop with a bounded pool of handlers. Each frame is decoded by the packet library, validated (\<^verbatim>\<open>pkg/dhcp4/validate.go\<close>), cleaned of
  split options (\<^verbatim>\<open>pkg/gpckt\<close>) and judged by the policy (\<^verbatim>\<open>pkg/relay\<close>). \<^verbatim>\<open>Handle\<close> in \<^verbatim>\<open>pkg/dhcp4\<close> then sends a request on with a giaddr and an
  Option 82 that carries the ingress NIC, the link subnet and the policy key, and takes a reply back to the NIC its Option 82 names.

  \<^bold>\<open>The theories\<close>, from the bottom up. A definition has the name of the Go function it translates, with a prefix where names
  clash (\<open>policy_Parse\<close>, \<open>link_Parse\<close>, \<open>raw_Send\<close>); a piece of a long function has a name of its own.
  \<^item> \<open>Prelude\<close>, \<open>Specs\<close>, \<open>Layers\<close>: words and slices, \<^verbatim>\<open>pkg/specs\<close>, and the packet structures. The packet library is the record
    \<open>gopacket\<close>, an argument of what calls it; \<open>gopacket_ok\<close> is what is relied on, and \<open>sample_gopacket\<close> has it.
  \<^item> \<open>Go_Strings\<close>, \<open>Go_Net\<close>, \<open>Glob\<close>: what is used of the standard library (\<^verbatim>\<open>strings\<close>, \<^verbatim>\<open>strconv\<close>, \<^verbatim>\<open>bufio\<close>, \<^verbatim>\<open>net\<close>, \<^verbatim>\<open>filepath.Match\<close>) and \<^verbatim>\<open>pkg/glob\<close>.
  \<^item> \<open>Dhcp_Options\<close>, \<open>Opt82\<close>: \<^verbatim>\<open>pkg/gpckt\<close>, the option list and the codec of Option 82.
  \<^item> \<open>Cfgmatch\<close>, \<open>Filewatch\<close>, \<open>Macpolicy\<close>, \<open>Linkmap\<close>: \<^verbatim>\<open>pkg/cfgmatch\<close>, the watcher, and its two users.
  \<^item> \<open>Unix_Types\<close>, \<open>Net_Host\<close>: the kernel and the host as records of the answers of the operating system, and the effects of a handler: log
    lines, datagrams, frames and operations on descriptors, in order.
  \<^item> \<open>Sockets\<close>, \<open>Bytecode\<close>, \<open>Logger\<close>, \<open>Version\<close>, \<open>Debug_Server\<close>: \<^verbatim>\<open>pkg/sockets\<close>, \<^verbatim>\<open>pkg/bytecode\<close>, \<^verbatim>\<open>pkg/logger\<close>, \<^verbatim>\<open>pkg/version\<close>, \<^verbatim>\<open>pkg/debug\<close>.
  \<^item> \<open>Handle_Types\<close>, \<open>Ifcache\<close>, \<open>Addrs\<close>, \<open>Validate\<close>, \<open>Request\<close>, \<open>Reply\<close>, \<open>Handle\<close>: \<^verbatim>\<open>pkg/dhcp4\<close>, by source file.
  \<^item> \<open>Relay\<close>, \<open>Relay_Main\<close>: \<^verbatim>\<open>pkg/relay\<close> and \<^verbatim>\<open>main.go\<close>. \<open>Roundtrip\<close> and this theory put the parts together.

  \<^bold>\<open>State and operations.\<close> A Go structure is a record and an operation returns it updated; code that works on a pointer returns the message
  as it leaves it. An error is a value of a datatype per package, \<open>None\<close> where its kind does not matter. What blocks for ever is
  \<open>None\<close> of a partial function: the retry loops of the socket (\<open>poll_loop\<close>) and of the random identifier; no definition uses fuel.
  Concurrency is in three step relations: the callers of the interface cache with its mutex and clock (\<open>cache_step\<close>), the poller with
  concurrent reloads and a close (\<open>watch_step\<close>), and the program itself (\<open>relay_step\<close>) with frames, handlers, reloads, signals and the drain in any order.

  \<^bold>\<open>Interfaces.\<close> \<open>snapshot_parser\<close> is what a file format promises the watcher, interpreted by the policy and the link map;
  \<open>link_subnets\<close> is what the link map promises the request path; \<open>socket_contract\<close> is what the socket wrapper promises the reply path and the
  start about descriptors; \<open>keyed_lookup\<close> is what the policy table promises the tagging of requests.

  \<^bold>\<open>What is shown.\<close>
  \<^item> End to end, here: a reply that echoes a relayed request leaves by the NIC the request came in on; the policy entry of a request
    decides about its reply; whatever a run sends is justified by a valid packet it received.
  \<^item> Handlers: exactly which copies of a request go out, what they carry, which frames a reply turns into, with which
    addresses and under which errors; hop counts bound forwarding; handlers return and leak no descriptor.
  \<^item> Program: the pool stays bounded and holds validated packets only, the drain can always complete, the accepted flag values are exact, and
    the start leaves the filtered socket open or nothing.
  \<^item> Configuration: the parsers accept exactly the files with a meaning and look up what the lines say, reloads are atomic, and only validated
    tables are ever served.
  \<^item> Codecs and filters: Option 82 round trips and its size limits, the option list operations, pattern validation, packet validation and the
    BPF program each against an independent description.

  \<^bold>\<open>Hypotheses.\<close> Besides \<open>gopacket_ok\<close>: \<open>option_sort_ok\<close> (the sort of the standard library sorts), \<open>socket_ok\<close> (descriptors are not
  negative), \<open>answers\<close> (the kernel and the random source answer at some point), and \<open>addresses_listed\<close> (the list of all addresses is complete).
  A concrete host, kernel and packet library satisfy them in the witnesses.

  \<^bold>\<open>Not modelled.\<close> The packet library, the kernel, name resolution and the HTTP server, which are arguments. Panics and the
  recovery in \<^verbatim>\<open>Handle\<close>, since the definitions are total; a second registration of a route is the one
  panic that is a value. The arguments of log lines, the command line parser with its usage text, and the log lines of the start. The
  length and checksum fields that serialization writes back into the layers it is given. A handler is one step of the program's
  relation, since handlers share nothing but the interface cache, which has its own. The lenient fallback of \<^verbatim>\<open>time.Parse\<close> is an
  argument of the version string. Letters and white space outside ASCII are not folded in configuration files. The tests, the build and
  the container files are not part of the program.
\<close>

section \<open>Request and reply\<close>



text \<open>C2: Policy follows the client through the server. A request that the policy let through under an entry carries the key of
  the entry in its Option 82, whichever table of the parser is loaded: beside the circuit ID alone every key fits, and beside a link
  subnet every key of up to 235 bytes. When a reply brings that Option 82 back and its own identifiers are not denied, the reply
  action of the same entry decides where it goes, and the handler gets the sub-options that the request had.\<close>

theorem policy_follows_client:
  assumes "gopacket_ok gp" "option_sort_ok SortFunc" "0 < ifIndex" "ifIndex < 2 ^ 32"
    and "linkSubnet = None \<or> To4 linkSubnet \<noteq> None \<and> length tag \<le> 235"
    and "Snapshot policy = Some t" "wf_table t"
    and "Operation req = DHCPOpRequest" "PolicyForPacket policy req = (Some dec, False)" "PolicyTag dec = Some tag"
    and "echoes (relayed gp SortFunc (Some dec) (request_routing ifIndex linkSubnet) req g) rep"
    and "Operation rep = DHCPOpReply" "Kind (base_action policy rep) \<noteq> ActionBlackhole"
  shows "\<exists>action. Map_LookupID policy [client_id req, ClientHWAddr req] = (action, Some tag) \<and>
    PolicyForPacket policy rep =
      (Some ((ReplyConfig action)\<lparr>ReplySubOpts := Some (chosen_subopts (Some dec) (request_routing ifIndex linkSubnet))\<rparr>), False)"
proof -
  have sub: "linkSubnet = None \<or> To4 linkSubnet \<noteq> None" using assms(5) by blast
  note subs = echoed_subopts(1) [OF assms(1-4) sub assms(11)]
  have "wf_key tag" by (rule request_tag_wf [OF assms(6-10)])
  then have tag: "decision_tag (Some dec) = tag" "tag \<noteq> []" "length tag \<le> MaxPolicyTagSize"
    using assms(10) by (auto simp: decision_tag_def wf_key_def)
  have "subopts_size (request_routing ifIndex linkSubnet) + 2 + length tag \<le> 255"
    using tag(3) assms(5) request_routing_size [of ifIndex] routing_wf(2) [OF sub, of "word_of_int ifIndex"]
    by (auto simp: subopt_defs specs_defs request_routing_def)
  then have "packet_tag rep = Some tag"
    using tag by (simp add: packet_tag_def subs Extract_tag_chosen)
  from tag_reapplies [OF assms(9,8,10,12) this assms(13)] subs show ?thesis by simp
qed

definition sample_policy :: policy_map where
  "sample_policy = sample_live (sample_entry_table (zero_action\<lparr>Kind := ActionDefault\<rparr>))"

definition sample_decision :: Decision where
  "sample_decision = zero_decision\<lparr>PolicyTag := Some [1, 0xaa]\<rparr>"

definition sample_echo :: dhcpv4 where
  "sample_echo = sample_reply\<lparr>Options :=
     [EncodeRelayAgentInformationOption sample_gopacket (chosen_subopts (Some sample_decision) (request_routing 7 None))]\<rparr>"

lemma sample_echo_echoes:
  "echoes (relayed sample_gopacket (sort_key opt_Type) (Some sample_decision) (request_routing 7 None) sample_request (Some [10, 0, 0, 1]))
     sample_echo" (is "echoes ?l _")
  and sample_echo_client: "client_id sample_echo = None"
proof -
  let ?opt = "EncodeRelayAgentInformationOption sample_gopacket (chosen_subopts (Some sample_decision) (request_routing 7 None))"
  note r = relayed_option82(1,2) [OF sample_gopacket_ok option_sort_ok_sort_key, where ifIndex = 7 and linkSubnet = None and dec = "Some sample_decision"]
  have "IsOption ?opt" using r(2) by simp
  note ty = Encode_type [OF sample_gopacket_ok this]
  then have "GetOption sample_echo RelayAgentInformation = ?opt" by (simp add: sample_echo_def GetOption_def)
  moreover have "GetOption ?l RelayAgentInformation = ?opt" using r(1) by simp
  ultimately show "echoes ?l sample_echo" by (simp add: echoes_def) (simp add: relayed_def sample_echo_def sample_reply_def)
  show "client_id sample_echo = None"
    using ty by (simp add: client_id_def sample_echo_def GetOption_def IsOption_def layers_defs RelayAgentInformation_def Let_def)
qed

theorem policy_follows_client_witness:
  "PolicyForPacket sample_policy sample_request = (Some sample_decision, False) \<and>
   PolicyForPacket sample_policy sample_echo =
     (Some (zero_decision\<lparr>DropReply := True,
        ReplySubOpts := Some (chosen_subopts (Some sample_decision) (request_routing 7 None))\<rparr>), False)"
proof -
  let ?entry = "zero_action\<lparr>Kind := ActionDefault, Reply := zero_reply\<lparr>ReplyKind := ReplyBlackhole\<rparr>\<rparr>"
  have look: "Map_LookupID sample_policy [client_id sample_request, ClientHWAddr sample_request] = (?entry, Some [1, 0xaa])"
    by (simp add: sample_policy_def Map_LookupID_def sample_client_ids sample_entry_table_def)
  have req: "PolicyForPacket sample_policy sample_request = (Some sample_decision, False)" "PolicyTag sample_decision = Some [1, 0xaa]"
    using PolicyForPacket_request [OF sample_request_op look]
    by (simp_all add: RequestConfig_def zero_action_def zero_decision_def sample_decision_def)
  have snap: "Snapshot sample_policy = Some (sample_entry_table (zero_action\<lparr>Kind := ActionDefault\<rparr>))"
    by (simp add: sample_policy_def)
  have wf: "wf_table (sample_entry_table (zero_action\<lparr>Kind := ActionDefault\<rparr>))"
    by (simp add: wf_table_def sample_entry_table_def wf_key_def wf_action_def wf_reply_def zero_action_def zero_reply_def subopt_defs specs_defs)
  have base: "Kind (base_action sample_policy sample_echo) \<noteq> ActionBlackhole"
    by (simp add: base_action_def Map_Lookup_def Map_LookupID_def sample_policy_def sample_echo_client sample_entry_table_def
        sample_echo_def sample_reply_def sample_dhcpv4_def zero_action_def)
  have op: "Operation sample_request = DHCPOpRequest" "Operation sample_echo = DHCPOpReply"
    by (simp_all add: sample_request_def sample_echo_def sample_reply_def sample_dhcpv4_def layers_defs)
  from policy_follows_client [OF sample_gopacket_ok option_sort_ok_sort_key _ _ _ snap wf op(1) req sample_echo_echoes op(2) base]
    look req(1) show ?thesis
    by (simp add: ReplyConfig_def zero_action_def zero_reply_def)
qed

section \<open>The whole run\<close>

text \<open>The packets that a frame among the events was turned into, by some policy.\<close>

definition accepted :: "gopacket \<Rightarrow> (bytes \<Rightarrow> decoded option) \<Rightarrow> flags \<Rightarrow> relay_event list \<Rightarrow> job \<Rightarrow> bool" where
  "accepted gp DecodeLayers f evs j \<longleftrightarrow>
     (\<exists>i data policy es. Frame i data \<in> set evs \<and> packet_job gp DecodeLayers f policy i data = (Some j, es))"

lemma accepted_mono:
  "set es \<subseteq> set es' \<Longrightarrow> accepted gp DecodeLayers f es j \<Longrightarrow> accepted gp DecodeLayers f es' j"
  by (auto simp: accepted_def)

definition received :: "relay_event list \<Rightarrow> nat" where
  "received evs = length (filter (\<lambda>e. case e of Frame _ _ \<Rightarrow> True | _ \<Rightarrow> False) evs)"

definition finished :: "relay_event list \<Rightarrow> nat" where
  "finished evs = length (filter (\<lambda>e. case e of Handled _ \<Rightarrow> True | _ \<Rightarrow> False) evs)"

text \<open>The packets that may lead to a frame to a client, and to a datagram, under a hop limit.\<close>

definition may_deliver :: "gopacket \<Rightarrow> u8 \<Rightarrow> job \<Rightarrow> bool" where
  "may_deliver gp m j \<longleftrightarrow>
     GetMessageType gp (job_layer j) \<noteq> [] \<and> Operation (job_layer j) = DHCPOpReply \<and>
     RelayHops (job_layer j) \<noteq> 0 \<and> RelayHops (job_layer j) \<le> m \<and> \<not> DropReply (decision_or_zero (job_dec j))"

definition may_forward :: "gopacket \<Rightarrow> u8 \<Rightarrow> job \<Rightarrow> bool" where
  "may_forward gp m j \<longleftrightarrow>
     GetMessageType gp (job_layer j) \<noteq> [] \<and>
     (Operation (job_layer j) = DHCPOpRequest \<and> RelayHops (job_layer j) < m \<or> may_deliver gp m j)"

lemma Handle_justified:
  assumes "Handle gp SortFunc h (relay_options f giaddr links cache) (job_dec j) (job_ifindex j) (job_layer j) = Some (l, c, es)"
  shows "(frames es \<noteq> [] \<longrightarrow> may_deliver gp (ucast (flagMaxHops f)) j) \<and> (datagrams es \<noteq> [] \<longrightarrow> may_forward gp (ucast (flagMaxHops f)) j)"
  using assms by (cases rule: Handle_cases) (simp_all add: may_deliver_def may_forward_def relay_options_def)

lemma drain_log_quiet [simp]: "frames (drain_log r) = []" "datagrams (drain_log r) = []"
  by (cases r; simp)+

lemma packet_job_quiet:
  "packet_job gp DecodeLayers f policy i data = (j, es) \<Longrightarrow> frames es = [] \<and> datagrams es = []"
  by (auto simp: packet_job_def Let_def split: if_splits option.splits prod.splits bool.splits)

lemma handlePacket_cases:
  assumes "handlePacket gp DecodeLayers f policy cap hs i data = (js, es)"
  shows "frames es = [] \<and> datagrams es = [] \<and>
    (js = hs \<or> (\<exists>j es'. packet_job gp DecodeLayers f policy i data = (Some j, es') \<and> js = hs @ [j]))"
  using assms packet_job_quiet [of gp DecodeLayers f policy i data]
  by (auto simp: handlePacket_def split: prod.splits option.splits if_splits)

lemma relay_step_justified:
  assumes "relay_step gp DecodeLayers SortFunc f giaddr s e s'" "\<forall>j \<in> set (handlers s). J j"
    and "\<forall>j. accepted gp DecodeLayers f [e] j \<longrightarrow> J j"
  shows "(\<forall>j \<in> set (handlers s'). J j) \<and> finished [e] + length (handlers s') \<le> length (handlers s) + received [e] \<and>
    (\<exists>es. out s' = out s @ es \<and>
      (frames es \<noteq> [] \<longrightarrow> (\<exists>j. J j \<and> may_deliver gp (ucast (flagMaxHops f)) j)) \<and>
      (datagrams es \<noteq> [] \<longrightarrow> (\<exists>j. J j \<and> may_forward gp (ucast (flagMaxHops f)) j)))"
  using assms(1)
proof cases
  case (frame i data js es)
  with handlePacket_cases [OF frame(4)] assms(2,3) show ?thesis by (fastforce simp: received_def finished_def accepted_def)
next
  case (handled n j h l c es)
  have "J j" using assms(2) handled by simp
  moreover have "length (take n (handlers s) @ drop (Suc n) (handlers s)) + 1 \<le> length (handlers s)" using handled(4) by simp
  moreover have "\<forall>j \<in> set (take n (handlers s) @ drop (Suc n) (handlers s)). J j"
    using assms(2) by (auto dest: in_set_takeD in_set_dropD)
  ultimately show ?thesis using Handle_justified [OF handled(6)] handled(1,2) by (auto simp: received_def finished_def)
qed (use assms(2) in \<open>auto simp: received_def finished_def\<close>)

lemma relay_run_justified:
  assumes "relay_run gp DecodeLayers SortFunc f giaddr s evs s'" "\<forall>j \<in> set (handlers s). J j"
    and "\<forall>j. accepted gp DecodeLayers f evs j \<longrightarrow> J j"
  shows "finished evs + length (handlers s') \<le> length (handlers s) + received evs \<and>
    (\<exists>es. out s' = out s @ es \<and>
      (frames es \<noteq> [] \<longrightarrow> (\<exists>j. J j \<and> may_deliver gp (ucast (flagMaxHops f)) j)) \<and>
      (datagrams es \<noteq> [] \<longrightarrow> (\<exists>j. J j \<and> may_forward gp (ucast (flagMaxHops f)) j)))"
  using assms
proof (induction rule: relay_run.induct)
  case (run_nil s)
  then show ?case by (auto simp: finished_def received_def)
next
  case (run_cons s e s1 evs s2)
  have J: "\<forall>j. accepted gp DecodeLayers f [e] j \<longrightarrow> J j" "\<forall>j. accepted gp DecodeLayers f evs j \<longrightarrow> J j"
    using run_cons.prems(2) accepted_mono [of "[e]" "e # evs"] accepted_mono [of evs "e # evs"] by (auto simp: subset_insertI)
  note step = relay_step_justified [OF run_cons.hyps(1) run_cons.prems(1) J(1)]
  from run_cons.IH J(2) step have rest: "finished evs + length (handlers s2) \<le> length (handlers s1) + received evs"
    "\<exists>es. out s2 = out s1 @ es \<and> (frames es \<noteq> [] \<longrightarrow> (\<exists>j. J j \<and> may_deliver gp (ucast (flagMaxHops f)) j)) \<and>
      (datagrams es \<noteq> [] \<longrightarrow> (\<exists>j. J j \<and> may_forward gp (ucast (flagMaxHops f)) j))" by blast+
  have "finished (e # evs) = finished [e] + finished evs" "received (e # evs) = received [e] + received evs"
    by (simp_all add: finished_def received_def)
  with step rest(1) have "finished (e # evs) + length (handlers s2) \<le> length (handlers s) + received (e # evs)" by linarith
  moreover obtain es1 es2 where "out s1 = out s @ es1" "out s2 = out s1 @ es2"
    "frames es1 \<noteq> [] \<or> frames es2 \<noteq> [] \<longrightarrow> (\<exists>j. J j \<and> may_deliver gp (ucast (flagMaxHops f)) j)"
    "datagrams es1 \<noteq> [] \<or> datagrams es2 \<noteq> [] \<longrightarrow> (\<exists>j. J j \<and> may_forward gp (ucast (flagMaxHops f)) j)"
    using step rest(2) by blast
  ultimately show ?case by (intro conjI exI [of _ "es1 @ es2"]) auto
qed


definition sample_forward :: job where
  "sample_forward = \<lparr>job_dec = None, job_ifindex = 7, job_layer = sample_relayed\<rparr>"

lemma sample_forward_job:
  "packet_job sample_gopacket (\<lambda>_. Some (sample_decoded\<lparr>dec_DHCPv4 := sample_relayed\<rparr>)) sample_flags None 7 data = (Some sample_forward, [])"
proof -
  let ?d = "sample_decoded\<lparr>dec_DHCPv4 := sample_relayed\<rparr>"
  have "ValidateLayers sample_gopacket (validate_options sample_flags) (Some (dec_Ethernet ?d)) (Some (dec_IPv4 ?d))
      (Some (dec_UDP ?d)) (Some (dec_DHCPv4 ?d)) = None"
    by (simp add: ValidateLayers_def validate_options_def sample_flags_def default_flags_def sample_decoded_def sample_relayed_def sample_dhcpv4_def
        sample_gopacket_def specs_defs ip_defs layers_defs word_less_nat_alt)
  moreover have "sample_relayed\<lparr>Options := DeleteSplitOptions (Options sample_relayed)\<rparr> = sample_relayed"
    by (simp add: sample_relayed_def sample_dhcpv4_def DeleteSplitOptions_def layers_defs)
  ultimately show ?thesis
    by (simp add: packet_job_def Let_def sample_forward_def) (simp add: sample_decoded_def dhcpLayerChainDepth_def)
qed


end
